(* ===== verification/Go_Base.thy ===== *)
theory Go_Base
  imports Main "HOL-Library.Multiset" "HOL-Library.AList" "HOL-Library.Char_ord" "HOL-Library.List_Lexorder"
begin

text \<open>
  The prelude of the development: the pieces of the Go language and of its standard library
  that every component of the operator uses.

  \<^item> Go maps with string keys. A map is nil (\<open>None\<close>) or an association list; the order of the
    list is the order in which a \<open>range\<close> statement delivers the entries, so a statement about
    every list is a statement about every iteration order. \<open>gwf\<close> says that no key is repeated.
  \<^item> The locales \<open>range_loop\<close> and \<open>sticky_loop\<close>: what a \<open>range\<close> loop over a map computes when
    its body only touches the part of the state that belongs to the current key, and what a
    loop over a state with a sticky error says about the names it has visited.
  \<^item> The functions of packages strings, sort, strconv and fmt that the operator calls.
\<close>

named_theorems gomap \<open>the equations of lookup, insertion and deletion in Go maps\<close>

subsection \<open>Go maps\<close>

type_synonym 'v gomap = "(string \<times> 'v) list option"

lemma update_fresh: "k \<notin> fst ` set al \<Longrightarrow> AList.update k v al = al @ [(k, v)]"
  by (induction al) auto

definition gentries :: "'v gomap \<Rightarrow> (string \<times> 'v) list" where
  "gentries m = (case m of None \<Rightarrow> [] | Some l \<Rightarrow> l)"

definition glookup :: "'v gomap \<Rightarrow> string \<Rightarrow> 'v option" where
  "glookup m k = map_of (gentries m) k"

definition gmake :: "'v gomap" where
  "gmake = Some []"

text \<open>\<open>m[k] = v\<close> on an allocated map; the source allocates a nil map first wherever it may be nil.\<close>

definition ginsert :: "string \<Rightarrow> 'v \<Rightarrow> 'v gomap \<Rightarrow> 'v gomap" where
  "ginsert k v m = Some (AList.update k v (gentries m))"

definition gdelete :: "string \<Rightarrow> 'v gomap \<Rightarrow> 'v gomap" where
  "gdelete k m = map_option (AList.delete k) m"

definition glen :: "'v gomap \<Rightarrow> nat" where
  "glen m = length (gentries m)"

definition gwf :: "'v gomap \<Rightarrow> bool" where
  "gwf m \<longleftrightarrow> distinct (map fst (gentries m))"

text \<open>The zero value of a string-valued map at an absent key is the empty string.\<close>

definition gstring :: "string gomap \<Rightarrow> string \<Rightarrow> string" where
  "gstring m k = (case glookup m k of None \<Rightarrow> '''' | Some v \<Rightarrow> v)"

lemma gentries_simps [simp]: "gentries None = []" "gentries (Some l) = l"
  by (simp_all add: gentries_def)

lemma glookup_None [simp, gomap]: "glookup None k = None"
  by (simp add: glookup_def)

lemma glookup_gmake [simp, gomap]: "glookup gmake k = None"
  by (simp add: glookup_def gmake_def)

lemma gentries_gmake [simp]: "gentries gmake = []"
  by (simp add: gmake_def)

lemma glookup_Some: "glookup (Some l) k = map_of l k"
  by (simp add: glookup_def)

lemma glookup_ginsert [gomap]: "glookup (ginsert k v m) k' = (if k' = k then Some v else glookup m k')"
  by (simp add: glookup_def ginsert_def update_conv')

lemma glookup_gdelete [gomap]: "glookup (gdelete k m) k' = (if k' = k then None else glookup m k')"
  by (cases m) (simp_all add: glookup_def gdelete_def delete_conv')

lemma ginsert_not_nil [simp]: "ginsert k v m \<noteq> None"
  by (simp add: ginsert_def)

lemma gdelete_nil [simp]: "gdelete k m = None \<longleftrightarrow> m = None"
  by (simp add: gdelete_def)

lemma gwf_None [simp]: "gwf None"
  by (simp add: gwf_def)

lemma gwf_gmake [simp]: "gwf gmake"
  by (simp add: gwf_def)

lemma gwf_ginsert [simp]: "gwf m \<Longrightarrow> gwf (ginsert k v m)"
  by (simp add: gwf_def ginsert_def distinct_update)

lemma gwf_gdelete [simp]: "gwf m \<Longrightarrow> gwf (gdelete k m)"
  by (cases m) (simp_all add: gwf_def gdelete_def distinct_delete)

lemma glookup_in: "glookup m k = Some v \<Longrightarrow> (k, v) \<in> set (gentries m)"
  by (simp add: glookup_def map_of_SomeD)

lemma glookup_iff: "gwf m \<Longrightarrow> (k, v) \<in> set (gentries m) \<longleftrightarrow> glookup m k = Some v"
  by (simp add: glookup_def gwf_def)

lemma glookup_None_iff: "glookup m k = None \<longleftrightarrow> k \<notin> fst ` set (gentries m)"
  by (simp add: glookup_def map_of_eq_None_iff)

lemma glen_0_iff: "glen m = 0 \<longleftrightarrow> (\<forall>k. glookup m k = None)"
proof
  show "glen m = 0 \<Longrightarrow> \<forall>k. glookup m k = None"
    by (simp add: glen_def glookup_def)
next
  assume "\<forall>k. glookup m k = None"
  then have "fst ` set (gentries m) = {}" by (auto simp: glookup_None_iff)
  then show "glen m = 0" by (simp add: glen_def)
qed

text \<open>Some entry of a map satisfies a predicate: the early-return searches of the source.\<close>

definition gexists :: "(string \<Rightarrow> 'v \<Rightarrow> bool) \<Rightarrow> 'v gomap \<Rightarrow> bool" where
  "gexists P m \<longleftrightarrow> list_ex (\<lambda>(k, v). P k v) (gentries m)"

lemma gexists_iff: "gwf m \<Longrightarrow> gexists P m \<longleftrightarrow> (\<exists>k v. glookup m k = Some v \<and> P k v)"
  by (auto simp: gexists_def list_ex_iff simp flip: glookup_iff)

lemma gexists_Some_iff:
  assumes "gwf m"
  shows "gexists (\<lambda>_ v. case v of None \<Rightarrow> False | Some x \<Rightarrow> P x) m \<longleftrightarrow> (\<exists>k x. glookup m k = Some (Some x) \<and> P x)"
proof -
  have "(case v of None \<Rightarrow> False | Some x \<Rightarrow> P x) \<longleftrightarrow> (\<exists>x. v = Some x \<and> P x)" for v
    by (cases v) auto
  then show ?thesis by (auto simp: gexists_iff [OF assms])
qed

text \<open>A statement about all entries of a map of pointers that says nothing about nil pointers.\<close>

lemma entries_Some_iff:
  assumes "\<And>k. P k None"
  shows "(\<forall>(k, v) \<in> set l. P k v) \<longleftrightarrow> (\<forall>k x. (k, Some x) \<in> set l \<longrightarrow> P k (Some x))"
proof
  assume some: "\<forall>k x. (k, Some x) \<in> set l \<longrightarrow> P k (Some x)"
  have "P k v" if "(k, v) \<in> set l" for k v using some assms that by (cases v) simp_all
  then show "\<forall>(k, v) \<in> set l. P k v" by auto
qed auto

text \<open>A map of pointers that holds each key once and whose non-nil values satisfy a predicate.\<close>

definition gall :: "('v \<Rightarrow> bool) \<Rightarrow> 'v option gomap \<Rightarrow> bool" where
  "gall P m \<longleftrightarrow> gwf m \<and> (\<forall>(k, v) \<in> set (gentries m). pred_option P v)"

lemma gall_gwf: "gall P m \<Longrightarrow> gwf m"
  by (simp add: gall_def)

lemma gallD: "gall P m \<Longrightarrow> glookup m k = Some (Some v) \<Longrightarrow> P v"
  by (fastforce simp: gall_def dest: glookup_in)

subsection \<open>Range loops\<close>

text \<open>
  A \<open>range\<close> loop over a map whose body changes, of the state, only what belongs to the current
  key. \<open>view b k\<close> is that part for the key \<open>k\<close>, \<open>frame b\<close> is everything no iteration changes,
  \<open>inv\<close> is the loop invariant, and \<open>pre k v\<close> is what the body needs of the entry and of the
  part of the state that belongs to it. The loop then computes the effect of the body at every
  key, whatever the order of the entries is.
\<close>

locale range_loop =
  fixes inv :: "'b \<Rightarrow> bool"
    and view :: "'b \<Rightarrow> string \<Rightarrow> 'o"
    and frame :: "'b \<Rightarrow> 'f"
    and pre :: "string \<Rightarrow> 'v \<Rightarrow> 'o \<Rightarrow> bool"
    and eff :: "string \<Rightarrow> 'v \<Rightarrow> 'o \<Rightarrow> 'o"
    and step :: "string \<Rightarrow> 'v \<Rightarrow> 'b \<Rightarrow> 'b"
  assumes step_inv: "inv b \<Longrightarrow> pre k v (view b k) \<Longrightarrow> inv (step k v b)"
    and step_view: "inv b \<Longrightarrow> pre k v (view b k) \<Longrightarrow>
      view (step k v b) k' = (if k' = k then eff k v (view b k) else view b k')"
    and step_frame: "inv b \<Longrightarrow> pre k v (view b k) \<Longrightarrow> frame (step k v b) = frame b"
begin

lemma loop:
  assumes "inv b" and "distinct (map fst l)"
    and "\<And>k v. (k, v) \<in> set l \<Longrightarrow> pre k v (view b k)"
  shows "inv (fold (\<lambda>(k, v). step k v) l b)
    \<and> frame (fold (\<lambda>(k, v). step k v) l b) = frame b
    \<and> (\<forall>k. view (fold (\<lambda>(k, v). step k v) l b) k =
          (case map_of l k of None \<Rightarrow> view b k | Some v \<Rightarrow> eff k v (view b k)))"
  using assms
proof (induction l arbitrary: b)
  case Nil
  then show ?case by simp
next
  case (Cons p l)
  obtain k v where p: "p = (k, v)" by force
  from Cons.prems p have i: "inv b" and pre: "pre k v (view b k)" by auto
  have other: "view (step k v b) k' = view b k'" if "k' \<noteq> k" for k'
    using step_view [OF i pre] that by simp
  have nk: "k \<notin> fst ` set l" and d: "distinct (map fst l)" using Cons.prems(2) p by auto
  have "pre k' v' (view (step k v b) k')" if "(k', v') \<in> set l" for k' v'
  proof -
    from that nk have "k' \<noteq> k" by force
    moreover from that Cons.prems(3) p have "pre k' v' (view b k')" by simp
    ultimately show ?thesis by (simp add: other)
  qed
  note IH = Cons.IH [OF step_inv [OF i pre] d this]
  have "map_of l k = None" using nk by (simp add: map_of_eq_None_iff)
  then show ?case
    using IH p step_view [OF i pre] step_frame [OF i pre] by (auto split: option.splits)
qed

text \<open>The same for a loop over the entries of a map.\<close>

lemma range:
  assumes "inv b" and "gwf m" and "\<forall>(k, v) \<in> set (gentries m). pre k v (view b k)"
    and "b' = fold (\<lambda>(k, v). step k v) (gentries m) b"
  shows "inv b'" and "frame b' = frame b"
    and "view b' k = (case glookup m k of None \<Rightarrow> view b k | Some v \<Rightarrow> eff k v (view b k))"
  using loop [of b "gentries m"] assms by (auto simp: gwf_def glookup_def)

end

text \<open>A loop whose body only appends to a slice.\<close>

lemma fold_append:
  assumes "\<And>k v acc. step k v acc = acc @ step k v []"
  shows "fold (\<lambda>(k, v). step k v) l acc = acc @ concat (map (\<lambda>(k, v). step k v []) l)"
proof (induction l arbitrary: acc)
  case (Cons e l)
  then show ?case using assms [of "fst e" "snd e" acc] by (cases e) simp
qed simp

text \<open>The elements a loop appends, as a multiset, do not depend on the order of the loop.\<close>

lemma mset_concat_rel:
  assumes "rel_mset R (mset xs) (mset ys)" and "\<And>x y. R x y \<Longrightarrow> mset (f x) = mset (f y)"
  shows "mset (concat (map f xs)) = mset (concat (map f ys))"
proof -
  have c: "mset (concat (map f zs)) = sum_mset (image_mset (\<lambda>z. mset (f z)) (mset zs))" for zs
    by (induction zs) simp_all
  from assms(1) obtain xs' ys' where m: "mset xs' = mset xs" "mset ys' = mset ys" and r: "list_all2 R xs' ys'"
    by (auto simp: rel_mset_def)
  from r have "map (\<lambda>z. mset (f z)) xs' = map (\<lambda>z. mset (f z)) ys'"
    by (induction rule: list_all2_induct) (simp_all add: assms(2))
  then have "image_mset (\<lambda>z. mset (f z)) (mset xs') = image_mset (\<lambda>z. mset (f z)) (mset ys')"
    by (metis mset_map)
  then show ?thesis by (simp only: c m)
qed

text \<open>
  A loop over a state that carries a sticky error: a body that leaves the error unset found it
  unset and accepted the current entry. A loop that ends without an error has accepted every
  entry.
\<close>

locale sticky_loop =
  fixes failed :: "'b \<Rightarrow> bool"
    and ok :: "string \<Rightarrow> 'v \<Rightarrow> bool"
    and step :: "string \<Rightarrow> 'v \<Rightarrow> 'b \<Rightarrow> 'b"
  assumes step_ok: "\<not> failed (step k v b) \<Longrightarrow> \<not> failed b \<and> ok k v"
begin

lemma loop_ok:
  "\<not> failed (fold (\<lambda>(k, v). step k v) l b) \<Longrightarrow> \<not> failed b \<and> (\<forall>(k, v) \<in> set l. ok k v)"
proof (induction l arbitrary: b)
  case Nil
  then show ?case by simp
next
  case (Cons p l)
  obtain k v where p: "p = (k, v)" by force
  from Cons.prems p have "\<not> failed (fold (\<lambda>(k, v). step k v) l (step k v b))" by simp
  from Cons.IH [OF this] step_ok [of k v b] p show ?case by auto
qed

end

subsection \<open>Package strings, sort, strconv and fmt\<close>

definition HasPrefix :: "string \<Rightarrow> string \<Rightarrow> bool" where
  "HasPrefix s p \<longleftrightarrow> take (length p) s = p"

definition TrimPrefix :: "string \<Rightarrow> string \<Rightarrow> string" where
  "TrimPrefix s p = (if HasPrefix s p then drop (length p) s else s)"

text \<open>\<open>strings.SplitN(s, sep, 2)\<close> for a separator of one byte.\<close>

definition SplitN2 :: "string \<Rightarrow> char \<Rightarrow> string list" where
  "SplitN2 s c = (if c \<in> set s then [takeWhile (\<lambda>x. x \<noteq> c) s, tl (dropWhile (\<lambda>x. x \<noteq> c) s)] else [s])"

fun Join :: "string list \<Rightarrow> string \<Rightarrow> string" where
  "Join [] sep = ''''"
| "Join [x] sep = x"
| "Join (x # y # xs) sep = x @ sep @ Join (y # xs) sep"

text \<open>\<open>sort.Strings\<close> orders byte strings lexicographically, the order of the library instance.\<close>

definition Strings :: "string list \<Rightarrow> string list" where
  "Strings xs = sort xs"

fun digits :: "nat \<Rightarrow> string" where
  "digits n = (if n < 10 then [char_of (48 + n)] else digits (n div 10) @ [char_of (48 + n mod 10)])"

declare digits.simps [simp del]

text \<open>The verb \<open>%d\<close>.\<close>

definition Itoa :: "int \<Rightarrow> string" where
  "Itoa i = (if i < 0 then CHR ''-'' # digits (nat (- i)) else digits (nat i))"

text \<open>The verb \<open>%v\<close> on a bool and on a slice of strings.\<close>

definition fmt_bool :: "bool \<Rightarrow> string" where
  "fmt_bool b = (if b then ''true'' else ''false'')"

definition fmt_strings :: "string list \<Rightarrow> string" where
  "fmt_strings xs = ''['' @ Join xs '' '' @ '']''"

lemma HasPrefix_append [simp]: "HasPrefix (p @ s) p"
  by (simp add: HasPrefix_def)

lemma HasPrefix_iff: "HasPrefix s p \<longleftrightarrow> (\<exists>r. s = p @ r)"
  by (metis HasPrefix_append HasPrefix_def append_take_drop_id)

lemma TrimPrefix_append [simp]: "TrimPrefix (p @ s) p = s"
  by (simp add: TrimPrefix_def)

lemma span_append:
  "c \<notin> set a \<Longrightarrow> takeWhile (\<lambda>x. x \<noteq> c) (a @ c # b) = a \<and> dropWhile (\<lambda>x. x \<noteq> c) (a @ c # b) = c # b"
  by (induction a) auto

lemma SplitN2_append: "c \<notin> set a \<Longrightarrow> SplitN2 (a @ c # b) c = [a, b]"
  using span_append [of c a b] by (simp add: SplitN2_def)

lemma SplitN2_2: "SplitN2 s c = [a, b] \<longleftrightarrow> c \<notin> set a \<and> s = a @ c # b"
proof
  assume s: "SplitN2 s c = [a, b]"
  then have "c \<in> set s" by (auto simp: SplitN2_def split: if_splits)
  then obtain a' b' where s': "s = a' @ c # b'" and "c \<notin> set a'" by (metis split_list_first)
  then have "SplitN2 s c = [a', b']" by (simp add: SplitN2_append)
  with s s' \<open>c \<notin> set a'\<close> show "c \<notin> set a \<and> s = a @ c # b" by simp
qed (simp add: SplitN2_append)

lemma SplitN2_length: "length (SplitN2 s c) = 2 \<longleftrightarrow> c \<in> set s"
  by (simp add: SplitN2_def)

lemma Strings_cong: "mset xs = mset ys \<Longrightarrow> Strings xs = Strings ys"
  unfolding Strings_def by (metis mset_sort properties_for_sort sorted_sort)

lemma Join_eq_Nil: "\<forall>x \<in> set xs. x \<noteq> '''' \<Longrightarrow> Join xs sep = '''' \<longleftrightarrow> xs = []"
  by (induction xs sep rule: Join.induct) auto

text \<open>
  The verb \<open>%q\<close>, \<open>strconv.Quote\<close>: quotes, backslashes and ASCII control bytes are escaped. Bytes
  from 128 on stand for themselves, which is what happens to the UTF-8 encoding of a printable
  character.
\<close>

definition hex_digit :: "nat \<Rightarrow> char" where
  "hex_digit n = (if n < 10 then char_of (48 + n) else char_of (87 + n))"

definition quote_char :: "char \<Rightarrow> string" where
  "quote_char c =
     (let n = of_char c :: nat in
      if n = 34 \<or> n = 92 then [CHR 0x5C, c]
      else if n = 7 then [CHR 0x5C, CHR ''a''] else if n = 8 then [CHR 0x5C, CHR ''b'']
      else if n = 9 then [CHR 0x5C, CHR ''t''] else if n = 10 then [CHR 0x5C, CHR ''n'']
      else if n = 11 then [CHR 0x5C, CHR ''v''] else if n = 12 then [CHR 0x5C, CHR ''f'']
      else if n = 13 then [CHR 0x5C, CHR ''r'']
      else if n < 32 \<or> n = 127 then [CHR 0x5C, CHR ''x'', hex_digit (n div 16), hex_digit (n mod 16)]
      else [c])"

definition Quote :: "string \<Rightarrow> string" where
  "Quote s = CHR 0x22 # concat (map quote_char s) @ [CHR 0x22]"

end
