(* ===== verification/Go_Errors.thy ===== *)
theory Go_Errors
  imports Go_Base
begin

text \<open>
  Go error values as the operator builds and inspects them. The tree \<open>goerr\<close> has one
  constructor per way the source makes an error: a package-level sentinel, \<open>errors.New\<close> or an
  error of a library (\<open>Text\<close>), \<open>fmt.Errorf\<close> with \<open>%w\<close> operands (\<open>Wrapped\<close>, the formatted text
  with the operands it unwraps to), \<open>errors.Join\<close>, the two error structs of the operator, and a
  Kubernetes API status error. \<open>errors_Is\<close>, \<open>as_APIError\<close> and \<open>as_VaultError\<close> are the
  depth-first searches of package errors. A computation that may also panic has a result of
  type \<open>'a res\<close>.
\<close>

datatype sentinel =
    ErrFivetranClientNotInitialized
  | ErrVaultClientInitializationFailed
  | ErrSchemaMismatch
  | ErrLockedColumns
  | ErrSetupTestsFailed
  | ErrConnectorValidationFailed
  | ErrConnectorSyncing
  | ErrInvalidVaultReference
  | ErrSecretDataNil
  | ErrSecretNotFound
  | ErrKeyNotFound

fun sentinel_text :: "sentinel \<Rightarrow> string" where
  "sentinel_text ErrFivetranClientNotInitialized = ''fivetran client is not initialized''"
| "sentinel_text ErrVaultClientInitializationFailed = ''failed to initialize vault client''"
| "sentinel_text ErrSchemaMismatch = ''schema mismatch detected after apply; possible configuration issue''"
| "sentinel_text ErrLockedColumns = ''CR attempts to disable locked columns''"
| "sentinel_text ErrSetupTestsFailed = ''setup tests failed''"
| "sentinel_text ErrConnectorValidationFailed = ''connector validation failed from annotation''"
| "sentinel_text ErrConnectorSyncing = ''connector is currently syncing, will retry after sync completes''"
| "sentinel_text ErrInvalidVaultReference = ''invalid vault reference format (expected format: vault:path#key)''"
| "sentinel_text ErrSecretDataNil = ''secret data is nil''"
| "sentinel_text ErrSecretNotFound = ''secret not found at path''"
| "sentinel_text ErrKeyNotFound = ''key not found in vault secret''"

record APIError =
  StatusCode :: int
  ae_Code :: string
  ae_Message :: string
  RawError :: string

datatype goerr =
    Sentinel sentinel
  | Text string
  | Wrapped string "goerr list"
  | Joined "goerr list"
  | Api APIError
  | VaultErr (ve_Err: goerr) (ve_Retryable: bool) (ve_KeyPath: string) (ve_VaultRef: string)
  | K8sStatus string string

datatype 'a res = Ok 'a | Err goerr | Panic string

definition APIError_Error :: "APIError \<Rightarrow> string" where
  "APIError_Error e =
     ''fivetran api error (status '' @ Itoa (StatusCode e) @ ''): '' @ ae_Code e @ '' - '' @ ae_Message e"

text \<open>The method \<open>Error()\<close> of every error value.\<close>

fun Error :: "goerr \<Rightarrow> string" where
  "Error (Sentinel s) = sentinel_text s"
| "Error (Text t) = t"
| "Error (Wrapped t es) = t"
| "Error (Joined es) = Join (map Error es) ''\<newline>''"
| "Error (Api e) = APIError_Error e"
| "Error (VaultErr e r kp vr) =
     (if kp \<noteq> '''' \<and> vr \<noteq> '''' then kp @ '': vault reference '' @ [CHR 0x27] @ vr @ [CHR 0x27] @ '': '' @ Error e
      else Error e)"
| "Error (K8sStatus reason msg) = msg"

text \<open>\<open>fmt.Errorf("prefix: %w", err)\<close>.\<close>

definition Errorf_w :: "string \<Rightarrow> goerr \<Rightarrow> goerr" where
  "Errorf_w prefix e = Wrapped (prefix @ Error e) [e]"

subsection \<open>Package errors\<close>

fun errors_Is :: "goerr \<Rightarrow> sentinel \<Rightarrow> bool" where
  "errors_Is (Sentinel t) s = (t = s)"
| "errors_Is (Wrapped _ es) s = list_ex (\<lambda>e. errors_Is e s) es"
| "errors_Is (Joined es) s = list_ex (\<lambda>e. errors_Is e s) es"
| "errors_Is _ s = False"

fun first_some :: "('a \<Rightarrow> 'b option) \<Rightarrow> 'a list \<Rightarrow> 'b option" where
  "first_some f [] = None"
| "first_some f (x # xs) = (case f x of None \<Rightarrow> first_some f xs | Some y \<Rightarrow> Some y)"

lemma first_some_cong [fundef_cong]:
  "xs = ys \<Longrightarrow> (\<And>x. x \<in> set ys \<Longrightarrow> f x = g x) \<Longrightarrow> first_some f xs = first_some g ys"
  by (induction xs arbitrary: ys) (auto split: option.split)

fun as_APIError :: "goerr \<Rightarrow> APIError option" where
  "as_APIError (Api e) = Some e"
| "as_APIError (Wrapped _ es) = first_some as_APIError es"
| "as_APIError (Joined es) = first_some as_APIError es"
| "as_APIError _ = None"

text \<open>A vault error as its four fields; the struct has no \<open>Unwrap\<close> method, so nothing inside it is found.\<close>

fun as_VaultError :: "goerr \<Rightarrow> goerr option" where
  "as_VaultError (VaultErr e r kp vr) = Some (VaultErr e r kp vr)"
| "as_VaultError (Wrapped _ es) = first_some as_VaultError es"
| "as_VaultError (Joined es) = first_some as_VaultError es"
| "as_VaultError _ = None"

lemma errors_Is_Errorf_w [simp]: "errors_Is (Errorf_w p e) s = errors_Is e s"
  by (simp add: Errorf_w_def)

lemma as_APIError_Errorf_w [simp]: "as_APIError (Errorf_w p e) = as_APIError e"
  by (simp add: Errorf_w_def split: option.split)

lemma as_VaultError_Errorf_w [simp]: "as_VaultError (Errorf_w p e) = as_VaultError e"
  by (simp add: Errorf_w_def split: option.split)

lemma first_some_None_iff: "first_some f xs = None \<longleftrightarrow> (\<forall>x \<in> set xs. f x = None)"
  by (induction xs) (auto split: option.splits)

lemma first_some_SomeD: "first_some f xs = Some y \<Longrightarrow> \<exists>x \<in> set xs. f x = Some y"
  by (induction xs) (auto split: option.splits)

lemma as_VaultError_is_VaultErr: "as_VaultError e = Some v \<Longrightarrow> \<exists>i r kp vr. v = VaultErr i r kp vr"
  by (induction e rule: as_VaultError.induct) (auto dest!: first_some_SomeD)

end
