(* ===== verification/Fivetran_Errors.thy ===== *)
theory Fivetran_Errors
  imports Go_Errors
begin

text \<open>
  Package fivetran, file errors.go: the conversion of the errors of the Fivetran SDK into
  \<open>APIError\<close> values and the decision which of them are worth a retry. The SDK reports an
  unexpected HTTP status only in the text of its error (\<open>statusError\<close>), and the operator reads
  the number back with \<open>fmt.Sscanf\<close> (\<open>Sscanf_status\<close>, the scanner of package fmt on that one
  format); the round trip is proved for every 64-bit status.
\<close>

record CommonResponse =
  cr_Code :: string
  cr_Message :: string

text \<open>
  What \<open>WrapFivetranError\<close> sees of its argument of type any: nil, a pointer to a
  \<open>CommonResponse\<close>, a value whose JSON encoding carries these members code and message (empty
  where the member is absent), or a value that has no JSON encoding.
\<close>

datatype anyResponse = NilResponse | CommonPtr CommonResponse | JsonValue CommonResponse | NoJson

definition extractCommonResponse :: "anyResponse \<Rightarrow> CommonResponse option" where
  "extractCommonResponse response =
     (case response of
        CommonPtr r \<Rightarrow> Some r
      | JsonValue r \<Rightarrow> (if cr_Code r \<noteq> '''' \<or> cr_Message r \<noteq> '''' then Some r else None)
      | _ \<Rightarrow> None)"

subsection \<open>The scanner of the status text\<close>

definition isSpace :: "char \<Rightarrow> bool" where
  "isSpace c \<longleftrightarrow> c \<in> {CHR '' '', CHR 0x09, CHR 0x0A, CHR 0x0B, CHR 0x0C, CHR 0x0D}"

definition isDigit :: "char \<Rightarrow> bool" where
  "isDigit c \<longleftrightarrow> 48 \<le> (of_char c :: nat) \<and> (of_char c :: nat) \<le> 57"

definition digits_value :: "string \<Rightarrow> nat" where
  "digits_value ds = foldl (\<lambda>n c. 10 * n + (of_char c - 48)) 0 ds"

text \<open>Literal text of the format must match the input exactly.\<close>

definition scan_lit :: "string \<Rightarrow> string \<Rightarrow> string option" where
  "scan_lit lit s = (if HasPrefix s lit then Some (drop (length lit) s) else None)"

text \<open>A blank of the format matches one or more blanks of the input, or its end, but no newline.\<close>

definition scan_space :: "string \<Rightarrow> string option" where
  "scan_space s =
     (case s of [] \<Rightarrow> Some []
      | c # r \<Rightarrow> if c = CHR 0x0A \<or> \<not> isSpace c then None
                else Some (dropWhile (\<lambda>x. isSpace x \<and> x \<noteq> CHR 0x0A) r))"

text \<open>The verb \<open>%d\<close> into an int: blanks, a sign, digits, and the range check of 64 bits.\<close>

definition scan_int :: "string \<Rightarrow> (int \<times> string) option" where
  "scan_int s =
     (let s1 = dropWhile (\<lambda>x. isSpace x \<and> x \<noteq> CHR 0x0A) s;
          neg = (s1 \<noteq> [] \<and> hd s1 = CHR ''-'');
          s2 = (if s1 \<noteq> [] \<and> (hd s1 = CHR ''-'' \<or> hd s1 = CHR ''+'') then tl s1 else s1);
          ds = takeWhile isDigit s2;
          i = (if neg then - int (digits_value ds) else int (digits_value ds))
      in if ds = [] \<or> i < - (2 ^ 63) \<or> 2 ^ 63 \<le> i then None else Some (i, dropWhile isDigit s2))"

definition Sscanf_status :: "string \<Rightarrow> (int \<times> int) option" where
  "Sscanf_status s =
     Option.bind (scan_lit ''status'' s) (\<lambda>s. Option.bind (scan_space s) (\<lambda>s.
     Option.bind (scan_lit ''code:'' s) (\<lambda>s. Option.bind (scan_space s) (\<lambda>s.
     Option.bind (scan_int s) (\<lambda>(code, s).
     Option.bind (scan_lit '';'' s) (\<lambda>s. Option.bind (scan_space s) (\<lambda>s.
     Option.bind (scan_lit ''expected:'' s) (\<lambda>s. Option.bind (scan_space s) (\<lambda>s.
     Option.bind (scan_int s) (\<lambda>(expected, s). Some (code, expected)))))))))))"

text \<open>The error the SDK returns when the status of the response is not the expected one.\<close>

definition statusError :: "int \<Rightarrow> int \<Rightarrow> goerr" where
  "statusError respStatus expectedStatus =
     Text (''status code: '' @ Itoa respStatus @ ''; expected: '' @ Itoa expectedStatus)"

subsection \<open>The API error\<close>

definition WrapFivetranError :: "anyResponse \<Rightarrow> goerr option \<Rightarrow> goerr option" where
  "WrapFivetranError response err =
     (case err of None \<Rightarrow> None
      | Some e \<Rightarrow>
        (let a0 = \<lparr>StatusCode = 0, ae_Code = '''', ae_Message = '''', RawError = Error e\<rparr>;
             a1 = (case Sscanf_status (Error e) of None \<Rightarrow> a0 | Some (code, _) \<Rightarrow> a0\<lparr>StatusCode := code\<rparr>);
             a2 = (if response = NilResponse then a1
                   else case extractCommonResponse response of None \<Rightarrow> a1
                        | Some r \<Rightarrow> a1\<lparr>ae_Code := cr_Code r, ae_Message := cr_Message r\<rparr>)
         in Some (Api a2)))"

definition IsRetryable :: "APIError \<Rightarrow> bool" where
  "IsRetryable e =
     (if StatusCode e = 429 then True
      else if StatusCode e = 500 \<or> StatusCode e = 502 \<or> StatusCode e = 503 \<or> StatusCode e = 504 then True
      else StatusCode e < 400 \<or> 500 \<le> StatusCode e)"

definition IsRetryableError :: "goerr \<Rightarrow> bool" where
  "IsRetryableError err = (case as_APIError err of Some apiErr \<Rightarrow> IsRetryable apiErr | None \<Rightarrow> True)"

definition AsAPIError :: "goerr \<Rightarrow> APIError option \<times> bool" where
  "AsAPIError err = (case as_APIError err of Some apiErr \<Rightarrow> (Some apiErr, True) | None \<Rightarrow> (None, False))"

subsection \<open>The contract of a retry decision\<close>

text \<open>
  Both packages that decide about retries search the error tree for their own struct and
  count an error without one as retryable; the search sees through \<open>%w\<close>.
\<close>

locale retry_class =
  fixes search :: "goerr \<Rightarrow> 'e option"
    and retryable :: "'e \<Rightarrow> bool"
    and decide :: "goerr \<Rightarrow> bool"
  assumes decide_iff: "decide e \<longleftrightarrow> (case search e of None \<Rightarrow> True | Some x \<Rightarrow> retryable x)"
    and search_wrap: "search (Errorf_w p e) = search e"
    and search_text: "search (Text t) = None"
begin

lemma decide_wrap: "decide (Errorf_w p e) = decide e"
  by (simp add: decide_iff search_wrap)

lemma decide_wraps: "decide (fold Errorf_w ps e) = decide e"
  by (induction ps arbitrary: e) (simp_all add: decide_wrap)

lemma decide_unknown: "decide (Text t)"
  by (simp add: decide_iff search_text)

end

interpretation api_retry: retry_class as_APIError IsRetryable IsRetryableError
  by unfold_locales (simp_all add: IsRetryableError_def split: option.split)

subsection \<open>The scanner reads back what the SDK prints\<close>

lemma of_char_digit [simp]: "n < 10 \<Longrightarrow> (of_char (char_of (48 + n) :: char) :: nat) = 48 + n"
  by simp

lemma isDigit_char_of [simp]: "(n :: nat) < 10 \<Longrightarrow> isDigit (char_of (48 + n))"
  by (simp add: isDigit_def)

lemma digits_not_Nil [simp]: "digits n \<noteq> []"
  by (subst digits.simps) simp

lemma digits_isDigit: "c \<in> set (digits n) \<Longrightarrow> isDigit c"
proof (induction n rule: digits.induct)
  case (1 n)
  then show ?case by (cases "n < 10") (auto simp: digits.simps [of n])
qed

lemma digits_value_digits [simp]: "digits_value (digits n) = n"
proof (induction n rule: digits.induct)
  case (1 n)
  then show ?case by (cases "n < 10") (auto simp: digits.simps [of n] digits_value_def)
qed

lemma isDigit_not_space: "isDigit c \<Longrightarrow> \<not> isSpace c"
  by (auto simp: isDigit_def isSpace_def)

lemma isDigit_not_sign: "isDigit c \<Longrightarrow> c \<noteq> CHR ''-'' \<and> c \<noteq> CHR ''+''"
  by (auto simp: isDigit_def)

lemma span_digits:
  assumes "r = [] \<or> \<not> isDigit (hd r)"
  shows "takeWhile isDigit (digits n @ r) = digits n" and "dropWhile isDigit (digits n @ r) = r"
proof -
  have "takeWhile isDigit r = []" and "dropWhile isDigit r = r"
    using assms by (cases r; simp)+
  then show "takeWhile isDigit (digits n @ r) = digits n" and "dropWhile isDigit (digits n @ r) = r"
    by (simp_all add: digits_isDigit)
qed

lemma scan_int_Itoa:
  assumes r: "r = [] \<or> \<not> isDigit (hd r)" and i: "- (2 ^ 63) \<le> i" "i < 2 ^ 63"
  shows "scan_int (Itoa i @ r) = Some (i, r)"
proof (cases "i < 0")
  case True
  have "\<not> isSpace (CHR ''-'')" by (simp add: isSpace_def)
  then show ?thesis using True i span_digits [OF r] by (simp add: scan_int_def Itoa_def Let_def)
next
  case False
  obtain c ds where d: "digits (nat i) = c # ds" by (meson digits_not_Nil neq_Nil_conv)
  then have "isDigit c" using digits_isDigit [of c "nat i"] by simp
  then have c: "\<not> isSpace c" "c \<noteq> CHR ''-''" "c \<noteq> CHR ''+''"
    by (simp_all add: isDigit_not_space isDigit_not_sign)
  have "dropWhile (\<lambda>x. isSpace x \<and> x \<noteq> CHR 0x0A) (digits (nat i) @ r) = digits (nat i) @ r"
    and "hd (digits (nat i) @ r) = c" using c by (simp_all add: d)
  then show ?thesis using False i c span_digits [OF r]
    by (simp add: scan_int_def Itoa_def Let_def)
qed

lemma scan_space_Itoa: "scan_space (CHR '' '' # Itoa i @ r) = Some (Itoa i @ r)"
proof -
  obtain c ds where d: "Itoa i = c # ds" and c: "\<not> isSpace c"
  proof (cases "i < 0")
    case True
    then show ?thesis using that by (simp add: Itoa_def isSpace_def)
  next
    case False
    obtain c ds where d: "digits (nat i) = c # ds" by (meson digits_not_Nil neq_Nil_conv)
    then have "isDigit c" using digits_isDigit [of c "nat i"] by simp
    then show ?thesis using that False d by (simp add: Itoa_def isDigit_not_space)
  qed
  then show ?thesis by (simp add: scan_space_def isSpace_def)
qed

lemma scan_lit_append [simp]: "scan_lit lit (lit @ r) = Some r"
  by (simp add: scan_lit_def)

lemma Sscanf_status_roundtrip:
  assumes "- (2 ^ 63) \<le> c" "c < 2 ^ 63" "- (2 ^ 63) \<le> e" "e < 2 ^ 63"
  shows "Sscanf_status (''status code: '' @ Itoa c @ ''; expected: '' @ Itoa e) = Some (c, e)"
proof -
  let ?r = "''; expected: '' @ Itoa e"
  have 1: "scan_lit ''status'' (''status code: '' @ Itoa c @ ?r) = Some ('' code: '' @ Itoa c @ ?r)"
    using scan_lit_append [of "''status''" "'' code: '' @ Itoa c @ ?r"] by simp
  have 2: "scan_space ('' code: '' @ Itoa c @ ?r) = Some (''code: '' @ Itoa c @ ?r)"
    by (simp add: scan_space_def isSpace_def)
  have 3: "scan_lit ''code:'' (''code: '' @ Itoa c @ ?r) = Some (CHR '' '' # Itoa c @ ?r)"
    using scan_lit_append [of "''code:''" "CHR '' '' # Itoa c @ ?r"] by simp
  have 4: "scan_int (Itoa c @ ?r) = Some (c, ?r)"
    using assms by (intro scan_int_Itoa) (auto simp: isDigit_def)
  have 5: "scan_lit '';'' ?r = Some ('' expected: '' @ Itoa e)"
    using scan_lit_append [of "'';''" "'' expected: '' @ Itoa e"] by simp
  have 6: "scan_space ('' expected: '' @ Itoa e) = Some (''expected: '' @ Itoa e)"
    by (simp add: scan_space_def isSpace_def)
  have 7: "scan_lit ''expected:'' (''expected: '' @ Itoa e) = Some (CHR '' '' # Itoa e)"
    using scan_lit_append [of "''expected:''" "CHR '' '' # Itoa e"] by simp
  have 8: "scan_int (Itoa e) = Some (e, [])"
    using assms scan_int_Itoa [of "[]" e] by simp
  have 9: "scan_space (CHR '' '' # Itoa e) = Some (Itoa e)"
    using scan_space_Itoa [of e "[]"] by simp
  show ?thesis unfolding Sscanf_status_def
    using 1 2 3 scan_space_Itoa [of c ?r] 4 5 6 7 9 8 by (simp del: append.simps)
qed

subsection \<open>Properties\<close>

lemma IsRetryable_iff: "IsRetryable e \<longleftrightarrow> StatusCode e = 429 \<or> StatusCode e < 400 \<or> 500 \<le> StatusCode e"
  by (auto simp: IsRetryable_def)

lemma WrapFivetranError_nil [simp]: "WrapFivetranError response None = None"
  by (simp add: WrapFivetranError_def)

lemma WrapFivetranError_Api:
  "WrapFivetranError response (Some err) = Some (Api \<lparr>
     StatusCode = (case Sscanf_status (Error err) of None \<Rightarrow> 0 | Some (code, _) \<Rightarrow> code),
     ae_Code = (case extractCommonResponse response of None \<Rightarrow> '''' | Some r \<Rightarrow> cr_Code r),
     ae_Message = (case extractCommonResponse response of None \<Rightarrow> '''' | Some r \<Rightarrow> cr_Message r),
     RawError = Error err\<rparr>)"
  by (auto simp: WrapFivetranError_def extractCommonResponse_def split: option.split anyResponse.split)

text \<open>C35: the HTTP status that the SDK prints into its error text comes back unchanged in the
  \<open>APIError\<close>, for every status of 64 bits, and the error is retryable exactly for 429 and for
  every status outside 400 to 499.\<close>

theorem wrap_status_roundtrip:
  assumes "- (2 ^ 63) \<le> status" "status < 2 ^ 63" "- (2 ^ 63) \<le> expected" "expected < 2 ^ 63"
  shows "\<exists>a. WrapFivetranError response (Some (statusError status expected)) = Some (Api a)
    \<and> StatusCode a = status
    \<and> (IsRetryable a \<longleftrightarrow> status = 429 \<or> status < 400 \<or> 500 \<le> status)"
  using Sscanf_status_roundtrip [OF assms]
  by (simp add: WrapFivetranError_Api statusError_def IsRetryable_iff del: append.simps)

theorem wrap_status_roundtrip_witness:
  "\<exists>a. WrapFivetranError NilResponse (Some (statusError 503 200)) = Some (Api a)
    \<and> StatusCode a = 503 \<and> IsRetryable a"
  using wrap_status_roundtrip [of 503 200 NilResponse] by auto

text \<open>C34: an error of the SDK is never lost and never escapes as an unclassified error: a nil
  error stays nil, and any other becomes an \<open>APIError\<close> that keeps the original text and carries
  the code and the message of the response whenever the response has either; if no status can
  be read from the text, the error counts as retryable, also after further wrapping.\<close>

theorem wrap_classifies:
  "WrapFivetranError response None = None \<and>
   (\<exists>a. WrapFivetranError response (Some err) = Some (Api a) \<and> RawError a = Error err
      \<and> (ae_Code a, ae_Message a) =
          (case extractCommonResponse response of None \<Rightarrow> ('''', '''') | Some r \<Rightarrow> (cr_Code r, cr_Message r))
      \<and> IsRetryableError (fold Errorf_w prefixes (Api a)) =
          (case Sscanf_status (Error err) of None \<Rightarrow> True
           | Some (code, _) \<Rightarrow> code = 429 \<or> code < 400 \<or> 500 \<le> code))"
  by (simp add: WrapFivetranError_Api api_retry.decide_wraps)
    (auto simp: WrapFivetranError_def IsRetryableError_def IsRetryable_iff split: option.split)

end
