(* ===== verification/Schema_Types.thy ===== *)
theory Schema_Types
  imports Go_Base Fivetran_Errors
begin

text \<open>
  The schema types of the vendored Fivetran SDK (package connections): the configuration
  objects the operator fills, with their setter methods, the request bodies the SDK makes of
  them, and the response of the schema endpoints. A table object is shared by the schema that
  holds it and by the builder, so a schema refers to its tables by address; columns and
  schemas have one owner and are values.
\<close>

subsection \<open>Configuration objects\<close>

record ConfigColumn =
  cc_enabled :: "bool option"
  cc_hashed :: "bool option"
  cc_isPrimaryKey :: "bool option"

record ConfigTable =
  ct_enabled :: "bool option"
  ct_syncMode :: "string option"
  ct_columns :: "ConfigColumn gomap"

type_synonym addr = nat

record ConfigSchema =
  cs_enabled :: "bool option"
  cs_tables :: "addr gomap"

definition new_column :: ConfigColumn where
  "new_column = \<lparr>cc_enabled = None, cc_hashed = None, cc_isPrimaryKey = None\<rparr>"

definition column_Enabled :: "bool \<Rightarrow> ConfigColumn \<Rightarrow> ConfigColumn" where
  "column_Enabled value c = c\<lparr>cc_enabled := Some value\<rparr>"

definition column_Hashed :: "bool \<Rightarrow> ConfigColumn \<Rightarrow> ConfigColumn" where
  "column_Hashed value c = c\<lparr>cc_hashed := Some value\<rparr>"

definition column_IsPrimaryKey :: "bool \<Rightarrow> ConfigColumn \<Rightarrow> ConfigColumn" where
  "column_IsPrimaryKey value c = c\<lparr>cc_isPrimaryKey := Some value\<rparr>"

definition new_table :: ConfigTable where
  "new_table = \<lparr>ct_enabled = None, ct_syncMode = None, ct_columns = None\<rparr>"

definition table_Enabled :: "bool \<Rightarrow> ConfigTable \<Rightarrow> ConfigTable" where
  "table_Enabled value t = t\<lparr>ct_enabled := Some value\<rparr>"

definition table_SyncMode :: "string \<Rightarrow> ConfigTable \<Rightarrow> ConfigTable" where
  "table_SyncMode value t = t\<lparr>ct_syncMode := Some value\<rparr>"

definition table_Column :: "string \<Rightarrow> ConfigColumn \<Rightarrow> ConfigTable \<Rightarrow> ConfigTable" where
  "table_Column name value t =
     (let columns = (if ct_columns t = None then gmake else ct_columns t)
      in t\<lparr>ct_columns := ginsert name value columns\<rparr>)"

definition new_schema :: ConfigSchema where
  "new_schema = \<lparr>cs_enabled = None, cs_tables = None\<rparr>"

definition schema_Enabled :: "bool \<Rightarrow> ConfigSchema \<Rightarrow> ConfigSchema" where
  "schema_Enabled value s = s\<lparr>cs_enabled := Some value\<rparr>"

definition schema_Table :: "string \<Rightarrow> addr \<Rightarrow> ConfigSchema \<Rightarrow> ConfigSchema" where
  "schema_Table name table s =
     (let tables = (if cs_tables s = None then gmake else cs_tables s)
      in s\<lparr>cs_tables := ginsert name table tables\<rparr>)"

lemmas config_defs =
  new_column_def column_Enabled_def column_Hashed_def column_IsPrimaryKey_def
  new_table_def table_Enabled_def table_SyncMode_def table_Column_def
  new_schema_def schema_Enabled_def schema_Table_def

subsection \<open>Responses\<close>

record PatchSettings =
  ps_Allowed :: "bool option"
  ps_ReasonCode :: "string option"
  ps_Reason :: "string option"

record ColumnResponse =
  colr_NameInDestination :: "string option"
  colr_Enabled :: "bool option"
  colr_Hashed :: "bool option"
  colr_IsPrimaryKey :: "bool option"
  colr_EnabledPatchSettings :: PatchSettings

record TableResponse =
  tabr_NameInDestination :: "string option"
  tabr_Enabled :: "bool option"
  tabr_SyncMode :: "string option"
  tabr_Columns :: "ColumnResponse option gomap"
  tabr_SupportsColumnsConfig :: "bool option"
  tabr_EnabledPatchSettings :: PatchSettings

record SchemaResponse =
  schr_NameInDestination :: "string option"
  schr_Enabled :: "bool option"
  schr_Tables :: "TableResponse option gomap"

record SchemaDetailsResponse =
  sdr_Common :: CommonResponse
  sdr_SchemaChangeHandling :: string
  sdr_Schemas :: "SchemaResponse option gomap"

definition tabr_wf :: "TableResponse \<Rightarrow> bool" where
  "tabr_wf t \<longleftrightarrow> gwf (tabr_Columns t)"

definition schr_wf :: "SchemaResponse \<Rightarrow> bool" where
  "schr_wf s \<longleftrightarrow> gall tabr_wf (schr_Tables s)"

definition response_wf :: "SchemaDetailsResponse \<Rightarrow> bool" where
  "response_wf r \<longleftrightarrow> gall schr_wf (sdr_Schemas r)"

end
