(* ===== verification/Api_Types.thy ===== *)
theory Api_Types
  imports Go_Base
begin

text \<open>
  The custom resource FivetranConnector, api/v1alpha1/fivetranconnector_types.go, and the parts
  of the Kubernetes object metadata the operator reads and writes. A pointer field is an
  option, a map field a Go map whose values are pointers where the source has pointers, and
  a \<open>RawExtension\<close> is its bytes (\<open>None\<close> for a nil slice). The objects are values here;
  the theory Deep_Copy has them with their pointers.
\<close>

record RawExtension =
  Raw :: "string option"

record ColumnObject =
  co_Enabled :: bool
  co_Hashed :: bool
  co_IsPrimaryKey :: bool

record TableObject =
  to_Enabled :: bool
  to_Columns :: "ColumnObject option gomap"
  to_SyncMode :: string

record SchemaObject =
  so_Enabled :: bool
  so_Tables :: "TableObject option gomap"

record ConnectorSchemaConfig =
  csc_Schemas :: "SchemaObject option gomap"
  csc_SchemaChangeHandling :: string
  csc_ValidationLevel :: string

record Connector =
  sp_GroupID :: string
  sp_Service :: string
  sp_Auth :: "RawExtension option"
  sp_Config :: "RawExtension option"
  sp_DailySyncTime :: string
  sp_SyncFrequency :: int
  sp_ScheduleType :: string
  sp_Paused :: "bool option"
  sp_RunSetupTests :: "bool option"
  sp_PauseAfterTrial :: "bool option"
  sp_TrustCertificates :: "bool option"
  sp_TrustFingerprints :: "bool option"
  sp_DataDelaySensitivity :: string
  sp_DataDelayThreshold :: int
  sp_NetworkingMethod :: string
  sp_ProxyAgentID :: string
  sp_PrivateLinkID :: string
  sp_HybridDeploymentAgentID :: string

record FivetranConnectorSpec =
  spec_Connector :: Connector
  spec_ConnectorSchemas :: "ConnectorSchemaConfig option"

text \<open>A status condition, metav1.Condition: the status is one of the texts True, False and Unknown.\<close>

record Condition =
  cond_Type :: string
  cond_Status :: string
  cond_Reason :: string
  cond_Message :: string
  cond_LastTransitionTime :: nat

record FivetranConnectorStatus =
  st_ConnectorURL :: string
  st_ConnectorID :: string
  st_Conditions :: "Condition list option"

record ObjectMeta =
  om_Name :: string
  om_Namespace :: string
  om_Generation :: int
  om_Labels :: "string gomap"
  om_Annotations :: "string gomap"
  om_Finalizers :: "string list"
  om_DeletionTimestamp :: "nat option"

record FivetranConnector =
  fc_Meta :: ObjectMeta
  fc_Spec :: FivetranConnectorSpec
  fc_Status :: FivetranConnectorStatus

text \<open>A schema configuration whose maps, at every level, hold each key once, as Go maps do.\<close>

definition table_wf :: "TableObject \<Rightarrow> bool" where
  "table_wf t \<longleftrightarrow> gwf (to_Columns t)"

definition schema_wf :: "SchemaObject \<Rightarrow> bool" where
  "schema_wf s \<longleftrightarrow> gall table_wf (so_Tables s)"

definition config_wf :: "ConnectorSchemaConfig \<Rightarrow> bool" where
  "config_wf c \<longleftrightarrow> gall schema_wf (csc_Schemas c)"

end
