(* ===== verification/Schema_Builder.thy ===== *)
theory Schema_Builder
  imports Schema_Types Api_Types
begin

text \<open>
  The type SchemaBuilder of pkg/fivetran/schema_builder.go with its operations. The builder
  keeps two indexes of the same table objects: \<open>b_schemas\<close>, what \<open>Build\<close> returns, and
  \<open>b_tables\<close>, through which \<open>AddColumn\<close> finds a table. The shared objects live in \<open>b_store\<close>, a
  table is its address there, and writing through one index is visible through the other.

  \<open>payload\<close> reads the store through \<open>b_schemas\<close>: it is the nested map that goes to the server.
  \<open>alias_inv\<close> says that the two indexes agree and no two tables share an object; under it every
  operation acts on the payload as a pointwise update of a nested map, which is the
  specification the rest of the development uses.
\<close>

subsection \<open>The builder\<close>

record SchemaBuilder =
  b_schemas :: "ConfigSchema gomap"
  b_tables :: "addr gomap gomap"
  b_schemaChangeHandling :: string
  b_err :: "goerr option"
  b_store :: "ConfigTable list"

definition NewSchemaBuilder :: SchemaBuilder where
  "NewSchemaBuilder =
     \<lparr>b_schemas = gmake, b_tables = gmake, b_schemaChangeHandling = '''', b_err = None, b_store = []\<rparr>"

definition WithSchemaChangeHandling :: "string \<Rightarrow> SchemaBuilder \<Rightarrow> SchemaBuilder" where
  "WithSchemaChangeHandling handling b =
     (if b_err b \<noteq> None then b else b\<lparr>b_schemaChangeHandling := handling\<rparr>)"

definition AddSchema :: "string \<Rightarrow> bool \<Rightarrow> SchemaBuilder \<Rightarrow> SchemaBuilder" where
  "AddSchema name enabled b =
     (if b_err b \<noteq> None then b
      else if name = '''' then b\<lparr>b_err := Some (Text ''schema name cannot be empty'')\<rparr>
      else b\<lparr>b_schemas := ginsert name (schema_Enabled enabled new_schema) (b_schemas b)\<rparr>)"

text \<open>The lookup \<open>b.tables[schema][table]\<close>: a missing schema gives the nil map.\<close>

definition table_addr :: "SchemaBuilder \<Rightarrow> string \<Rightarrow> string \<Rightarrow> addr option" where
  "table_addr b schema table = (case glookup (b_tables b) schema of None \<Rightarrow> None | Some m \<Rightarrow> glookup m table)"

definition AddTable :: "string \<Rightarrow> string \<Rightarrow> bool \<Rightarrow> string \<Rightarrow> SchemaBuilder \<Rightarrow> SchemaBuilder" where
  "AddTable schema table enabled syncMode b =
     (if b_err b \<noteq> None then b
      else if schema = '''' \<or> table = ''''
      then b\<lparr>b_err := Some (Text ''schema and table names cannot be empty'')\<rparr>
      else case glookup (b_schemas b) schema of
        None \<Rightarrow> b\<lparr>b_err := Some (Text (''schema '' @ Quote schema @ '' not found''))\<rparr>
      | Some s \<Rightarrow>
        (let t1 = table_Enabled enabled new_table;
             tableConfig = (if syncMode \<noteq> '''' then table_SyncMode syncMode t1 else t1);
             a = length (b_store b);
             s' = schema_Table table a s;
             inner = (case glookup (b_tables b) schema of None \<Rightarrow> gmake | Some m \<Rightarrow> if m = None then gmake else m)
         in b\<lparr>b_store := b_store b @ [tableConfig],
              b_schemas := ginsert schema s' (b_schemas b),
              b_tables := ginsert schema (ginsert table a inner) (b_tables b)\<rparr>))"

definition AddColumn ::
  "string \<Rightarrow> string \<Rightarrow> string \<Rightarrow> bool \<Rightarrow> bool \<Rightarrow> bool \<Rightarrow> SchemaBuilder \<Rightarrow> SchemaBuilder" where
  "AddColumn schema table column enabled hashed isPrimaryKey b =
     (if b_err b \<noteq> None then b
      else if schema = '''' \<or> table = '''' \<or> column = ''''
      then b\<lparr>b_err := Some (Text ''schema, table, and column names cannot be empty'')\<rparr>
      else case table_addr b schema table of
        None \<Rightarrow> b\<lparr>b_err := Some (Text (''table '' @ Quote table @ '' not found in schema '' @ Quote schema))\<rparr>
      | Some a \<Rightarrow>
        (let c1 = column_Enabled enabled new_column;
             c2 = (if hashed then column_Hashed hashed c1 else c1);
             columnConfig = (if isPrimaryKey then column_IsPrimaryKey isPrimaryKey c2 else c2)
         in b\<lparr>b_store := (b_store b)[a := table_Column column columnConfig (b_store b ! a)]\<rparr>))"

text \<open>The result of \<open>Build\<close>: the schemas, which still refer to the store, and the policy.\<close>

definition Build :: "SchemaBuilder \<Rightarrow> goerr + (ConfigSchema gomap \<times> string)" where
  "Build b = (case b_err b of Some e \<Rightarrow> Inl e | None \<Rightarrow> Inr (b_schemas b, b_schemaChangeHandling b))"

subsection \<open>The payload\<close>

record aTable =
  at_enabled :: "bool option"
  at_syncMode :: "string option"
  at_columns :: "string \<Rightarrow> ConfigColumn option"

record aSchema =
  as_enabled :: "bool option"
  as_tables :: "string \<Rightarrow> aTable option"

definition abs_table :: "ConfigTable \<Rightarrow> aTable" where
  "abs_table t = \<lparr>at_enabled = ct_enabled t, at_syncMode = ct_syncMode t, at_columns = glookup (ct_columns t)\<rparr>"

definition cell :: "ConfigTable list \<Rightarrow> addr \<Rightarrow> aTable option" where
  "cell st a = (if a < length st then Some (abs_table (st ! a)) else None)"

definition abs_schema :: "ConfigTable list \<Rightarrow> ConfigSchema \<Rightarrow> aSchema" where
  "abs_schema st s = \<lparr>as_enabled = cs_enabled s, as_tables = (\<lambda>t. Option.bind (glookup (cs_tables s) t) (cell st))\<rparr>"

definition payload :: "SchemaBuilder \<Rightarrow> string \<Rightarrow> aSchema option" where
  "payload b s = map_option (abs_schema (b_store b)) (glookup (b_schemas b) s)"

text \<open>The address of a table read through \<open>b_schemas\<close>.\<close>

definition schema_addr :: "SchemaBuilder \<Rightarrow> string \<Rightarrow> string \<Rightarrow> addr option" where
  "schema_addr b schema table =
     (case glookup (b_schemas b) schema of None \<Rightarrow> None | Some s \<Rightarrow> glookup (cs_tables s) table)"

definition alias_inv :: "SchemaBuilder \<Rightarrow> bool" where
  "alias_inv b \<longleftrightarrow>
     (\<forall>s t. table_addr b s t = schema_addr b s t)
     \<and> (\<forall>s t a. schema_addr b s t = Some a \<longrightarrow> a < length (b_store b))
     \<and> (\<forall>s t s' t' a. schema_addr b s t = Some a \<longrightarrow> schema_addr b s' t' = Some a \<longrightarrow> s = s' \<and> t = t')"

text \<open>The columns and tables the operations create.\<close>

definition mk_column :: "bool \<Rightarrow> bool \<Rightarrow> bool \<Rightarrow> ConfigColumn" where
  "mk_column enabled hashed pk =
     \<lparr>cc_enabled = Some enabled, cc_hashed = (if hashed then Some True else None),
      cc_isPrimaryKey = (if pk then Some True else None)\<rparr>"

definition mk_table :: "bool \<Rightarrow> string \<Rightarrow> aTable" where
  "mk_table enabled syncMode =
     \<lparr>at_enabled = Some enabled, at_syncMode = (if syncMode = '''' then None else Some syncMode),
      at_columns = Map.empty\<rparr>"

definition mk_schema :: "bool \<Rightarrow> aSchema" where
  "mk_schema enabled = \<lparr>as_enabled = Some enabled, as_tables = Map.empty\<rparr>"

subsection \<open>The operations on the payload\<close>

lemma alias_invI:
  assumes "\<And>s t. table_addr b s t = schema_addr b s t"
    and "\<And>s t a. schema_addr b s t = Some a \<Longrightarrow> a < length (b_store b)"
    and "\<And>s t s' t' a. schema_addr b s t = Some a \<Longrightarrow> schema_addr b s' t' = Some a \<Longrightarrow> s = s' \<and> t = t'"
  shows "alias_inv b"
  using assms unfolding alias_inv_def by blast

lemma alias_invD:
  assumes "alias_inv b"
  shows "table_addr b s t = schema_addr b s t"
    and "schema_addr b s t = Some a \<Longrightarrow> a < length (b_store b)"
    and "schema_addr b s t = Some a \<Longrightarrow> schema_addr b s' t' = Some a \<Longrightarrow> s = s' \<and> t = t'"
  using assms unfolding alias_inv_def by blast+

text \<open>The tables of the payload are the objects the addresses of a schema lead to.\<close>

lemma payload_table:
  assumes "payload b s = Some sc"
  shows "as_tables sc t = Option.bind (schema_addr b s t) (cell (b_store b))"
  using assms by (auto simp: payload_def abs_schema_def schema_addr_def)

lemma NewSchemaBuilder_inv [simp]: "alias_inv NewSchemaBuilder"
  by (simp add: alias_inv_def NewSchemaBuilder_def table_addr_def schema_addr_def)

lemma payload_New [simp]: "payload NewSchemaBuilder = Map.empty"
  by (rule ext) (simp add: payload_def NewSchemaBuilder_def)

lemma glookup_schema_Table [simp]:
  "glookup (cs_tables (schema_Table t a s)) t' = (if t' = t then Some a else glookup (cs_tables s) t')"
  by (simp add: schema_Table_def gomap)

lemma AddSchema_spec:
  assumes inv: "alias_inv b" and ok: "b_err b = None" "name \<noteq> []" and fresh: "payload b name = None"
  shows "alias_inv (AddSchema name enabled b)"
    and "payload (AddSchema name enabled b) = (payload b)(name \<mapsto> mk_schema enabled)"
    and "b_err (AddSchema name enabled b) = None"
    and "b_schemaChangeHandling (AddSchema name enabled b) = b_schemaChangeHandling b"
proof -
  let ?b = "AddSchema name enabled b"
  have b: "?b = b\<lparr>b_schemas := ginsert name (schema_Enabled enabled new_schema) (b_schemas b)\<rparr>"
    using ok by (simp add: AddSchema_def)
  have none: "schema_addr b name t = None" for t
    using fresh by (simp add: payload_def schema_addr_def)
  have addr: "schema_addr ?b = schema_addr b"
    using none by (auto simp: b schema_addr_def gomap config_defs fun_eq_iff)
  have "table_addr ?b = table_addr b" by (auto simp: b table_addr_def fun_eq_iff)
  moreover have "b_store ?b = b_store b" by (simp add: b)
  ultimately show "alias_inv ?b" using inv by (simp add: alias_inv_def addr)
  show "payload ?b = (payload b)(name \<mapsto> mk_schema enabled)"
    by (rule ext) (simp add: payload_def b gomap abs_schema_def mk_schema_def config_defs)
  show "b_err ?b = None" "b_schemaChangeHandling ?b = b_schemaChangeHandling b"
    using ok by (simp_all add: b)
qed

lemma cell_append: "a < length st \<Longrightarrow> cell (st @ xs) a = cell st a"
  by (simp add: cell_def nth_append)

lemma cell_new: "cell (st @ [t]) (length st) = Some (abs_table t)"
  by (simp add: cell_def)

lemma AddTable_eq:
  assumes "b_err b = None" "schema \<noteq> []" "table \<noteq> []" "glookup (b_schemas b) schema = Some s"
  shows "AddTable schema table enabled syncMode b =
    b\<lparr>b_store := b_store b @ [if syncMode \<noteq> [] then table_SyncMode syncMode (table_Enabled enabled new_table)
                               else table_Enabled enabled new_table],
      b_schemas := ginsert schema (schema_Table table (length (b_store b)) s) (b_schemas b),
      b_tables := ginsert schema (ginsert table (length (b_store b))
        (case glookup (b_tables b) schema of None \<Rightarrow> gmake | Some m \<Rightarrow> if m = None then gmake else m)) (b_tables b)\<rparr>"
  using assms by (simp add: AddTable_def Let_def)

lemma AddTable_addr:
  assumes "b_err b = None" "schema \<noteq> []" "table \<noteq> []" "glookup (b_schemas b) schema = Some s"
  shows "schema_addr (AddTable schema table enabled syncMode b) s' t' =
      (if s' = schema \<and> t' = table then Some (length (b_store b)) else schema_addr b s' t')"
    and "table_addr (AddTable schema table enabled syncMode b) s' t' =
      (if s' = schema \<and> t' = table then Some (length (b_store b)) else table_addr b s' t')"
  using assms
  by (auto simp: AddTable_eq schema_addr_def table_addr_def gomap split: option.split)

lemma AddTable_inv:
  assumes inv: "alias_inv b" and ok: "b_err b = None" "schema \<noteq> []" "table \<noteq> []"
    and s: "glookup (b_schemas b) schema = Some s"
  shows "alias_inv (AddTable schema table enabled syncMode b)"
proof (rule alias_invI)
  let ?b = "AddTable schema table enabled syncMode b" and ?a = "length (b_store b)"
  note addr = AddTable_addr [OF ok s]
  have len: "length (b_store ?b) = Suc ?a" by (simp add: AddTable_eq [OF ok s])
  have bound: "schema_addr b s' t' \<noteq> Some ?a" for s' t'
    using alias_invD(2) [OF inv, of s' t' ?a] by auto
  show "table_addr ?b s' t' = schema_addr ?b s' t'" for s' t'
    by (simp add: addr alias_invD(1) [OF inv])
  show "schema_addr ?b s' t' = Some a \<Longrightarrow> a < length (b_store ?b)" for s' t' a
    using alias_invD(2) [OF inv, of s' t' a] by (auto simp: addr len split: if_splits)
  show "schema_addr ?b s1 t1 = Some a \<Longrightarrow> schema_addr ?b s2 t2 = Some a \<Longrightarrow> s1 = s2 \<and> t1 = t2" for s1 t1 s2 t2 a
    using alias_invD(3) [OF inv, of s1 t1 a s2 t2] bound [of s1 t1] bound [of s2 t2]
    by (auto simp: addr split: if_splits)
qed

text \<open>Allocating a further object changes no schema that is already there.\<close>

lemma abs_schema_append:
  assumes "alias_inv b" and "glookup (b_schemas b) n = Some s"
  shows "abs_schema (b_store b @ xs) s = abs_schema (b_store b) s"
proof -
  have "Option.bind (glookup (cs_tables s) t) (cell (b_store b @ xs)) =
      Option.bind (glookup (cs_tables s) t) (cell (b_store b))" for t
    using alias_invD(2) [OF assms(1), of n t] assms(2)
    by (cases "glookup (cs_tables s) t") (auto simp: schema_addr_def cell_append)
  then show ?thesis by (simp add: abs_schema_def)
qed

lemma AddTable_spec:
  assumes inv: "alias_inv b" and ok: "b_err b = None" "schema \<noteq> []" "table \<noteq> []"
    and sc: "payload b schema = Some sc"
  shows "alias_inv (AddTable schema table enabled syncMode b)"
    and "payload (AddTable schema table enabled syncMode b) =
      (payload b)(schema \<mapsto> sc\<lparr>as_tables := (as_tables sc)(table \<mapsto> mk_table enabled syncMode)\<rparr>)"
    and "b_err (AddTable schema table enabled syncMode b) = None"
    and "b_schemaChangeHandling (AddTable schema table enabled syncMode b) = b_schemaChangeHandling b"
proof -
  let ?b = "AddTable schema table enabled syncMode b" and ?a = "length (b_store b)"
  from sc obtain s where s: "glookup (b_schemas b) schema = Some s" and sc': "sc = abs_schema (b_store b) s"
    by (auto simp: payload_def)
  note eq = AddTable_eq [OF ok s]
  show "alias_inv ?b" by (rule AddTable_inv [OF inv ok s])
  obtain tc where st: "b_store ?b = b_store b @ [tc]" and tc: "abs_table tc = mk_table enabled syncMode"
    by (rule that [of "if syncMode \<noteq> [] then table_SyncMode syncMode (table_Enabled enabled new_table)
          else table_Enabled enabled new_table"])
      (auto simp: eq abs_table_def mk_table_def config_defs)
  have "abs_schema (b_store ?b) (schema_Table table ?a s) =
      (abs_schema (b_store ?b) s)\<lparr>as_tables := (as_tables (abs_schema (b_store ?b) s))(table \<mapsto> mk_table enabled syncMode)\<rparr>"
    by (auto simp: abs_schema_def st cell_new tc fun_eq_iff) (simp add: schema_Table_def)
  then have new: "abs_schema (b_store ?b) (schema_Table table ?a s) =
      sc\<lparr>as_tables := (as_tables sc)(table \<mapsto> mk_table enabled syncMode)\<rparr>"
    using abs_schema_append [OF inv s, of "[tc]"] by (simp add: st sc')
  have "map_option (abs_schema (b_store ?b)) (glookup (b_schemas b) n) = payload b n" for n
    using abs_schema_append [OF inv, of n _ "[tc]"] by (cases "glookup (b_schemas b) n") (simp_all add: payload_def st)
  moreover have "glookup (b_schemas ?b) n =
      (if n = schema then Some (schema_Table table ?a s) else glookup (b_schemas b) n)" for n
    by (simp add: eq gomap)
  ultimately show "payload ?b = (payload b)(schema \<mapsto> sc\<lparr>as_tables := (as_tables sc)(table \<mapsto> mk_table enabled syncMode)\<rparr>)"
    using new by (simp add: payload_def [of ?b] fun_eq_iff)
  show "b_err ?b = None" "b_schemaChangeHandling ?b = b_schemaChangeHandling b"
    using ok by (simp_all add: eq)
qed

text \<open>Writing to a shared object changes exactly one table of the payload.\<close>

lemma store_write:
  assumes inv: "alias_inv b" and sc: "payload b schema = Some sc" and a: "schema_addr b schema table = Some a"
  shows "alias_inv (b\<lparr>b_store := (b_store b)[a := tc]\<rparr>)"
    and "payload (b\<lparr>b_store := (b_store b)[a := tc]\<rparr>) =
      (payload b)(schema \<mapsto> sc\<lparr>as_tables := (as_tables sc)(table \<mapsto> abs_table tc)\<rparr>)"
proof -
  let ?b = "b\<lparr>b_store := (b_store b)[a := tc]\<rparr>"
  have addr: "schema_addr ?b = schema_addr b" "table_addr ?b = table_addr b"
    by (auto simp: schema_addr_def table_addr_def fun_eq_iff)
  show "alias_inv ?b" using inv by (simp add: alias_inv_def addr)
  have la: "a < length (b_store b)" using alias_invD(2) [OF inv a] .
  have cell: "cell ((b_store b)[a := tc]) a' = (if a' = a then Some (abs_table tc) else cell (b_store b) a')" for a'
    using la by (simp add: cell_def)
  have step: "abs_schema ((b_store b)[a := tc]) s =
      (if n = schema then (abs_schema (b_store b) s)
          \<lparr>as_tables := (as_tables (abs_schema (b_store b) s))(table \<mapsto> abs_table tc)\<rparr>
       else abs_schema (b_store b) s)"
    if "glookup (b_schemas b) n = Some s" for n s
  proof -
    have same: "glookup (cs_tables s) t' = Some a \<longleftrightarrow> n = schema \<and> t' = table" for t'
      using alias_invD(3) [OF inv, of n t' a schema table] a that by (auto simp: schema_addr_def)
    have "Option.bind (glookup (cs_tables s) t') (cell ((b_store b)[a := tc])) =
        (if n = schema \<and> t' = table then Some (abs_table tc)
         else Option.bind (glookup (cs_tables s) t') (cell (b_store b)))" for t'
      using same [of t'] by (cases "glookup (cs_tables s) t'") (simp_all add: cell)
    then have "(\<lambda>t'. Option.bind (glookup (cs_tables s) t') (cell ((b_store b)[a := tc]))) =
        (\<lambda>t'. if n = schema \<and> t' = table then Some (abs_table tc)
         else Option.bind (glookup (cs_tables s) t') (cell (b_store b)))" by (rule ext)
    then show ?thesis by (simp add: abs_schema_def fun_upd_def)
  qed
  have "payload ?b n = ((payload b)(schema \<mapsto> sc\<lparr>as_tables := (as_tables sc)(table \<mapsto> abs_table tc)\<rparr>)) n" for n
    using step [of n] sc by (cases "glookup (b_schemas b) n") (auto simp: payload_def)
  then show "payload ?b = (payload b)(schema \<mapsto> sc\<lparr>as_tables := (as_tables sc)(table \<mapsto> abs_table tc)\<rparr>)"
    by (rule ext)
qed

lemma AddColumn_spec:
  assumes inv: "alias_inv b" and ok: "b_err b = None" "schema \<noteq> []" "table \<noteq> []" "column \<noteq> []"
    and sc: "payload b schema = Some sc" and tb: "as_tables sc table = Some tb"
  shows "alias_inv (AddColumn schema table column enabled hashed pk b)"
    and "payload (AddColumn schema table column enabled hashed pk b) =
      (payload b)(schema \<mapsto> sc\<lparr>as_tables := (as_tables sc)
        (table \<mapsto> tb\<lparr>at_columns := (at_columns tb)(column \<mapsto> mk_column enabled hashed pk)\<rparr>)\<rparr>)"
    and "b_err (AddColumn schema table column enabled hashed pk b) = None"
    and "b_schemaChangeHandling (AddColumn schema table column enabled hashed pk b) = b_schemaChangeHandling b"
proof -
  let ?b = "AddColumn schema table column enabled hashed pk b"
  from tb payload_table [OF sc, of table] obtain a
    where a: "schema_addr b schema table = Some a" and ca: "cell (b_store b) a = Some tb"
    by (auto simp: bind_eq_Some_conv)
  from ca alias_invD(2) [OF inv a] have tb': "tb = abs_table (b_store b ! a)" by (simp add: cell_def)
  let ?tc = "table_Column column (mk_column enabled hashed pk) (b_store b ! a)"
  have b: "?b = b\<lparr>b_store := (b_store b)[a := ?tc]\<rparr>"
    using ok a by (auto simp: AddColumn_def alias_invD(1) [OF inv] Let_def mk_column_def config_defs)
  have new: "abs_table ?tc = tb\<lparr>at_columns := (at_columns tb)(column \<mapsto> mk_column enabled hashed pk)\<rparr>"
    by (auto simp: tb' abs_table_def table_Column_def gomap fun_eq_iff)
  show "alias_inv ?b" unfolding b by (rule store_write(1) [OF inv sc a])
  show "payload ?b = (payload b)(schema \<mapsto> sc\<lparr>as_tables := (as_tables sc)
        (table \<mapsto> tb\<lparr>at_columns := (at_columns tb)(column \<mapsto> mk_column enabled hashed pk)\<rparr>)\<rparr>)"
    unfolding b new [symmetric] by (rule store_write(2) [OF inv sc a])
  show "b_err ?b = None" "b_schemaChangeHandling ?b = b_schemaChangeHandling b"
    using ok by (simp_all add: b)
qed

subsection \<open>The sticky error\<close>

text \<open>An operation leaves no error only if there was none and the names it was given are non-empty.\<close>

lemma AddSchema_err: "b_err (AddSchema name enabled b) = None \<Longrightarrow> b_err b = None \<and> name \<noteq> []"
  by (auto simp: AddSchema_def split: if_splits)

lemma AddTable_err: "b_err (AddTable schema table enabled syncMode b) = None \<Longrightarrow>
  b_err b = None \<and> schema \<noteq> [] \<and> table \<noteq> []"
  by (auto simp: AddTable_def split: if_splits)

lemma AddColumn_err: "b_err (AddColumn schema table column enabled hashed pk b) = None \<Longrightarrow>
  b_err b = None \<and> schema \<noteq> [] \<and> table \<noteq> [] \<and> column \<noteq> []"
  by (auto simp: AddColumn_def split: if_splits)

end
