(* ===== verification/Schema_Merge.thy ===== *)
theory Schema_Merge
  imports Schema_Builder
begin

text \<open>
  The function BuildSchemaConfig of pkg/fivetran/schema_builder.go: the payload for the server,
  computed from the custom resource alone or merged with the schema the server reports, under
  the policy schema_change_handling. The bodies of the \<open>range\<close> loops are definitions of their
  own; the locale \<open>range_loop\<close> is interpreted for each of them, from the columns of a table up to
  the schemas, and gives what the loop computes at every key.
\<close>

subsection \<open>The operations\<close>

definition policyAllowAll :: string where "policyAllowAll = ''ALLOW_ALL''"
definition policyBlockAll :: string where "policyBlockAll = ''BLOCK_ALL''"

definition isTablePatchAllowed :: "TableResponse option \<Rightarrow> bool" where
  "isTablePatchAllowed table =
     (case table of None \<Rightarrow> True
      | Some t \<Rightarrow> (case ps_Allowed (tabr_EnabledPatchSettings t) of None \<Rightarrow> True | Some allowed \<Rightarrow> allowed))"

definition isColumnPatchAllowed :: "ColumnResponse option \<Rightarrow> bool" where
  "isColumnPatchAllowed col =
     (case col of None \<Rightarrow> True
      | Some c \<Rightarrow> (case ps_Allowed (colr_EnabledPatchSettings c) of None \<Rightarrow> True | Some allowed \<Rightarrow> allowed))"

definition addColumn_body :: "string \<Rightarrow> string \<Rightarrow> string \<Rightarrow> ColumnObject option \<Rightarrow> SchemaBuilder \<Rightarrow> SchemaBuilder" where
  "addColumn_body schemaName tableName columnName column b =
     (case column of None \<Rightarrow> b
      | Some c \<Rightarrow> AddColumn schemaName tableName columnName (co_Enabled c) (co_Hashed c) (co_IsPrimaryKey c) b)"

definition addColumnsFromCR :: "string \<Rightarrow> string \<Rightarrow> ColumnObject option gomap \<Rightarrow> SchemaBuilder \<Rightarrow> SchemaBuilder" where
  "addColumnsFromCR schemaName tableName columns b =
     fold (\<lambda>(columnName, column). addColumn_body schemaName tableName columnName column) (gentries columns) b"

definition fromCR_table :: "string \<Rightarrow> string \<Rightarrow> TableObject option \<Rightarrow> SchemaBuilder \<Rightarrow> SchemaBuilder" where
  "fromCR_table schemaName tableName tableObj b =
     (case tableObj of None \<Rightarrow> b
      | Some t \<Rightarrow> addColumnsFromCR schemaName tableName (to_Columns t)
          (AddTable schemaName tableName (to_Enabled t) (to_SyncMode t) b))"

definition fromCR_schema :: "string \<Rightarrow> SchemaObject option \<Rightarrow> SchemaBuilder \<Rightarrow> SchemaBuilder" where
  "fromCR_schema schemaName schemaObj b =
     (case schemaObj of None \<Rightarrow> b
      | Some so \<Rightarrow>
        (let b1 = AddSchema schemaName (so_Enabled so) b
         in if \<not> so_Enabled so then b1
            else fold (\<lambda>(tableName, tableObj). fromCR_table schemaName tableName tableObj) (gentries (so_Tables so)) b1))"

definition fromCR :: "ConnectorSchemaConfig \<Rightarrow> SchemaBuilder \<Rightarrow> SchemaBuilder" where
  "fromCR cr b = fold (\<lambda>(schemaName, schemaObj). fromCR_schema schemaName schemaObj) (gentries (csc_Schemas cr)) b"

definition mergeColumn_body ::
  "string \<Rightarrow> string \<Rightarrow> ColumnObject option gomap \<Rightarrow> string \<Rightarrow> string \<Rightarrow> ColumnResponse option
   \<Rightarrow> SchemaBuilder \<Rightarrow> SchemaBuilder" where
  "mergeColumn_body schemaName tableName crColumns policy columnName upstreamCol b =
     (if glookup crColumns columnName \<noteq> None then b
      else if \<not> isColumnPatchAllowed upstreamCol then b
      else (let policyDefault = (policy \<noteq> policyBlockAll)
            in AddColumn schemaName tableName columnName policyDefault False False b))"

definition mergeColumns ::
  "string \<Rightarrow> string \<Rightarrow> TableResponse option \<Rightarrow> ColumnObject option gomap \<Rightarrow> string \<Rightarrow> SchemaBuilder \<Rightarrow> SchemaBuilder" where
  "mergeColumns schemaName tableName upstreamTable crColumns policy b =
     (if glen crColumns = 0 then b
      else
        (let b1 = fold (\<lambda>(columnName, column). addColumn_body schemaName tableName columnName column) (gentries crColumns) b
         in case upstreamTable of None \<Rightarrow> b1
            | Some ut \<Rightarrow> fold (\<lambda>(columnName, upstreamCol).
                mergeColumn_body schemaName tableName crColumns policy columnName upstreamCol) (gentries (tabr_Columns ut)) b1))"

definition mergeTable_body ::
  "string \<Rightarrow> TableObject option gomap \<Rightarrow> string \<Rightarrow> string \<Rightarrow> TableResponse option \<Rightarrow> SchemaBuilder \<Rightarrow> SchemaBuilder" where
  "mergeTable_body schemaName crTables policy tableName upstreamTable b =
     (case glookup crTables tableName of
        Some (Some crTableObj) \<Rightarrow>
          mergeColumns schemaName tableName upstreamTable (to_Columns crTableObj) policy
            (AddTable schemaName tableName (to_Enabled crTableObj) (to_SyncMode crTableObj) b)
      | _ \<Rightarrow> if isTablePatchAllowed upstreamTable then AddTable schemaName tableName False '''' b else b)"

definition newTable_body ::
  "string \<Rightarrow> TableResponse option gomap \<Rightarrow> string \<Rightarrow> TableObject option \<Rightarrow> SchemaBuilder \<Rightarrow> SchemaBuilder" where
  "newTable_body schemaName upstreamTables tableName crTableObj b =
     (case crTableObj of None \<Rightarrow> b
      | Some t \<Rightarrow> (if glookup upstreamTables tableName = None then fromCR_table schemaName tableName (Some t) b else b))"

definition mergeTables ::
  "string \<Rightarrow> TableResponse option gomap \<Rightarrow> TableObject option gomap \<Rightarrow> string \<Rightarrow> SchemaBuilder \<Rightarrow> SchemaBuilder" where
  "mergeTables schemaName upstreamTables crTables policy b =
     (let b1 = fold (\<lambda>(tableName, upstreamTable). mergeTable_body schemaName crTables policy tableName upstreamTable)
                 (gentries upstreamTables) b
      in fold (\<lambda>(tableName, crTableObj). newTable_body schemaName upstreamTables tableName crTableObj) (gentries crTables) b1)"

definition mergeSchema_body ::
  "ConnectorSchemaConfig \<Rightarrow> string \<Rightarrow> SchemaResponse option \<Rightarrow> SchemaBuilder \<Rightarrow> SchemaBuilder" where
  "mergeSchema_body cr schemaName upstreamSchema b =
     (case upstreamSchema of None \<Rightarrow> b
      | Some us \<Rightarrow>
        (case glookup (csc_Schemas cr) schemaName of
           Some (Some so) \<Rightarrow>
             (let b1 = AddSchema schemaName (so_Enabled so) b
              in if \<not> so_Enabled so then b1
                 else mergeTables schemaName (schr_Tables us) (so_Tables so) (csc_SchemaChangeHandling cr) b1)
         | _ \<Rightarrow> AddSchema schemaName False b))"

definition newSchema_body ::
  "SchemaResponse option gomap \<Rightarrow> string \<Rightarrow> SchemaObject option \<Rightarrow> SchemaBuilder \<Rightarrow> SchemaBuilder" where
  "newSchema_body upstreamSchemas schemaName crSchemaObj b =
     (case crSchemaObj of None \<Rightarrow> b
      | Some so \<Rightarrow> (if glookup upstreamSchemas schemaName = None then fromCR_schema schemaName (Some so) b else b))"

definition mergeWithUpstream :: "ConnectorSchemaConfig \<Rightarrow> SchemaDetailsResponse \<Rightarrow> SchemaBuilder \<Rightarrow> SchemaBuilder" where
  "mergeWithUpstream cr upstream b =
     (let b1 = fold (\<lambda>(schemaName, upstreamSchema). mergeSchema_body cr schemaName upstreamSchema)
                 (gentries (sdr_Schemas upstream)) b
      in fold (\<lambda>(schemaName, crSchemaObj). newSchema_body (sdr_Schemas upstream) schemaName crSchemaObj)
           (gentries (csc_Schemas cr)) b1)"

definition BuildSchemaConfig :: "ConnectorSchemaConfig option \<Rightarrow> SchemaDetailsResponse option \<Rightarrow> SchemaBuilder" where
  "BuildSchemaConfig cr upstream =
     (case cr of None \<Rightarrow> NewSchemaBuilder
      | Some c \<Rightarrow>
        (let policy = csc_SchemaChangeHandling c;
             builder = (if policy \<noteq> '''' then WithSchemaChangeHandling policy NewSchemaBuilder else NewSchemaBuilder)
         in case upstream of
              None \<Rightarrow> fromCR c builder
            | Some u \<Rightarrow> if policy = policyAllowAll \<or> policy = '''' then fromCR c builder
                        else mergeWithUpstream c u builder))"

subsection \<open>The specification of the payload\<close>

text \<open>What the custom resource says about a column, a table and a schema, as payload entries.\<close>

definition gview :: "('v \<Rightarrow> 'o) \<Rightarrow> 'v option gomap \<Rightarrow> string \<Rightarrow> 'o option" where
  "gview f m k = (case glookup m k of Some (Some v) \<Rightarrow> Some (f v) | _ \<Rightarrow> None)"

definition cr_column :: "ColumnObject \<Rightarrow> ConfigColumn" where
  "cr_column c = mk_column (co_Enabled c) (co_Hashed c) (co_IsPrimaryKey c)"

definition cr_table :: "TableObject \<Rightarrow> aTable" where
  "cr_table t = (mk_table (to_Enabled t) (to_SyncMode t))\<lparr>at_columns := gview cr_column (to_Columns t)\<rparr>"

definition cr_schema :: "SchemaObject \<Rightarrow> aSchema" where
  "cr_schema s = (mk_schema (so_Enabled s))\<lparr>as_tables := if so_Enabled s then gview cr_table (so_Tables s) else Map.empty\<rparr>"

text \<open>The columns of a table that both sides know: the entries of the resource, and the policy
  default for every other column of the server that may be changed.\<close>

definition merged_columns :: "string \<Rightarrow> TableResponse option \<Rightarrow> ColumnObject option gomap \<Rightarrow> string \<Rightarrow> ConfigColumn option" where
  "merged_columns policy ut crColumns c =
     (if glen crColumns = 0 then None
      else case glookup crColumns c of
        Some col \<Rightarrow> map_option cr_column col
      | None \<Rightarrow>
        (case ut of None \<Rightarrow> None
         | Some t \<Rightarrow>
           (case glookup (tabr_Columns t) c of None \<Rightarrow> None
            | Some uc \<Rightarrow> if isColumnPatchAllowed uc then Some (mk_column (policy \<noteq> policyBlockAll) False False) else None)))"

definition merged_tables ::
  "string \<Rightarrow> TableResponse option gomap \<Rightarrow> TableObject option gomap \<Rightarrow> string \<Rightarrow> aTable option" where
  "merged_tables policy upstreamTables crTables t =
     (case glookup upstreamTables t of
        None \<Rightarrow> gview cr_table crTables t
      | Some ut \<Rightarrow>
        (case glookup crTables t of
           Some (Some to) \<Rightarrow> Some ((mk_table (to_Enabled to) (to_SyncMode to))
                                \<lparr>at_columns := merged_columns policy ut (to_Columns to)\<rparr>)
         | _ \<Rightarrow> if isTablePatchAllowed ut then Some (mk_table False '''') else None))"

definition merged_schema :: "ConnectorSchemaConfig \<Rightarrow> SchemaResponse \<Rightarrow> string \<Rightarrow> aSchema" where
  "merged_schema cr us s =
     (case glookup (csc_Schemas cr) s of
        Some (Some so) \<Rightarrow>
          (mk_schema (so_Enabled so))\<lparr>as_tables :=
             if so_Enabled so
             then merged_tables (csc_SchemaChangeHandling cr) (schr_Tables us) (so_Tables so) else Map.empty\<rparr>
      | _ \<Rightarrow> mk_schema False)"

definition merged_schemas :: "ConnectorSchemaConfig \<Rightarrow> SchemaDetailsResponse \<Rightarrow> string \<Rightarrow> aSchema option" where
  "merged_schemas cr up s =
     (case glookup (sdr_Schemas up) s of
        None \<Rightarrow> gview cr_schema (csc_Schemas cr) s
      | Some us \<Rightarrow> map_option (\<lambda>u. merged_schema cr u s) us)"

definition spec_payload :: "ConnectorSchemaConfig option \<Rightarrow> SchemaDetailsResponse option \<Rightarrow> string \<Rightarrow> aSchema option" where
  "spec_payload cr up =
     (case cr of None \<Rightarrow> Map.empty
      | Some c \<Rightarrow>
        (case up of
           None \<Rightarrow> gview cr_schema (csc_Schemas c)
         | Some u \<Rightarrow> if csc_SchemaChangeHandling c = policyAllowAll \<or> csc_SchemaChangeHandling c = ''''
                     then gview cr_schema (csc_Schemas c) else merged_schemas c u))"

text \<open>
  No name that reaches the builder is empty: in the resource the names of the non-nil entries
  (below a schema only when it is enabled), in the response every name.
\<close>

definition gnamed :: "('v \<Rightarrow> bool) \<Rightarrow> 'v option gomap \<Rightarrow> bool" where
  "gnamed P m \<longleftrightarrow> list_all (\<lambda>(k, v). case v of None \<Rightarrow> True | Some x \<Rightarrow> k \<noteq> [] \<and> P x) (gentries m)"

definition table_named :: "TableObject \<Rightarrow> bool" where
  "table_named t \<longleftrightarrow> gnamed (\<lambda>_. True) (to_Columns t)"

definition schema_named :: "SchemaObject \<Rightarrow> bool" where
  "schema_named s \<longleftrightarrow> (so_Enabled s \<longrightarrow> gnamed table_named (so_Tables s))"

definition config_named :: "ConnectorSchemaConfig \<Rightarrow> bool" where
  "config_named c \<longleftrightarrow> gnamed schema_named (csc_Schemas c)"

definition gkeys_named :: "('v \<Rightarrow> bool) \<Rightarrow> 'v option gomap \<Rightarrow> bool" where
  "gkeys_named P m \<longleftrightarrow> list_all (\<lambda>(k, v). k \<noteq> [] \<and> pred_option P v) (gentries m)"

definition tabr_named :: "TableResponse \<Rightarrow> bool" where
  "tabr_named t \<longleftrightarrow> gkeys_named (\<lambda>_. True) (tabr_Columns t)"

definition schr_named :: "SchemaResponse \<Rightarrow> bool" where
  "schr_named s \<longleftrightarrow> gkeys_named tabr_named (schr_Tables s)"

definition response_named :: "SchemaDetailsResponse \<Rightarrow> bool" where
  "response_named r \<longleftrightarrow> gkeys_named schr_named (sdr_Schemas r)"

lemma gnamedD: "gnamed P m \<Longrightarrow> (k, Some v) \<in> set (gentries m) \<Longrightarrow> k \<noteq> [] \<and> P v"
  by (fastforce simp: gnamed_def list_all_iff)

lemma gkeys_namedD: "gkeys_named P m \<Longrightarrow> (k, v) \<in> set (gentries m) \<Longrightarrow> k \<noteq> [] \<and> pred_option P v"
  by (fastforce simp: gkeys_named_def list_all_iff)

subsection \<open>The loops over columns\<close>

definition col_inv :: "string \<Rightarrow> string \<Rightarrow> SchemaBuilder \<Rightarrow> bool" where
  "col_inv s t b \<longleftrightarrow> alias_inv b \<and> b_err b = None \<and> s \<noteq> [] \<and> t \<noteq> []
     \<and> (\<exists>sc tb. payload b s = Some sc \<and> as_tables sc t = Some tb)"

definition col_view :: "string \<Rightarrow> string \<Rightarrow> SchemaBuilder \<Rightarrow> string \<Rightarrow> ConfigColumn option" where
  "col_view s t b c = Option.bind (payload b s) (\<lambda>sc. Option.bind (as_tables sc t) (\<lambda>tb. at_columns tb c))"

definition col_frame :: "string \<Rightarrow> string \<Rightarrow> SchemaBuilder \<Rightarrow>
    string \<times> (string \<Rightarrow> aSchema option)
    \<times> (bool option \<times> (string \<Rightarrow> aTable option) \<times> (bool option \<times> string option) option) option" where
  "col_frame s t b = (b_schemaChangeHandling b, (payload b)(s := None),
     map_option (\<lambda>sc. (as_enabled sc, (as_tables sc)(t := None),
       map_option (\<lambda>tb. (at_enabled tb, at_syncMode tb)) (as_tables sc t))) (payload b s))"

lemma AddColumn_step:
  assumes "col_inv s t b" and "c \<noteq> []"
  shows "col_inv s t (AddColumn s t c e h pk b)"
    and "col_view s t (AddColumn s t c e h pk b) c' = (if c' = c then Some (mk_column e h pk) else col_view s t b c')"
    and "col_frame s t (AddColumn s t c e h pk b) = col_frame s t b"
proof -
  from assms(1) obtain sc tb where i: "alias_inv b" "b_err b = None" "s \<noteq> []" "t \<noteq> []"
    and sc: "payload b s = Some sc" and tb: "as_tables sc t = Some tb" by (auto simp: col_inv_def)
  note spec = AddColumn_spec [OF i assms(2) sc tb]
  show "col_inv s t (AddColumn s t c e h pk b)" using spec i by (simp add: col_inv_def)
  show "col_view s t (AddColumn s t c e h pk b) c' = (if c' = c then Some (mk_column e h pk) else col_view s t b c')"
    using spec(2) sc tb by (simp add: col_view_def)
  show "col_frame s t (AddColumn s t c e h pk b) = col_frame s t b"
    using spec(2,4) sc tb by (simp add: col_frame_def)
qed

interpretation crcols: range_loop "col_inv s t" "col_view s t" "col_frame s t"
    "\<lambda>k v _. v \<noteq> None \<longrightarrow> k \<noteq> []" "\<lambda>k v x. case v of None \<Rightarrow> x | Some c \<Rightarrow> Some (cr_column c)"
    "addColumn_body s t" for s t
  by unfold_locales (auto simp: addColumn_body_def cr_column_def AddColumn_step split: option.split)

interpretation upcols: range_loop "col_inv s t" "col_view s t" "col_frame s t"
    "\<lambda>k v _. k \<noteq> []"
    "\<lambda>k v x. if glookup cols k = None \<and> isColumnPatchAllowed v then Some (mk_column (policy \<noteq> policyBlockAll) False False) else x"
    "mergeColumn_body s t cols policy" for s t cols policy
  by unfold_locales (auto simp: mergeColumn_body_def AddColumn_step)

lemma col_assemble:
  assumes fr: "col_frame s t b' = col_frame s t b" and vw: "col_view s t b' = F"
    and sc: "payload b s = Some sc" and tb: "as_tables sc t = Some tb"
  shows "payload b' = (payload b)(s \<mapsto> sc\<lparr>as_tables := (as_tables sc)(t \<mapsto> tb\<lparr>at_columns := F\<rparr>)\<rparr>)"
proof -
  from fr sc tb obtain sc' tb' where sc': "payload b' s = Some sc'" "as_enabled sc' = as_enabled sc"
      and oth: "(as_tables sc')(t := None) = (as_tables sc)(t := None)"
      and tb': "as_tables sc' t = Some tb'" "at_enabled tb' = at_enabled tb" "at_syncMode tb' = at_syncMode tb"
    by (auto simp: col_frame_def)
  from vw sc' tb' have "at_columns tb' = F" by (auto simp: col_view_def fun_eq_iff)
  with tb' have "tb' = tb\<lparr>at_columns := F\<rparr>" by simp
  with oth tb' have "as_tables sc' = (as_tables sc)(t \<mapsto> tb\<lparr>at_columns := F\<rparr>)"
    by (metis fun_upd_triv fun_upd_upd)
  with sc' have "payload b' s = Some (sc\<lparr>as_tables := (as_tables sc)(t \<mapsto> tb\<lparr>at_columns := F\<rparr>)\<rparr>)" by simp
  moreover have "(payload b')(s := None) = (payload b)(s := None)" using fr by (simp add: col_frame_def)
  ultimately show ?thesis by (metis fun_upd_triv fun_upd_upd)
qed

text \<open>The entry of the resource, or of the policy, at every column of a table.\<close>

lemma addColumnsFromCR_loop:
  assumes i: "col_inv s t b" and wf: "gwf cols" and nm: "gnamed (\<lambda>_. True) cols"
    and empty: "col_view s t b = Map.empty"
  shows "col_inv s t (addColumnsFromCR s t cols b)"
    and "col_frame s t (addColumnsFromCR s t cols b) = col_frame s t b"
    and "col_view s t (addColumnsFromCR s t cols b) = gview cr_column cols"
proof -
  have pre: "\<forall>(k, v) \<in> set (gentries cols). v \<noteq> None \<longrightarrow> k \<noteq> []"
    using gnamedD [OF nm] by auto
  note loop = crcols.range [OF i wf pre addColumnsFromCR_def]
  show "col_inv s t (addColumnsFromCR s t cols b)"
    and "col_frame s t (addColumnsFromCR s t cols b) = col_frame s t b" by (rule loop)+
  show "col_view s t (addColumnsFromCR s t cols b) = gview cr_column cols"
    by (rule ext) (auto simp: loop(3) gview_def empty split: option.splits)
qed

lemma mergeColumns_eq:
  "mergeColumns s t ut cols policy b =
     (if glen cols = 0 then b
      else case ut of None \<Rightarrow> addColumnsFromCR s t cols b
        | Some u \<Rightarrow> fold (\<lambda>(columnName, upstreamCol). mergeColumn_body s t cols policy columnName upstreamCol)
            (gentries (tabr_Columns u)) (addColumnsFromCR s t cols b))"
  by (simp add: mergeColumns_def addColumnsFromCR_def [abs_def] Let_def cong: option.case_cong)

lemma mergeColumns_loop:
  assumes i: "col_inv s t b" and wf: "gwf cols" and nm: "gnamed (\<lambda>_. True) cols"
    and ut: "pred_option tabr_wf ut" "pred_option tabr_named ut" and empty: "col_view s t b = Map.empty"
  shows "col_inv s t (mergeColumns s t ut cols policy b)"
    and "col_frame s t (mergeColumns s t ut cols policy b) = col_frame s t b"
    and "col_view s t (mergeColumns s t ut cols policy b) = merged_columns policy ut cols"
proof -
  let ?b1 = "addColumnsFromCR s t cols b" and ?b2 = "mergeColumns s t ut cols policy b"
  note first = addColumnsFromCR_loop [OF i wf nm empty]
  consider "glen cols = 0" | "glen cols \<noteq> 0" "ut = None" | u where "glen cols \<noteq> 0" "ut = Some u"
    by (cases ut) auto
  then have "col_inv s t ?b2 \<and> col_frame s t ?b2 = col_frame s t b \<and> col_view s t ?b2 = merged_columns policy ut cols"
  proof cases
    case 1
    then show ?thesis using i empty by (simp add: mergeColumns_eq merged_columns_def fun_eq_iff)
  next
    case 2
    then show ?thesis using first
      by (auto simp: mergeColumns_eq merged_columns_def gview_def fun_eq_iff split: option.split)
  next
    case (3 u)
    then have "gwf (tabr_Columns u)" and "\<forall>(k, v) \<in> set (gentries (tabr_Columns u)). k \<noteq> []"
      and b2: "?b2 = fold (\<lambda>(columnName, upstreamCol). mergeColumn_body s t cols policy columnName upstreamCol)
        (gentries (tabr_Columns u)) ?b1"
      using ut gkeys_namedD [of "\<lambda>_. True" "tabr_Columns u"]
      by (auto simp: mergeColumns_eq tabr_wf_def tabr_named_def)
    note loop = upcols.range [OF first(1) this]
    have "col_view s t ?b2 k = merged_columns policy ut cols k" for k
      unfolding loop(3) first(3) using 3 by (auto simp: merged_columns_def gview_def split: option.splits)
    then show ?thesis using loop(1,2) first(2) by (simp add: fun_eq_iff)
  qed
  then show "col_inv s t ?b2" "col_frame s t ?b2 = col_frame s t b" "col_view s t ?b2 = merged_columns policy ut cols"
    by auto
qed

subsection \<open>The loops over tables\<close>

definition tab_inv :: "string \<Rightarrow> SchemaBuilder \<Rightarrow> bool" where
  "tab_inv s b \<longleftrightarrow> alias_inv b \<and> b_err b = None \<and> s \<noteq> [] \<and> payload b s \<noteq> None"

definition tab_view :: "string \<Rightarrow> SchemaBuilder \<Rightarrow> string \<Rightarrow> aTable option" where
  "tab_view s b t = Option.bind (payload b s) (\<lambda>sc. as_tables sc t)"

definition tab_frame :: "string \<Rightarrow> SchemaBuilder \<Rightarrow> string \<times> (string \<Rightarrow> aSchema option) \<times> bool option option" where
  "tab_frame s b = (b_schemaChangeHandling b, (payload b)(s := None), map_option as_enabled (payload b s))"

lemma AddTable_step:
  assumes "tab_inv s b" and "t \<noteq> []"
  shows "tab_inv s (AddTable s t e m b)"
    and "tab_view s (AddTable s t e m b) t' = (if t' = t then Some (mk_table e m) else tab_view s b t')"
    and "tab_frame s (AddTable s t e m b) = tab_frame s b"
    and "col_inv s t (AddTable s t e m b)"
    and "col_view s t (AddTable s t e m b) = Map.empty"
proof -
  from assms(1) obtain sc where i: "alias_inv b" "b_err b = None" "s \<noteq> []" and sc: "payload b s = Some sc"
    by (auto simp: tab_inv_def)
  note spec = AddTable_spec [OF i assms(2) sc, of e m]
  show "tab_inv s (AddTable s t e m b)" using spec i by (simp add: tab_inv_def)
  show "tab_view s (AddTable s t e m b) t' = (if t' = t then Some (mk_table e m) else tab_view s b t')"
    using spec(2) sc by (simp add: tab_view_def)
  show "tab_frame s (AddTable s t e m b) = tab_frame s b"
    using spec(2,4) sc by (simp add: tab_frame_def)
  show "col_inv s t (AddTable s t e m b)" using spec i assms(2) by (simp add: col_inv_def)
  show "col_view s t (AddTable s t e m b) = Map.empty"
    using spec(2) by (simp add: col_view_def mk_table_def fun_eq_iff)
qed

text \<open>Adding a table and then its columns adds one complete table.\<close>

lemma table_with_columns:
  assumes "tab_inv s b" and "t \<noteq> []"
    and c: "col_inv s t b'" "col_frame s t b' = col_frame s t (AddTable s t e m b)" "col_view s t b' = F"
  shows "tab_inv s b'"
    and "tab_view s b' t' = (if t' = t then Some ((mk_table e m)\<lparr>at_columns := F\<rparr>) else tab_view s b t')"
    and "tab_frame s b' = tab_frame s b"
proof -
  let ?b = "AddTable s t e m b"
  note st = AddTable_step [OF assms(1,2), of e m]
  from st(2) [of t] obtain sc where sc: "payload ?b s = Some sc" and tb: "as_tables sc t = Some (mk_table e m)"
    by (auto simp: tab_view_def bind_eq_Some_conv)
  note p = col_assemble [OF c(2,3) sc tb]
  show "tab_inv s b'" using c(1) p by (simp add: col_inv_def tab_inv_def)
  show "tab_view s b' t' = (if t' = t then Some ((mk_table e m)\<lparr>at_columns := F\<rparr>) else tab_view s b t')"
    using st(2) [of t'] sc by (simp add: tab_view_def p)
  have "tab_frame s b' = tab_frame s ?b" using c(2) sc by (simp add: tab_frame_def col_frame_def p)
  then show "tab_frame s b' = tab_frame s b" using st(3) by simp
qed

definition table_good :: "TableObject \<Rightarrow> bool" where
  "table_good t \<longleftrightarrow> table_wf t \<and> table_named t"

definition tabr_good :: "TableResponse option \<Rightarrow> bool" where
  "tabr_good ut \<longleftrightarrow> pred_option tabr_wf ut \<and> pred_option tabr_named ut"

lemma fromCR_table_step:
  assumes i: "tab_inv s b" and k: "k \<noteq> []" and t: "table_good t"
  shows "tab_inv s (fromCR_table s k (Some t) b)"
    and "tab_view s (fromCR_table s k (Some t) b) k' = (if k' = k then Some (cr_table t) else tab_view s b k')"
    and "tab_frame s (fromCR_table s k (Some t) b) = tab_frame s b"
proof -
  note a = AddTable_step [OF i k, of "to_Enabled t" "to_SyncMode t"]
  have wf: "gwf (to_Columns t)" "gnamed (\<lambda>_. True) (to_Columns t)"
    using t by (simp_all add: table_good_def table_wf_def table_named_def)
  note r = table_with_columns [OF i k addColumnsFromCR_loop [OF a(4) wf a(5)]]
  show "tab_inv s (fromCR_table s k (Some t) b)"
    and "tab_view s (fromCR_table s k (Some t) b) k' = (if k' = k then Some (cr_table t) else tab_view s b k')"
    and "tab_frame s (fromCR_table s k (Some t) b) = tab_frame s b"
    using r by (simp_all add: fromCR_table_def cr_table_def)
qed

lemma mergeTable_step:
  assumes i: "tab_inv s b" and k: "k \<noteq> []" and cr: "gall table_good crTables" and ut: "tabr_good ut"
  shows "tab_inv s (mergeTable_body s crTables policy k ut b)"
    and "tab_view s (mergeTable_body s crTables policy k ut b) k' =
      (if k' = k then (case glookup crTables k of
           Some (Some to) \<Rightarrow> Some ((mk_table (to_Enabled to) (to_SyncMode to))
                                \<lparr>at_columns := merged_columns policy ut (to_Columns to)\<rparr>)
         | _ \<Rightarrow> if isTablePatchAllowed ut then Some (mk_table False []) else tab_view s b k)
       else tab_view s b k')"
    and "tab_frame s (mergeTable_body s crTables policy k ut b) = tab_frame s b"
proof -
  let ?b = "mergeTable_body s crTables policy k ut b"
  let ?P = "\<lambda>k'. (if k' = k then (case glookup crTables k of
           Some (Some to) \<Rightarrow> Some ((mk_table (to_Enabled to) (to_SyncMode to))
                                \<lparr>at_columns := merged_columns policy ut (to_Columns to)\<rparr>)
         | _ \<Rightarrow> if isTablePatchAllowed ut then Some (mk_table False []) else tab_view s b k)
       else tab_view s b k')"
  have "tab_inv s ?b \<and> (\<forall>k'. tab_view s ?b k' = ?P k') \<and> tab_frame s ?b = tab_frame s b"
  proof (cases "\<exists>to. glookup crTables k = Some (Some to)")
    case True
    then obtain to where to: "glookup crTables k = Some (Some to)" by blast
    have "table_good to" by (rule gallD [OF cr to])
    then have wf: "gwf (to_Columns to)" "gnamed (\<lambda>_. True) (to_Columns to)"
      by (simp_all add: table_good_def table_wf_def table_named_def)
    note a = AddTable_step [OF i k, of "to_Enabled to" "to_SyncMode to"]
    have ut': "pred_option tabr_wf ut" "pred_option tabr_named ut" using ut by (simp_all add: tabr_good_def)
    note r = table_with_columns [OF i k mergeColumns_loop [OF a(4) wf ut' a(5), where policy = policy]]
    show ?thesis using r by (simp add: mergeTable_body_def to)
  next
    case False
    then have "glookup crTables k = None \<or> glookup crTables k = Some None"
      by (cases "glookup crTables k") auto
    then show ?thesis using i AddTable_step [OF i k, of False "[]"] by (auto simp: mergeTable_body_def)
  qed
  then show "tab_inv s ?b" "tab_view s ?b k' = ?P k'" "tab_frame s ?b = tab_frame s b" by auto
qed

lemma fromCR_table_None [simp]: "fromCR_table s k None b = b"
  by (simp add: fromCR_table_def)

text \<open>What the loops need of an entry of the resource: a name, and columns that can be added.\<close>

definition entry_good :: "('v \<Rightarrow> bool) \<Rightarrow> string \<Rightarrow> 'v option \<Rightarrow> bool" where
  "entry_good P k v \<longleftrightarrow> (case v of None \<Rightarrow> True | Some x \<Rightarrow> k \<noteq> [] \<and> P x)"

lemma entry_good_simps [simp]: "entry_good P k None" "entry_good P k (Some x) \<longleftrightarrow> k \<noteq> [] \<and> P x"
  by (simp_all add: entry_good_def)

lemma entries_good:
  "gnamed P m \<Longrightarrow> gall Q m \<Longrightarrow> \<forall>(k, v) \<in> set (gentries m). entry_good (\<lambda>x. Q x \<and> P x) k v"
  by (fastforce simp: gnamed_def gall_def list_all_iff entry_good_def split: option.splits)

lemma gall_entries:
  assumes "gwf m" and e: "\<forall>(k, v) \<in> set (gentries m). entry_good P k v"
  shows "gall P m"
proof -
  have "pred_option P v" if "(k, v) \<in> set (gentries m)" for k v
    using bspec [OF e that] by (cases v) simp_all
  then show ?thesis using assms(1) by (auto simp: gall_def)
qed

interpretation crtabs: range_loop "tab_inv s" "tab_view s" "tab_frame s"
    "\<lambda>k v _. entry_good table_good k v"
    "\<lambda>k v x. case v of None \<Rightarrow> x | Some t \<Rightarrow> Some (cr_table t)" "fromCR_table s" for s
proof unfold_locales
  fix b k and v :: "TableObject option" and k'
  assume i: "tab_inv s b" and "entry_good table_good k v"
  then show "tab_inv s (fromCR_table s k v b)"
    and "tab_view s (fromCR_table s k v b) k' =
      (if k' = k then case v of None \<Rightarrow> tab_view s b k | Some t \<Rightarrow> Some (cr_table t) else tab_view s b k')"
    and "tab_frame s (fromCR_table s k v b) = tab_frame s b"
    by (cases v; simp add: fromCR_table_step)+
qed

interpretation newtabs: range_loop "tab_inv s" "tab_view s" "tab_frame s"
    "\<lambda>k v _. entry_good table_good k v"
    "\<lambda>k v x. case v of None \<Rightarrow> x | Some t \<Rightarrow> if glookup up k = None then Some (cr_table t) else x"
    "newTable_body s up" for s up
proof unfold_locales
  fix b k and v :: "TableObject option" and k'
  assume i: "tab_inv s b" and "entry_good table_good k v"
  then show "tab_inv s (newTable_body s up k v b)"
    and "tab_view s (newTable_body s up k v b) k' =
      (if k' = k then case v of None \<Rightarrow> tab_view s b k
         | Some t \<Rightarrow> if glookup up k = None then Some (cr_table t) else tab_view s b k else tab_view s b k')"
    and "tab_frame s (newTable_body s up k v b) = tab_frame s b"
    by (cases v; simp add: newTable_body_def fromCR_table_step)+
qed

interpretation uptabs: range_loop "tab_inv s" "tab_view s" "tab_frame s"
    "\<lambda>k ut _. k \<noteq> [] \<and> tabr_good ut \<and> gall table_good crTables"
    "\<lambda>k ut x. case glookup crTables k of
           Some (Some to) \<Rightarrow> Some ((mk_table (to_Enabled to) (to_SyncMode to))
                                \<lparr>at_columns := merged_columns policy ut (to_Columns to)\<rparr>)
         | _ \<Rightarrow> if isTablePatchAllowed ut then Some (mk_table False []) else x"
    "mergeTable_body s crTables policy" for s crTables policy
  by unfold_locales (auto simp: mergeTable_step)

lemma tab_assemble:
  assumes fr: "tab_frame s b' = tab_frame s b" and vw: "tab_view s b' = F" and sc: "payload b s = Some sc"
  shows "payload b' = (payload b)(s \<mapsto> sc\<lparr>as_tables := F\<rparr>)"
proof -
  from fr sc obtain sc' where sc': "payload b' s = Some sc'" "as_enabled sc' = as_enabled sc"
    by (auto simp: tab_frame_def)
  with vw have "as_tables sc' = F" by (auto simp: tab_view_def fun_eq_iff)
  with sc' have "payload b' s = Some (sc\<lparr>as_tables := F\<rparr>)" by simp
  moreover have "(payload b')(s := None) = (payload b)(s := None)" using fr by (simp add: tab_frame_def)
  ultimately show ?thesis by (metis fun_upd_triv fun_upd_upd)
qed

lemma fromCR_tables_loop:
  assumes i: "tab_inv s b" and wf: "gall table_wf tabs" and nm: "gnamed table_named tabs"
    and empty: "tab_view s b = Map.empty"
    and b': "b' = fold (\<lambda>(k, v). fromCR_table s k v) (gentries tabs) b"
  shows "tab_inv s b'" and "tab_frame s b' = tab_frame s b" and "tab_view s b' = gview cr_table tabs"
proof -
  have pre: "\<forall>(k, v) \<in> set (gentries tabs). entry_good table_good k v"
    using entries_good [OF nm wf] by (simp add: table_good_def [abs_def])
  note loop = crtabs.range [OF i gall_gwf [OF wf] pre b']
  show "tab_inv s b'" and "tab_frame s b' = tab_frame s b" by (rule loop)+
  show "tab_view s b' = gview cr_table tabs"
    by (rule ext) (auto simp: loop(3) gview_def empty split: option.splits)
qed

lemma mergeTables_loop:
  assumes i: "tab_inv s b" and wf: "gall table_wf crt" and nm: "gnamed table_named crt"
    and up: "gall tabr_wf uts" "gkeys_named tabr_named uts" and empty: "tab_view s b = Map.empty"
  shows "tab_inv s (mergeTables s uts crt policy b)"
    and "tab_frame s (mergeTables s uts crt policy b) = tab_frame s b"
    and "tab_view s (mergeTables s uts crt policy b) = merged_tables policy uts crt"
proof -
  let ?b1 = "fold (\<lambda>(k, v). mergeTable_body s crt policy k v) (gentries uts) b"
  let ?b2 = "mergeTables s uts crt policy b"
  have good: "\<forall>(k, v) \<in> set (gentries crt). entry_good table_good k v"
    using entries_good [OF nm wf] by (simp add: table_good_def [abs_def])
  then have "gall table_good crt" by (rule gall_entries [OF gall_gwf [OF wf]])
  then have pre: "\<forall>(k, v) \<in> set (gentries uts). k \<noteq> [] \<and> tabr_good v \<and> gall table_good crt"
    using up by (fastforce simp: gall_def tabr_good_def dest: gkeys_namedD)
  note l1 = uptabs.range [OF i gall_gwf [OF up(1)] pre refl]
  have b2: "?b2 = fold (\<lambda>(k, v). newTable_body s uts k v) (gentries crt) ?b1"
    by (simp add: mergeTables_def)
  note l2 = newtabs.range [OF l1(1) gall_gwf [OF wf] good b2]
  show "tab_inv s ?b2" by (rule l2)
  show "tab_frame s ?b2 = tab_frame s b" using l1(2) l2(2) by simp
  show "tab_view s ?b2 = merged_tables policy uts crt"
    unfolding fun_eq_iff l2(3) l1(3)
    by (auto simp: merged_tables_def gview_def empty split: option.splits)
qed

subsection \<open>The loops over schemas\<close>

definition sch_inv :: "SchemaBuilder \<Rightarrow> bool" where
  "sch_inv b \<longleftrightarrow> alias_inv b \<and> b_err b = None"

definition schema_good :: "SchemaObject \<Rightarrow> bool" where
  "schema_good so \<longleftrightarrow> schema_wf so \<and> schema_named so"

definition schr_good :: "SchemaResponse \<Rightarrow> bool" where
  "schr_good us \<longleftrightarrow> schr_wf us \<and> schr_named us"

lemma AddSchema_step:
  assumes "sch_inv b" and "k \<noteq> []" and "payload b k = None"
  shows "sch_inv (AddSchema k e b)"
    and "payload (AddSchema k e b) = (payload b)(k \<mapsto> mk_schema e)"
    and "b_schemaChangeHandling (AddSchema k e b) = b_schemaChangeHandling b"
    and "tab_inv k (AddSchema k e b)"
    and "tab_view k (AddSchema k e b) = Map.empty"
proof -
  from assms(1) have i: "alias_inv b" "b_err b = None" by (simp_all add: sch_inv_def)
  note spec = AddSchema_spec [OF i assms(2,3), of e]
  show "sch_inv (AddSchema k e b)" using spec by (simp add: sch_inv_def)
  show "payload (AddSchema k e b) = (payload b)(k \<mapsto> mk_schema e)"
    and "b_schemaChangeHandling (AddSchema k e b) = b_schemaChangeHandling b" by (rule spec)+
  show "tab_inv k (AddSchema k e b)" using spec assms(2) by (simp add: tab_inv_def)
  show "tab_view k (AddSchema k e b) = Map.empty" using spec(2) by (simp add: tab_view_def mk_schema_def fun_eq_iff)
qed

text \<open>Adding a schema and then its tables adds one complete schema.\<close>

lemma schema_with_tables:
  assumes "sch_inv b" and "k \<noteq> []" and "payload b k = None"
    and t: "tab_inv k b'" "tab_frame k b' = tab_frame k (AddSchema k e b)" "tab_view k b' = F"
  shows "sch_inv b'"
    and "payload b' = (payload b)(k \<mapsto> (mk_schema e)\<lparr>as_tables := F\<rparr>)"
    and "b_schemaChangeHandling b' = b_schemaChangeHandling b"
proof -
  note a = AddSchema_step [OF assms(1-3), of e]
  show "sch_inv b'" using t(1) by (simp add: tab_inv_def sch_inv_def)
  show "payload b' = (payload b)(k \<mapsto> (mk_schema e)\<lparr>as_tables := F\<rparr>)"
    using tab_assemble [OF t(2,3), of "mk_schema e"] by (simp add: a)
  show "b_schemaChangeHandling b' = b_schemaChangeHandling b" using t(2) a(3) by (simp add: tab_frame_def)
qed

lemma fromCR_schema_step:
  assumes i: "sch_inv b" and k: "k \<noteq> []" and fresh: "payload b k = None" and so: "schema_good so"
  shows "sch_inv (fromCR_schema k (Some so) b)"
    and "payload (fromCR_schema k (Some so) b) = (payload b)(k \<mapsto> cr_schema so)"
    and "b_schemaChangeHandling (fromCR_schema k (Some so) b) = b_schemaChangeHandling b"
proof -
  note a = AddSchema_step [OF i k fresh, of "so_Enabled so"]
  let ?b = "fromCR_schema k (Some so) b"
  have "sch_inv ?b \<and> payload ?b = (payload b)(k \<mapsto> cr_schema so) \<and> b_schemaChangeHandling ?b = b_schemaChangeHandling b"
  proof (cases "so_Enabled so")
    case False
    then show ?thesis using a by (simp add: fromCR_schema_def cr_schema_def mk_schema_def)
  next
    case True
    then have w: "gall table_wf (so_Tables so)" "gnamed table_named (so_Tables so)"
      and b: "?b = fold (\<lambda>(t, v). fromCR_table k t v) (gentries (so_Tables so)) (AddSchema k (so_Enabled so) b)"
      using so by (simp_all add: schema_good_def schema_wf_def schema_named_def fromCR_schema_def Let_def)
    note r = schema_with_tables [OF i k fresh fromCR_tables_loop [OF a(4) w a(5) b]]
    show ?thesis using r True by (simp add: cr_schema_def)
  qed
  then show "sch_inv ?b" "payload ?b = (payload b)(k \<mapsto> cr_schema so)"
    "b_schemaChangeHandling ?b = b_schemaChangeHandling b" by auto
qed

lemma mergeSchema_step:
  assumes i: "sch_inv b" and k: "k \<noteq> []" and fresh: "payload b k = None" and us: "schr_good us"
    and cr: "gall schema_good (csc_Schemas cr)"
  shows "sch_inv (mergeSchema_body cr k (Some us) b)"
    and "payload (mergeSchema_body cr k (Some us) b) = (payload b)(k \<mapsto> merged_schema cr us k)"
    and "b_schemaChangeHandling (mergeSchema_body cr k (Some us) b) = b_schemaChangeHandling b"
proof -
  let ?b = "mergeSchema_body cr k (Some us) b"
  have "sch_inv ?b \<and> payload ?b = (payload b)(k \<mapsto> merged_schema cr us k) \<and> b_schemaChangeHandling ?b = b_schemaChangeHandling b"
  proof (cases "\<exists>so. glookup (csc_Schemas cr) k = Some (Some so)")
    case True
    then obtain so where so: "glookup (csc_Schemas cr) k = Some (Some so)" by blast
    then have g: "schema_good so" by (rule gallD [OF cr])
    note a = AddSchema_step [OF i k fresh, of "so_Enabled so"]
    show ?thesis
    proof (cases "so_Enabled so")
      case False
      then show ?thesis using a by (simp add: mergeSchema_body_def so merged_schema_def mk_schema_def)
    next
      case en: True
      then have w: "gall table_wf (so_Tables so)" "gnamed table_named (so_Tables so)"
        and u: "gall tabr_wf (schr_Tables us)" "gkeys_named tabr_named (schr_Tables us)"
        using g us by (simp_all add: schema_good_def schema_wf_def schema_named_def schr_good_def schr_wf_def schr_named_def)
      note r = schema_with_tables [OF i k fresh mergeTables_loop [OF a(4) w u a(5)]]
      show ?thesis using r en by (simp add: mergeSchema_body_def so merged_schema_def Let_def)
    qed
  next
    case False
    then have "glookup (csc_Schemas cr) k = None \<or> glookup (csc_Schemas cr) k = Some None"
      by (cases "glookup (csc_Schemas cr) k") auto
    then show ?thesis using AddSchema_step [OF i k fresh, of False] by (auto simp: mergeSchema_body_def merged_schema_def)
  qed
  then show "sch_inv ?b" "payload ?b = (payload b)(k \<mapsto> merged_schema cr us k)"
    "b_schemaChangeHandling ?b = b_schemaChangeHandling b" by auto
qed

lemma fromCR_schema_None [simp]: "fromCR_schema k None b = b"
  by (simp add: fromCR_schema_def)

lemma mergeSchema_None [simp]: "mergeSchema_body cr k None b = b"
  by (simp add: mergeSchema_body_def)

interpretation crschs: range_loop sch_inv payload b_schemaChangeHandling
    "\<lambda>k v x. entry_good schema_good k v \<and> x = None"
    "\<lambda>k v x. case v of None \<Rightarrow> x | Some so \<Rightarrow> Some (cr_schema so)" fromCR_schema
proof unfold_locales
  fix b k and v :: "SchemaObject option" and k'
  assume "sch_inv b" and "entry_good schema_good k v \<and> payload b k = None"
  then show "sch_inv (fromCR_schema k v b)"
    and "payload (fromCR_schema k v b) k' =
      (if k' = k then case v of None \<Rightarrow> payload b k | Some so \<Rightarrow> Some (cr_schema so) else payload b k')"
    and "b_schemaChangeHandling (fromCR_schema k v b) = b_schemaChangeHandling b"
    by (cases v; simp add: fromCR_schema_step)+
qed

interpretation newschs: range_loop sch_inv payload b_schemaChangeHandling
    "\<lambda>k v x. entry_good schema_good k v \<and> (glookup up k = None \<longrightarrow> x = None)"
    "\<lambda>k v x. case v of None \<Rightarrow> x | Some so \<Rightarrow> if glookup up k = None then Some (cr_schema so) else x"
    "newSchema_body up" for up
proof unfold_locales
  fix b k and v :: "SchemaObject option" and k'
  assume "sch_inv b" and "entry_good schema_good k v \<and> (glookup up k = None \<longrightarrow> payload b k = None)"
  then show "sch_inv (newSchema_body up k v b)"
    and "payload (newSchema_body up k v b) k' =
      (if k' = k then case v of None \<Rightarrow> payload b k
         | Some so \<Rightarrow> if glookup up k = None then Some (cr_schema so) else payload b k else payload b k')"
    and "b_schemaChangeHandling (newSchema_body up k v b) = b_schemaChangeHandling b"
    by (cases v; auto simp: fromCR_schema_step newSchema_body_def)+
qed

interpretation upschs: range_loop sch_inv payload b_schemaChangeHandling
    "\<lambda>k v x. entry_good schr_good k v \<and> x = None \<and> gall schema_good (csc_Schemas cr)"
    "\<lambda>k v x. case v of None \<Rightarrow> x | Some us \<Rightarrow> Some (merged_schema cr us k)"
    "mergeSchema_body cr" for cr
proof unfold_locales
  fix b k and v :: "SchemaResponse option" and k'
  assume "sch_inv b" and "entry_good schr_good k v \<and> payload b k = None \<and> gall schema_good (csc_Schemas cr)"
  then show "sch_inv (mergeSchema_body cr k v b)"
    and "payload (mergeSchema_body cr k v b) k' =
      (if k' = k then case v of None \<Rightarrow> payload b k | Some us \<Rightarrow> Some (merged_schema cr us k) else payload b k')"
    and "b_schemaChangeHandling (mergeSchema_body cr k v b) = b_schemaChangeHandling b"
    by (cases v; simp add: mergeSchema_step)+
qed

subsection \<open>The payload of BuildSchemaConfig\<close>

lemma schemas_good:
  assumes "config_wf c" and "config_named c"
  shows "\<forall>(k, v) \<in> set (gentries (csc_Schemas c)). entry_good schema_good k v" and "gwf (csc_Schemas c)"
    and "gall schema_good (csc_Schemas c)"
proof -
  show e: "\<forall>(k, v) \<in> set (gentries (csc_Schemas c)). entry_good schema_good k v"
    using entries_good [of schema_named "csc_Schemas c" schema_wf] assms
    by (simp add: config_wf_def config_named_def schema_good_def [abs_def])
  show w: "gwf (csc_Schemas c)" using assms(1) by (simp add: config_wf_def gall_gwf)
  show "gall schema_good (csc_Schemas c)" by (rule gall_entries [OF w e])
qed

lemma response_good:
  assumes "response_wf u" and "response_named u"
  shows "\<forall>(k, v) \<in> set (gentries (sdr_Schemas u)). entry_good schr_good k v" and "gwf (sdr_Schemas u)"
proof -
  show "gwf (sdr_Schemas u)" using assms(1) by (simp add: response_wf_def gall_gwf)
  have "entry_good schr_good k v" if "(k, v) \<in> set (gentries (sdr_Schemas u))" for k v
    using gkeys_namedD [OF assms(2) [unfolded response_named_def] that] assms(1) that
    by (cases v) (fastforce simp: response_wf_def gall_def schr_good_def)+
  then show "\<forall>(k, v) \<in> set (gentries (sdr_Schemas u)). entry_good schr_good k v" by auto
qed

lemma fromCR_spec:
  assumes i: "sch_inv b" and p: "payload b = Map.empty" and c: "config_wf c" "config_named c"
  shows "sch_inv (fromCR c b)" and "payload (fromCR c b) = gview cr_schema (csc_Schemas c)"
    and "b_schemaChangeHandling (fromCR c b) = b_schemaChangeHandling b"
proof -
  have "\<forall>(k, v) \<in> set (gentries (csc_Schemas c)). entry_good schema_good k v \<and> payload b k = None"
    using schemas_good(1) [OF c] by (auto simp: p)
  note loop = crschs.range [OF i schemas_good(2) [OF c] this fromCR_def]
  show "sch_inv (fromCR c b)" "b_schemaChangeHandling (fromCR c b) = b_schemaChangeHandling b" by (rule loop)+
  show "payload (fromCR c b) = gview cr_schema (csc_Schemas c)"
    by (rule ext) (auto simp: loop(3) p gview_def split: option.splits)
qed

lemma mergeWithUpstream_spec:
  assumes i: "sch_inv b" and p: "payload b = Map.empty" and c: "config_wf c" "config_named c"
    and u: "response_wf u" "response_named u"
  shows "sch_inv (mergeWithUpstream c u b)" and "payload (mergeWithUpstream c u b) = merged_schemas c u"
    and "b_schemaChangeHandling (mergeWithUpstream c u b) = b_schemaChangeHandling b"
proof -
  let ?b1 = "fold (\<lambda>(k, v). mergeSchema_body c k v) (gentries (sdr_Schemas u)) b"
  let ?b2 = "mergeWithUpstream c u b"
  have "\<forall>(k, v) \<in> set (gentries (sdr_Schemas u)).
      entry_good schr_good k v \<and> payload b k = None \<and> gall schema_good (csc_Schemas c)"
    using response_good(1) [OF u] schemas_good(3) [OF c] by (auto simp: p)
  note l1 = upschs.range [OF i response_good(2) [OF u] this refl]
  have pre: "\<forall>(k, v) \<in> set (gentries (csc_Schemas c)).
      entry_good schema_good k v \<and> (glookup (sdr_Schemas u) k = None \<longrightarrow> payload ?b1 k = None)"
    using schemas_good(1) [OF c] by (auto simp: l1(3) p)
  have b2: "?b2 = fold (\<lambda>(k, v). newSchema_body (sdr_Schemas u) k v) (gentries (csc_Schemas c)) ?b1"
    by (simp add: mergeWithUpstream_def)
  note l2 = newschs.range [OF l1(1) schemas_good(2) [OF c] pre b2]
  show "sch_inv ?b2" by (rule l2)
  show "b_schemaChangeHandling ?b2 = b_schemaChangeHandling b" using l1(2) l2(2) by simp
  show "payload ?b2 = merged_schemas c u"
    unfolding fun_eq_iff l2(3) l1(3) by (auto simp: merged_schemas_def gview_def p split: option.splits)
qed

lemma start_spec:
  "sch_inv (if policy \<noteq> [] then WithSchemaChangeHandling policy NewSchemaBuilder else NewSchemaBuilder)"
  "payload (if policy \<noteq> [] then WithSchemaChangeHandling policy NewSchemaBuilder else NewSchemaBuilder) = Map.empty"
  "b_schemaChangeHandling (if policy \<noteq> [] then WithSchemaChangeHandling policy NewSchemaBuilder else NewSchemaBuilder) = policy"
proof -
  have "payload (NewSchemaBuilder\<lparr>b_schemaChangeHandling := policy\<rparr>) = Map.empty"
    and "alias_inv (NewSchemaBuilder\<lparr>b_schemaChangeHandling := policy\<rparr>)"
    by (simp_all add: payload_def alias_inv_def table_addr_def schema_addr_def NewSchemaBuilder_def fun_eq_iff)
  then show "sch_inv (if policy \<noteq> [] then WithSchemaChangeHandling policy NewSchemaBuilder else NewSchemaBuilder)"
    "payload (if policy \<noteq> [] then WithSchemaChangeHandling policy NewSchemaBuilder else NewSchemaBuilder) = Map.empty"
    "b_schemaChangeHandling (if policy \<noteq> [] then WithSchemaChangeHandling policy NewSchemaBuilder else NewSchemaBuilder) = policy"
    by (simp_all add: sch_inv_def WithSchemaChangeHandling_def) (simp_all add: NewSchemaBuilder_def)
qed

lemma BuildSchemaConfig_correct:
  assumes c: "pred_option config_wf cr" "pred_option config_named cr"
    and u: "pred_option response_wf up" "pred_option response_named up"
  shows "sch_inv (BuildSchemaConfig cr up)" and "payload (BuildSchemaConfig cr up) = spec_payload cr up"
    and "b_schemaChangeHandling (BuildSchemaConfig cr up) = (case cr of None \<Rightarrow> [] | Some c \<Rightarrow> csc_SchemaChangeHandling c)"
proof -
  let ?b = "BuildSchemaConfig cr up"
  have "sch_inv ?b \<and> payload ?b = spec_payload cr up
    \<and> b_schemaChangeHandling ?b = (case cr of None \<Rightarrow> [] | Some c \<Rightarrow> csc_SchemaChangeHandling c)"
  proof (cases cr)
    case None
    then show ?thesis by (simp add: BuildSchemaConfig_def spec_payload_def sch_inv_def) (simp add: NewSchemaBuilder_def)
  next
    case cr: (Some c)
    define b0 where "b0 = (if csc_SchemaChangeHandling c \<noteq> [] then
      WithSchemaChangeHandling (csc_SchemaChangeHandling c) NewSchemaBuilder else NewSchemaBuilder)"
    have st: "sch_inv b0" "payload b0 = Map.empty" "b_schemaChangeHandling b0 = csc_SchemaChangeHandling c"
      unfolding b0_def by (rule start_spec)+
    have b: "?b = (case up of None \<Rightarrow> fromCR c b0
        | Some u \<Rightarrow> if csc_SchemaChangeHandling c = policyAllowAll \<or> csc_SchemaChangeHandling c = []
            then fromCR c b0 else mergeWithUpstream c u b0)"
      unfolding cr BuildSchemaConfig_def Let_def option.case b0_def by (rule refl)
    have wf: "config_wf c" "config_named c" using c by (simp_all add: cr)
    show ?thesis unfolding b
      using fromCR_spec [OF st(1,2) wf] mergeWithUpstream_spec [OF st(1,2) wf] u st(3)
      by (cases up) (simp_all add: cr spec_payload_def)
  qed
  then show "sch_inv ?b" "payload ?b = spec_payload cr up"
    "b_schemaChangeHandling ?b = (case cr of None \<Rightarrow> [] | Some c \<Rightarrow> csc_SchemaChangeHandling c)" by auto
qed

text \<open>C7: BuildSchemaConfig computes the specified payload. For every resource and every response
  of the server, with no empty names, the builder ends without an error, its two indexes agree,
  the policy of the resource is the policy that is sent, and at every schema the objects that
  \<open>Build\<close> returns are those of the specification: in greenfield mode, and under ALLOW_ALL or no
  policy, what the resource lists; otherwise the merge with the server's schema.\<close>

theorem BuildSchemaConfig_payload:
  assumes "pred_option config_wf cr" and "pred_option config_named cr"
    and "pred_option response_wf up" and "pred_option response_named up"
  shows "\<exists>schemas.
     Build (BuildSchemaConfig cr up) = Inr (schemas, case cr of None \<Rightarrow> [] | Some c \<Rightarrow> csc_SchemaChangeHandling c)
     \<and> (\<forall>s. map_option (abs_schema (b_store (BuildSchemaConfig cr up))) (glookup schemas s) = spec_payload cr up s)
     \<and> alias_inv (BuildSchemaConfig cr up)"
proof -
  note b = BuildSchemaConfig_correct [OF assms]
  then show ?thesis by (simp add: sch_inv_def Build_def payload_def fun_eq_iff)
qed

text \<open>A resource that keeps schema s with table t and hashes its column c, and a response that
  also has the tables u (changeable) and v (locked) and the schema z.\<close>

definition demo_patch :: "bool option \<Rightarrow> PatchSettings" where
  "demo_patch a = \<lparr>ps_Allowed = a, ps_ReasonCode = None, ps_Reason = None\<rparr>"

definition demo_column :: "bool option \<Rightarrow> ColumnResponse" where
  "demo_column a = \<lparr>colr_NameInDestination = None, colr_Enabled = Some True, colr_Hashed = None,
     colr_IsPrimaryKey = None, colr_EnabledPatchSettings = demo_patch a\<rparr>"

definition demo_table :: "bool option \<Rightarrow> ColumnResponse option gomap \<Rightarrow> TableResponse" where
  "demo_table a cols = \<lparr>tabr_NameInDestination = None, tabr_Enabled = Some True, tabr_SyncMode = None,
     tabr_Columns = cols, tabr_SupportsColumnsConfig = None, tabr_EnabledPatchSettings = demo_patch a\<rparr>"

definition demo_up :: SchemaDetailsResponse where
  "demo_up = \<lparr>sdr_Common = \<lparr>cr_Code = ''Success'', cr_Message = []\<rparr>, sdr_SchemaChangeHandling = ''ALLOW_ALL'',
     sdr_Schemas = Some
      [(''s'', Some \<lparr>schr_NameInDestination = None, schr_Enabled = Some True, schr_Tables = Some
          [(''t'', Some (demo_table None (Some [(''c'', Some (demo_column None)), (''id'', Some (demo_column (Some False))),
              (''x'', Some (demo_column None))]))),
           (''u'', Some (demo_table None None)), (''v'', Some (demo_table (Some False) None))]\<rparr>),
       (''z'', Some \<lparr>schr_NameInDestination = None, schr_Enabled = Some True, schr_Tables = None\<rparr>)]\<rparr>"

definition demo_cr :: ConnectorSchemaConfig where
  "demo_cr = \<lparr>csc_Schemas = Some
     [(''s'', Some \<lparr>so_Enabled = True, so_Tables = Some
        [(''t'', Some \<lparr>to_Enabled = True,
            to_Columns = Some [(''c'', Some \<lparr>co_Enabled = True, co_Hashed = True, co_IsPrimaryKey = False\<rparr>)],
            to_SyncMode = []\<rparr>)]\<rparr>)],
     csc_SchemaChangeHandling = ''BLOCK_ALL'', csc_ValidationLevel = []\<rparr>"

lemmas demo_defs = demo_cr_def demo_up_def demo_table_def demo_column_def demo_patch_def

lemma demo_ok:
  "config_wf demo_cr" "config_named demo_cr" "response_wf demo_up" "response_named demo_up"
  by (simp_all add: demo_defs config_wf_def schema_wf_def table_wf_def gall_def gwf_def config_named_def
      schema_named_def table_named_def gnamed_def response_wf_def schr_wf_def tabr_wf_def response_named_def
      schr_named_def tabr_named_def gkeys_named_def)

theorem BuildSchemaConfig_payload_witness:
  "\<exists>schemas. Build (BuildSchemaConfig (Some demo_cr) (Some demo_up)) = Inr (schemas, ''BLOCK_ALL'')
     \<and> map_option (abs_schema (b_store (BuildSchemaConfig (Some demo_cr) (Some demo_up)))) (glookup schemas ''z'')
         = Some (mk_schema False)"
proof -
  have "spec_payload (Some demo_cr) (Some demo_up) ''z'' = Some (mk_schema False)"
    and "csc_SchemaChangeHandling demo_cr = ''BLOCK_ALL''"
    by (simp_all add: spec_payload_def demo_defs policyAllowAll_def merged_schemas_def merged_schema_def glookup_def)
  then show ?thesis using BuildSchemaConfig_payload [of "Some demo_cr" "Some demo_up"] demo_ok
    by (auto simp del: map_option_eq_Some)
qed

subsection \<open>Empty names\<close>

definition failed :: "SchemaBuilder \<Rightarrow> bool" where
  "failed b \<longleftrightarrow> b_err b \<noteq> None"

lemma gnamed_entries: "\<forall>(k, v) \<in> set (gentries m). entry_good P k v \<Longrightarrow> gnamed P m"
  by (simp add: gnamed_def list_all_iff entry_good_def)

interpretation errcols: sticky_loop failed "entry_good (\<lambda>_. True)" "addColumn_body s t" for s t
  by unfold_locales (auto simp: addColumn_body_def failed_def dest: AddColumn_err split: option.splits)

lemma addColumnsFromCR_err:
  assumes "\<not> failed (addColumnsFromCR s t cols b)"
  shows "\<not> failed b \<and> gnamed (\<lambda>_. True) cols"
  using errcols.loop_ok [OF assms [unfolded addColumnsFromCR_def]] by (auto intro: gnamed_entries)

interpretation errtabs: sticky_loop failed "entry_good table_named" "fromCR_table s" for s
proof unfold_locales
  fix k and v :: "TableObject option" and b
  assume ok: "\<not> failed (fromCR_table s k v b)"
  show "\<not> failed b \<and> entry_good table_named k v"
  proof (cases v)
    case None
    then show ?thesis using ok by simp
  next
    case (Some t)
    with ok show ?thesis
      using addColumnsFromCR_err [of s k "to_Columns t"] AddTable_err [of s k "to_Enabled t" "to_SyncMode t" b]
      by (auto simp: fromCR_table_def table_named_def failed_def)
  qed
qed

interpretation errschs: sticky_loop failed "entry_good schema_named" fromCR_schema
proof unfold_locales
  fix k and v :: "SchemaObject option" and b
  assume ok: "\<not> failed (fromCR_schema k v b)"
  show "\<not> failed b \<and> entry_good schema_named k v"
  proof (cases v)
    case None
    then show ?thesis using ok by simp
  next
    case (Some so)
    have a: "\<not> failed b \<and> k \<noteq> []" if "\<not> failed (AddSchema k (so_Enabled so) b)"
      using AddSchema_err that by (simp add: failed_def)
    show ?thesis
    proof (cases "so_Enabled so")
      case False
      then show ?thesis using ok a Some by (simp add: fromCR_schema_def schema_named_def)
    next
      case True
      with ok Some have "\<not> failed (fold (\<lambda>(t, v). fromCR_table k t v) (gentries (so_Tables so)) (AddSchema k (so_Enabled so) b))"
        by (simp add: fromCR_schema_def)
      from errtabs.loop_ok [OF this] show ?thesis
        using a Some by (auto simp: schema_named_def intro: gnamed_entries)
    qed
  qed
qed

text \<open>C38: When the connector has no schema yet, BuildSchemaConfig reports an error exactly for a
  resource with an empty name that would be sent: the name of a schema, or below an enabled
  schema of a table or a column, that the resource sets to a non-nil object.\<close>

theorem BuildSchemaConfig_greenfield_error:
  assumes "config_wf c"
  shows "(\<exists>e. Build (BuildSchemaConfig (Some c) None) = Inl e) \<longleftrightarrow> \<not> config_named c"
proof -
  let ?b = "BuildSchemaConfig (Some c) None"
  have "config_named c" if "\<not> failed ?b"
  proof -
    have "\<exists>b0. ?b = fold (\<lambda>(k, v). fromCR_schema k v) (gentries (csc_Schemas c)) b0"
      by (auto simp: BuildSchemaConfig_def Let_def fromCR_def)
    then obtain b0 where "?b = fold (\<lambda>(k, v). fromCR_schema k v) (gentries (csc_Schemas c)) b0" ..
    with that errschs.loop_ok [of "gentries (csc_Schemas c)" b0] show ?thesis
      by (auto simp: config_named_def intro: gnamed_entries)
  qed
  moreover have "\<not> failed ?b" if "config_named c"
    using BuildSchemaConfig_correct(1) [of "Some c" None] assms that by (simp add: sch_inv_def failed_def)
  ultimately have "failed ?b \<longleftrightarrow> \<not> config_named c" by blast
  then show ?thesis by (auto simp: Build_def failed_def split: option.splits)
qed

definition demo_unnamed :: ConnectorSchemaConfig where
  "demo_unnamed = demo_cr\<lparr>csc_Schemas := Some [(''s'', Some \<lparr>so_Enabled = True, so_Tables = Some
     [([], Some \<lparr>to_Enabled = True, to_Columns = None, to_SyncMode = []\<rparr>)]\<rparr>)]\<rparr>"

theorem BuildSchemaConfig_greenfield_error_witness:
  "\<exists>e. Build (BuildSchemaConfig (Some demo_unnamed) None) = Inl e"
proof -
  have "config_wf demo_unnamed" and "\<not> config_named demo_unnamed"
    by (simp_all add: demo_unnamed_def config_wf_def schema_wf_def table_wf_def gall_def gwf_def config_named_def
      schema_named_def table_named_def gnamed_def)
  then show ?thesis using BuildSchemaConfig_greenfield_error by blast
qed

subsection \<open>What the merge does to objects the resource does not list\<close>

lemma gview_SomeD: "gview f m k = Some x \<Longrightarrow> \<exists>v. glookup m k = Some (Some v) \<and> x = f v"
  by (auto simp: gview_def split: option.splits)

lemma listed_table:
  "gview cr_table tabs t = Some tb \<Longrightarrow> at_enabled tb = Some True \<Longrightarrow>
     \<exists>to. glookup tabs t = Some (Some to) \<and> to_Enabled to"
  by (auto dest!: gview_SomeD simp: cr_table_def mk_table_def)

lemma merged_table_listed:
  "merged_tables p uts tabs t = Some tb \<Longrightarrow> at_enabled tb = Some True \<Longrightarrow>
     \<exists>to. glookup tabs t = Some (Some to) \<and> to_Enabled to"
  by (auto simp: merged_tables_def mk_table_def dest: listed_table split: option.split_asm if_split_asm)

text \<open>The schema s of a payload is enabled by the resource only.\<close>

definition enabled_by :: "ConnectorSchemaConfig \<Rightarrow> string \<Rightarrow> aSchema \<Rightarrow> bool" where
  "enabled_by c s sc \<longleftrightarrow> (as_enabled sc = Some True \<longrightarrow>
     (\<exists>so. glookup (csc_Schemas c) s = Some (Some so) \<and> so_Enabled so
        \<and> (\<forall>t tb. as_tables sc t = Some tb \<longrightarrow> at_enabled tb = Some True \<longrightarrow>
             (\<exists>to. glookup (so_Tables so) t = Some (Some to) \<and> to_Enabled to))))"

lemma cr_schema_listed: "gview cr_schema (csc_Schemas c) s = Some sc \<Longrightarrow> enabled_by c s sc"
  by (auto dest!: gview_SomeD simp: enabled_by_def cr_schema_def cr_table_def mk_schema_def mk_table_def)

lemma merged_schema_listed: "enabled_by c s (merged_schema c us s)"
  by (auto simp: enabled_by_def merged_schema_def mk_schema_def dest: merged_table_listed split: option.split)

lemma spec_payload_listed: "spec_payload (Some c) up s = Some sc \<Longrightarrow> enabled_by c s sc"
  by (auto simp: spec_payload_def merged_schemas_def cr_schema_listed merged_schema_listed
      split: option.split_asm if_split_asm)

text \<open>C9: The merge never enables what the resource does not list as enabled. Whatever the policy
  and the state of the server, a schema that the payload enables is an entry of
  the resource with enabled set, and so is a table that it enables below such a schema; resource and
  response have no empty and no repeated names.\<close>

theorem BuildSchemaConfig_enables_only_listed:
  assumes "config_wf c" and "config_named c" and "pred_option response_wf up" and "pred_option response_named up"
    and sc: "payload (BuildSchemaConfig (Some c) up) s = Some sc" and en: "as_enabled sc = Some True"
  shows "\<exists>so. glookup (csc_Schemas c) s = Some (Some so) \<and> so_Enabled so
    \<and> (\<forall>t tb. as_tables sc t = Some tb \<longrightarrow> at_enabled tb = Some True \<longrightarrow>
          (\<exists>to. glookup (so_Tables so) t = Some (Some to) \<and> to_Enabled to))"
proof -
  have "spec_payload (Some c) up s = Some sc"
    using BuildSchemaConfig_correct(2) [of "Some c" up] assms by simp
  from spec_payload_listed [OF this] en show ?thesis by (simp add: enabled_by_def)
qed

theorem BuildSchemaConfig_enables_only_listed_witness:
  "\<exists>sc so. payload (BuildSchemaConfig (Some demo_cr) (Some demo_up)) ''s'' = Some sc
     \<and> glookup (csc_Schemas demo_cr) ''s'' = Some (Some so) \<and> so_Enabled so
     \<and> (\<forall>t tb. as_tables sc t = Some tb \<longrightarrow> at_enabled tb = Some True \<longrightarrow> glookup (so_Tables so) t \<noteq> None)"
proof -
  have "\<exists>sc. spec_payload (Some demo_cr) (Some demo_up) ''s'' = Some sc \<and> as_enabled sc = Some True"
    by (simp add: spec_payload_def demo_defs policyAllowAll_def merged_schemas_def merged_schema_def glookup_def mk_schema_def)
  then obtain sc where "payload (BuildSchemaConfig (Some demo_cr) (Some demo_up)) ''s'' = Some sc" "as_enabled sc = Some True"
    using BuildSchemaConfig_correct(2) [of "Some demo_cr" "Some demo_up"] demo_ok by auto
  with BuildSchemaConfig_enables_only_listed [of demo_cr "Some demo_up" "''s''" sc] demo_ok show ?thesis by fastforce
qed

text \<open>Under BLOCK_ALL and ALLOW_COLUMNS the payload turns off everything the resource leaves out:
  a schema of the server the resource does not list is sent disabled; in a schema the
  resource enables, a table of the server that is not listed is sent disabled when it may be
  changed and is left out of the payload when the server has locked it.\<close>

lemma BuildSchemaConfig_unlisted:
  assumes "config_wf c" and "config_named c" and "response_wf u" and "response_named u"
    and pol: "csc_SchemaChangeHandling c \<notin> {policyAllowAll, []}"
    and us: "glookup (sdr_Schemas u) s = Some (Some us)"
  shows "(case glookup (csc_Schemas c) s of
       Some (Some so) \<Rightarrow> so_Enabled so \<longrightarrow>
         (\<exists>sc. payload (BuildSchemaConfig (Some c) (Some u)) s = Some sc
           \<and> (\<forall>t ut. glookup (schr_Tables us) t = Some ut \<longrightarrow> Option.bind (glookup (so_Tables so) t) id = None \<longrightarrow>
                as_tables sc t = (if isTablePatchAllowed ut then Some (mk_table False []) else None)))
     | _ \<Rightarrow> payload (BuildSchemaConfig (Some c) (Some u)) s = Some (mk_schema False))"
proof -
  have "payload (BuildSchemaConfig (Some c) (Some u)) = merged_schemas c u"
    using BuildSchemaConfig_correct(2) [of "Some c" "Some u"] assms by (simp add: spec_payload_def)
  then show ?thesis using us
    by (auto simp: merged_schemas_def merged_schema_def merged_tables_def split: option.splits)
qed

end
