(* ===== verification/Vault_Resolve.thy ===== *)
theory Vault_Resolve
  imports Fivetran_Errors Api_Types
begin

text \<open>
  Package pkg/fivetran/vault, file vault_ops.go: the resolution of \<open>vault:path#key\<close> references in
  the JSON configuration of a connector. The state of a call is its cache and the paths it has
  read so far, in order; the key-value store of Vault is a parameter \<open>kv\<close>, a function of the
  reads made before and of the path, so that a store that changes while a configuration is
  being resolved is covered. The JSON codec of the standard library is a parameter as well;
  what it decodes to is the type \<open>json\<close>, in which a number is its text, since the resolution
  never looks inside one.
\<close>

subsection \<open>Errors\<close>

definition VaultError_IsRetryable :: "goerr \<Rightarrow> bool" where
  "VaultError_IsRetryable e = ve_Retryable e"

definition vault_IsRetryableError :: "goerr \<Rightarrow> bool" where
  "vault_IsRetryableError err =
     (case as_VaultError err of Some vErr \<Rightarrow> VaultError_IsRetryable vErr | None \<Rightarrow> True)"

definition NewInvalidReferenceError :: "string \<Rightarrow> string \<Rightarrow> string \<Rightarrow> goerr" where
  "NewInvalidReferenceError keyPath vaultRef details =
     VaultErr (Wrapped (sentinel_text ErrInvalidVaultReference @ '': '' @ details) [Sentinel ErrInvalidVaultReference])
       False keyPath vaultRef"

definition NewKeyNotFoundError :: "string \<Rightarrow> string \<Rightarrow> string \<Rightarrow> string list \<Rightarrow> goerr" where
  "NewKeyNotFoundError keyPath key path availableKeys =
     VaultErr (Wrapped (sentinel_text ErrKeyNotFound @ '' '' @ [CHR 0x27] @ key @ [CHR 0x27] @ '' at path '' @ [CHR 0x27] @ path
         @ [CHR 0x27] @ '' (available keys: '' @ fmt_strings availableKeys @ '')'') [Sentinel ErrKeyNotFound])
       False keyPath (''vault:'' @ path @ ''#'' @ key)"

definition NewSecretNotFoundError :: "string \<Rightarrow> string \<Rightarrow> string \<Rightarrow> goerr" where
  "NewSecretNotFoundError keyPath vaultRef path =
     VaultErr (Wrapped (sentinel_text ErrSecretNotFound @ '' '' @ [CHR 0x27] @ path @ [CHR 0x27]) [Sentinel ErrSecretNotFound])
       False keyPath vaultRef"

definition NewSecretDataNilError :: "string \<Rightarrow> string \<Rightarrow> goerr" where
  "NewSecretDataNilError keyPath vaultRef = VaultErr (Sentinel ErrSecretDataNil) False keyPath vaultRef"

definition NewVaultAPIError :: "string \<Rightarrow> string \<Rightarrow> goerr \<Rightarrow> goerr" where
  "NewVaultAPIError keyPath vaultRef err =
     VaultErr (Errorf_w ''failed to read vault secret: '' err) True keyPath vaultRef"

lemmas vault_errors =
  NewInvalidReferenceError_def NewKeyNotFoundError_def NewSecretNotFoundError_def NewSecretDataNilError_def
  NewVaultAPIError_def

interpretation vault_retry: retry_class as_VaultError VaultError_IsRetryable vault_IsRetryableError
  by unfold_locales (simp_all add: vault_IsRetryableError_def split: option.split)

subsection \<open>The operations\<close>

datatype json = JNull | JBool bool | JNumber string | JString string | JArray "json list" | JObject "(string \<times> json) list"

record Secret =
  sec_Data :: "json gomap"

type_synonym kvstore = "string list \<Rightarrow> string \<Rightarrow> goerr + Secret option"

record vstate =
  vs_cache :: "(string \<times> json) list gomap"
  vs_reads :: "string list"

definition parseVaultReference :: "string \<Rightarrow> goerr + (string \<times> string)" where
  "parseVaultReference value =
     (let ref = TrimPrefix value ''vault:'';
          parts = SplitN2 ref (CHR ''#'')
      in if length parts \<noteq> 2 \<or> length (parts ! 0) = 0 \<or> length (parts ! 1) = 0
         then Inl (Wrapped (sentinel_text ErrInvalidVaultReference @ '': '' @ [CHR 0x27] @ value @ [CHR 0x27])
                    [Sentinel ErrInvalidVaultReference])
         else Inr (parts ! 0, parts ! 1))"

definition extractSecretData :: "Secret option \<Rightarrow> goerr + (string \<times> json) list" where
  "extractSecretData secret =
     (case secret of None \<Rightarrow> Inl (Sentinel ErrSecretDataNil)
      | Some s \<Rightarrow>
        (if sec_Data s = None then Inl (Sentinel ErrSecretDataNil)
         else case glookup (sec_Data s) ''data'' of
           Some (JObject data) \<Rightarrow> Inr data
         | _ \<Rightarrow> Inl (Text (''invalid KV v2 format: '' @ [CHR 0x27] @ ''data'' @ [CHR 0x27] @ '' key not found or not a map''))))"

definition buildKeyPath :: "string \<Rightarrow> string \<Rightarrow> string" where
  "buildKeyPath parent child = (if parent = '''' then child else parent @ ''.'' @ child)"

definition getKeys :: "(string \<times> json) list \<Rightarrow> string list" where
  "getKeys data = map fst data"

definition getPathData ::
  "kvstore \<Rightarrow> string \<Rightarrow> string \<Rightarrow> string \<Rightarrow> vstate \<Rightarrow> (goerr + (string \<times> json) list) \<times> vstate" where
  "getPathData kv path keyPath vaultRef st =
     (case glookup (vs_cache st) path of
        Some data \<Rightarrow> (Inr data, st)
      | None \<Rightarrow>
        (let secret = kv (vs_reads st) path;
             st1 = st\<lparr>vs_reads := vs_reads st @ [path]\<rparr>
         in case secret of
              Inl err \<Rightarrow> (Inl (NewVaultAPIError keyPath vaultRef err), st1)
            | Inr raw \<Rightarrow>
              (case extractSecretData raw of
                 Inl err \<Rightarrow> (Inl (if errors_Is err ErrSecretDataNil then NewSecretDataNilError keyPath vaultRef
                                  else NewSecretNotFoundError keyPath vaultRef path), st1)
               | Inr data \<Rightarrow> (Inr data, st1\<lparr>vs_cache := ginsert path data (vs_cache st1)\<rparr>))))"

definition resolveString :: "kvstore \<Rightarrow> string \<Rightarrow> string \<Rightarrow> vstate \<Rightarrow> (goerr + json) \<times> vstate" where
  "resolveString kv value keyPath st =
     (if \<not> HasPrefix value ''vault:'' then (Inr (JString value), st)
      else case parseVaultReference value of
        Inl err \<Rightarrow> (Inl (NewInvalidReferenceError keyPath value (Error err)), st)
      | Inr (path, key) \<Rightarrow>
        (case getPathData kv path keyPath value st of
           (Inl err, st1) \<Rightarrow> (Inl err, st1)
         | (Inr secretData, st1) \<Rightarrow>
           (case map_of secretData key of
              None \<Rightarrow> (Inl (NewKeyNotFoundError keyPath key path (getKeys secretData)), st1)
            | Some secretValue \<Rightarrow> (Inr secretValue, st1))))"

text \<open>The loops over the entries of an object and the items of an array stop at the first error.\<close>

fun resolveValue :: "kvstore \<Rightarrow> json \<Rightarrow> string \<Rightarrow> vstate \<Rightarrow> (goerr + json) \<times> vstate"
  and resolveMap :: "kvstore \<Rightarrow> (string \<times> json) list \<Rightarrow> string \<Rightarrow> (string \<times> json) list \<Rightarrow> vstate
        \<Rightarrow> (goerr + (string \<times> json) list) \<times> vstate"
  and resolveSlice :: "kvstore \<Rightarrow> json list \<Rightarrow> string \<Rightarrow> nat \<Rightarrow> json list \<Rightarrow> vstate
        \<Rightarrow> (goerr + json list) \<times> vstate" where
  "resolveValue kv (JObject m) keyPath st =
     (case resolveMap kv m keyPath [] st of (Inl e, st1) \<Rightarrow> (Inl e, st1) | (Inr r, st1) \<Rightarrow> (Inr (JObject r), st1))"
| "resolveValue kv (JArray xs) keyPath st =
     (case resolveSlice kv xs keyPath 0 [] st of (Inl e, st1) \<Rightarrow> (Inl e, st1) | (Inr r, st1) \<Rightarrow> (Inr (JArray r), st1))"
| "resolveValue kv (JString v) keyPath st = resolveString kv v keyPath st"
| "resolveValue kv JNull keyPath st = (Inr JNull, st)"
| "resolveValue kv (JBool b) keyPath st = (Inr (JBool b), st)"
| "resolveValue kv (JNumber n) keyPath st = (Inr (JNumber n), st)"
| "resolveMap kv [] keyPath result st = (Inr result, st)"
| "resolveMap kv ((key, value) # m) keyPath result st =
     (case resolveValue kv value (buildKeyPath keyPath key) st of
        (Inl e, st1) \<Rightarrow> (Inl e, st1)
      | (Inr v, st1) \<Rightarrow> resolveMap kv m keyPath (AList.update key v result) st1)"
| "resolveSlice kv [] keyPath i result st = (Inr result, st)"
| "resolveSlice kv (item # xs) keyPath i result st =
     (case resolveValue kv item (keyPath @ ''['' @ Itoa (int i) @ '']'') st of
        (Inl e, st1) \<Rightarrow> (Inl e, st1)
      | (Inr v, st1) \<Rightarrow> resolveSlice kv xs keyPath (Suc i) (result @ [v]) st1)"

text \<open>The codec of encoding/json: \<open>Unmarshal\<close> and \<open>Marshal\<close>.\<close>

record codec =
  Unmarshal :: "string \<Rightarrow> goerr + json"
  Marshal :: "json \<Rightarrow> goerr + string"

text \<open>The result is the error and the new contents of \<open>rawConfig\<close>, which changes on success only.\<close>

definition ResolveSecrets ::
  "codec \<Rightarrow> kvstore \<Rightarrow> RawExtension option \<Rightarrow> string list \<Rightarrow> goerr option \<times> RawExtension option \<times> string list" where
  "ResolveSecrets cd kv rawConfig reads =
     (case Option.bind rawConfig Raw of
        None \<Rightarrow> (None, rawConfig, reads)
      | Some raw \<Rightarrow>
        (case Unmarshal cd raw of
           Inl err \<Rightarrow> (Some (Errorf_w ''ResolveSecrets: failed to unmarshal config: '' err), rawConfig, reads)
         | Inr data \<Rightarrow>
           (case resolveValue kv data '''' \<lparr>vs_cache = gmake, vs_reads = reads\<rparr> of
              (Inl err, st) \<Rightarrow> (Some err, rawConfig, vs_reads st)
            | (Inr resolvedData, st) \<Rightarrow>
              (case Marshal cd resolvedData of
                 Inl err \<Rightarrow> (Some (Errorf_w ''ResolveSecrets: failed to marshal resolved config: '' err), rawConfig, vs_reads st)
               | Inr updatedConfig \<Rightarrow> (None, Some \<lparr>Raw = Some updatedConfig\<rparr>, vs_reads st)))))"

subsection \<open>References\<close>

lemma parseVaultReference_iff:
  "parseVaultReference value = Inr (path, key) \<longleftrightarrow>
     path \<noteq> [] \<and> CHR ''#'' \<notin> set path \<and> key \<noteq> [] \<and> TrimPrefix value ''vault:'' = path @ ''#'' @ key"
proof -
  let ?ref = "TrimPrefix value ''vault:''"
  have "length (SplitN2 ?ref (CHR ''#'')) = 2 \<and> SplitN2 ?ref (CHR ''#'') ! 0 = path \<and> SplitN2 ?ref (CHR ''#'') ! 1 = key
      \<longleftrightarrow> SplitN2 ?ref (CHR ''#'') = [path, key]"
    by (auto simp: SplitN2_def)
  then show ?thesis
    using SplitN2_2 [of ?ref "CHR ''#''" path key] by (auto simp: parseVaultReference_def Let_def)
qed

text \<open>C39: A vault reference is read back exactly: for a value that starts with the prefix, parsing
  yields path and key precisely when the value is vault:path#key with a non-empty path free of
  the hash sign and a non-empty key (the key may itself contain hash signs), and every other
  value with the prefix is an invalid reference.\<close>

theorem parseVaultReference_roundtrip:
  assumes "HasPrefix value ''vault:''"
  shows "(parseVaultReference value = Inr (path, key) \<longleftrightarrow>
      value = ''vault:'' @ path @ ''#'' @ key \<and> path \<noteq> [] \<and> CHR ''#'' \<notin> set path \<and> key \<noteq> [])
    \<and> ((\<exists>e. parseVaultReference value = Inl e \<and> errors_Is e ErrInvalidVaultReference) \<longleftrightarrow>
        (\<nexists>path key. value = ''vault:'' @ path @ ''#'' @ key \<and> path \<noteq> [] \<and> CHR ''#'' \<notin> set path \<and> key \<noteq> []))"
proof -
  from assms obtain r where r: "value = ''vault:'' @ r" unfolding HasPrefix_iff by blast
  have iff: "parseVaultReference value = Inr (path, key) \<longleftrightarrow>
      value = ''vault:'' @ path @ ''#'' @ key \<and> path \<noteq> [] \<and> CHR ''#'' \<notin> set path \<and> key \<noteq> []" for path key
    unfolding parseVaultReference_iff r TrimPrefix_append by auto
  have "(\<exists>e. parseVaultReference value = Inl e \<and> errors_Is e ErrInvalidVaultReference) \<longleftrightarrow>
      (\<nexists>path key. parseVaultReference value = Inr (path, key))"
    by (auto simp: parseVaultReference_def Let_def split: if_split)
  then show ?thesis unfolding iff by blast
qed

theorem parseVaultReference_roundtrip_witness:
  "parseVaultReference ''vault:team/db#pass#word'' = Inr (''team/db'', ''pass#word'')"
proof -
  have "HasPrefix ''vault:team/db#pass#word'' ''vault:''" by (simp add: HasPrefix_def)
  from parseVaultReference_roundtrip [OF this, of "''team/db''" "''pass#word''"] show ?thesis by simp
qed

subsection \<open>A rule for the traversal\<close>

text \<open>
  What holds of the state after every resolved string and of the error of the first string that
  fails holds of the whole traversal: \<open>J\<close> is the invariant of the state and \<open>K\<close> the postcondition
  of a failure.
\<close>

locale resolve_walk =
  fixes kv :: kvstore and J :: "vstate \<Rightarrow> bool" and K :: "goerr \<Rightarrow> vstate \<Rightarrow> bool"
  assumes string_ok: "J st \<Longrightarrow> resolveString kv v kp st = (Inr x, st') \<Longrightarrow> J st'"
    and string_err: "J st \<Longrightarrow> resolveString kv v kp st = (Inl e, st') \<Longrightarrow> K e st'"
begin

definition post :: "(goerr + 'x) \<times> vstate \<Rightarrow> bool" where
  "post r = (case r of (Inl e, st) \<Rightarrow> K e st | (Inr _, st) \<Rightarrow> J st)"

lemma post_simps [simp]: "post (Inl e, st) = K e st" "post (Inr x, st) = J st"
  by (simp_all add: post_def)

lemma walk_aux:
  shows "kv' = kv \<Longrightarrow> J st \<Longrightarrow> post (resolveValue kv' data kp st)"
    and "kv' = kv \<Longrightarrow> J st \<Longrightarrow> post (resolveMap kv' m kp result st)"
    and "kv' = kv \<Longrightarrow> J st \<Longrightarrow> post (resolveSlice kv' xs kp i rs st)"
proof (induction kv' data kp st and kv' m kp result st and kv' xs kp i rs st
    rule: resolveValue_resolveMap_resolveSlice.induct)
  case (3 kv' v keyPath st)
  then show ?case
    by (cases "resolveString kv v keyPath st"; cases "fst (resolveString kv v keyPath st)")
      (auto dest: string_ok string_err)
qed (auto simp: post_def split: prod.splits sum.splits)

lemma walk_ok: "J st \<Longrightarrow> resolveValue kv data kp st = (Inr x, st') \<Longrightarrow> J st'"
  using walk_aux(1) [OF refl, of st data kp] by simp

lemma walk_err: "J st \<Longrightarrow> resolveValue kv data kp st = (Inl e, st') \<Longrightarrow> K e st'"
  using walk_aux(1) [OF refl, of st data kp] by simp

end

subsection \<open>Reads of the store\<close>

text \<open>The reads made since the start of a call, when the call began after the reads \<open>r0\<close>.\<close>

definition new_reads :: "string list \<Rightarrow> vstate \<Rightarrow> string list" where
  "new_reads r0 st = drop (length r0) (vs_reads st)"

definition once_inv :: "string list \<Rightarrow> vstate \<Rightarrow> bool" where
  "once_inv r0 st \<longleftrightarrow> vs_reads st = r0 @ new_reads r0 st \<and> distinct (new_reads r0 st)
     \<and> (\<forall>p. p \<in> set (new_reads r0 st) \<longleftrightarrow> glookup (vs_cache st) p \<noteq> None)"

definition once_post :: "string list \<Rightarrow> goerr \<Rightarrow> vstate \<Rightarrow> bool" where
  "once_post r0 e st \<longleftrightarrow> vs_reads st = r0 @ new_reads r0 st \<and> distinct (new_reads r0 st)"

lemma getPathData_once:
  assumes "once_inv r0 st"
  shows "getPathData kv p kp vr st = (Inr x, st') \<Longrightarrow> once_inv r0 st'"
    and "getPathData kv p kp vr st = (Inl e, st') \<Longrightarrow> once_post r0 e st'"
proof -
  from assms obtain n where n: "vs_reads st = r0 @ n" "distinct n" "\<And>p. p \<in> set n \<longleftrightarrow> glookup (vs_cache st) p \<noteq> None"
    by (auto simp: once_inv_def)
  then have new: "new_reads r0 st = n" by (simp add: new_reads_def)
  show "getPathData kv p kp vr st = (Inr x, st') \<Longrightarrow> once_inv r0 st'"
    using n by (auto simp: getPathData_def Let_def once_inv_def new_reads_def gomap
        split: option.splits sum.splits if_splits)
  show "getPathData kv p kp vr st = (Inl e, st') \<Longrightarrow> once_post r0 e st'"
    using n by (auto simp: getPathData_def Let_def once_post_def new_reads_def split: option.splits sum.splits)
qed

lemma once_inv_post: "once_inv r0 st \<Longrightarrow> once_post r0 e st"
  by (simp add: once_inv_def once_post_def)

interpretation once: resolve_walk kv "once_inv r0" "once_post r0" for kv r0
proof unfold_locales
  fix st v kp x st'
  assume "once_inv r0 st" and "resolveString kv v kp st = (Inr x, st')"
  then show "once_inv r0 st'"
    by (auto simp: resolveString_def dest: getPathData_once split: if_split_asm sum.split_asm prod.split_asm option.split_asm)
next
  fix st v kp e st'
  assume "once_inv r0 st" and "resolveString kv v kp st = (Inl e, st')"
  then show "once_post r0 e st'"
    by (auto simp: resolveString_def dest: getPathData_once once_inv_post
        split: if_split_asm sum.split_asm prod.split_asm option.split_asm)
qed

lemma once_start [simp]: "once_inv r0 \<lparr>vs_cache = gmake, vs_reads = r0\<rparr>"
  by (simp add: once_inv_def new_reads_def)

text \<open>C31: One call of ResolveSecrets reads each path of the store at most once, whatever the
  configuration is, however the store changes meanwhile, and also when the call fails; the reads
  it makes come after those made before.\<close>

theorem ResolveSecrets_reads_once:
  "\<exists>new. snd (snd (ResolveSecrets cd kv rawConfig r0)) = r0 @ new \<and> distinct new"
proof -
  let ?st = "\<lparr>vs_cache = gmake, vs_reads = r0\<rparr>"
  have "once_post r0 e st" if "resolveValue kv data [] ?st = (Inl e, st)" for data e st
    by (rule once.walk_err [OF once_start that])
  moreover have "once_inv r0 st" if "resolveValue kv data [] ?st = (Inr x, st)" for data x st
    by (rule once.walk_ok [OF once_start that])
  ultimately show ?thesis
    by (auto simp: ResolveSecrets_def once_inv_def once_post_def split: option.splits sum.splits prod.splits)
qed

subsection \<open>The class of an error\<close>

definition reads_ok :: "kvstore \<Rightarrow> string list \<Rightarrow> string list \<Rightarrow> bool" where
  "reads_ok kv r0 n \<longleftrightarrow> (\<forall>i < length n. \<exists>s. kv (r0 @ take i n) (n ! i) = Inr s)"

definition last_read_failed :: "kvstore \<Rightarrow> string list \<Rightarrow> string list \<Rightarrow> bool" where
  "last_read_failed kv r0 n \<longleftrightarrow> n \<noteq> [] \<and> (\<exists>err. kv (r0 @ butlast n) (last n) = Inl err)"

definition class_inv :: "kvstore \<Rightarrow> string list \<Rightarrow> vstate \<Rightarrow> bool" where
  "class_inv kv r0 st \<longleftrightarrow> (\<exists>n. vs_reads st = r0 @ n \<and> reads_ok kv r0 n)"

definition class_post :: "kvstore \<Rightarrow> string list \<Rightarrow> goerr \<Rightarrow> vstate \<Rightarrow> bool" where
  "class_post kv r0 e st \<longleftrightarrow> (\<exists>n i r kp vr. vs_reads st = r0 @ n \<and> e = VaultErr i r kp vr \<and> HasPrefix vr ''vault:''
     \<and> (r \<longleftrightarrow> last_read_failed kv r0 n))"

lemma reads_ok_snoc: "reads_ok kv r0 n \<Longrightarrow> kv (r0 @ n) p = Inr s \<Longrightarrow> reads_ok kv r0 (n @ [p])"
  by (auto simp: reads_ok_def less_Suc_eq nth_append)

lemma reads_ok_not_failed:
  assumes "reads_ok kv r0 n"
  shows "\<not> last_read_failed kv r0 n"
proof (cases "n = []")
  case False
  then have "length n - 1 < length n" "take (length n - 1) n = butlast n" "n ! (length n - 1) = last n"
    by (simp_all add: butlast_conv_take last_conv_nth)
  with assms show ?thesis by (metis Inl_Inr_False reads_ok_def last_read_failed_def)
qed (simp add: last_read_failed_def)

lemma not_failed_snoc: "kv (r0 @ n) p = Inr s \<Longrightarrow> \<not> last_read_failed kv r0 (n @ [p])"
  by (simp add: last_read_failed_def)

lemma failed_snoc: "kv (r0 @ n) p = Inl e \<Longrightarrow> last_read_failed kv r0 (n @ [p])"
  by (auto simp: last_read_failed_def)

lemma getPathData_class:
  assumes "class_inv kv r0 st"
  shows "getPathData kv p kp vr st = (Inr x, st') \<Longrightarrow> class_inv kv r0 st'"
    and "HasPrefix vr ''vault:'' \<Longrightarrow> getPathData kv p kp vr st = (Inl e, st') \<Longrightarrow> class_post kv r0 e st'"
proof -
  from assms obtain n where n: "vs_reads st = r0 @ n" "reads_ok kv r0 n" by (auto simp: class_inv_def)
  show "getPathData kv p kp vr st = (Inr x, st') \<Longrightarrow> class_inv kv r0 st'"
    using n by (auto simp: getPathData_def Let_def class_inv_def intro: reads_ok_snoc split: option.splits sum.splits)
  show "HasPrefix vr ''vault:'' \<Longrightarrow> getPathData kv p kp vr st = (Inl e, st') \<Longrightarrow> class_post kv r0 e st'"
    using n by (auto simp: getPathData_def Let_def class_post_def vault_errors not_failed_snoc failed_snoc
        split: option.splits sum.splits if_splits)
qed

lemma class_inv_post:
  "class_inv kv r0 st \<Longrightarrow> HasPrefix vr ''vault:'' \<Longrightarrow> class_post kv r0 (VaultErr i False kp vr) st"
  by (auto simp: class_inv_def class_post_def dest: reads_ok_not_failed)

interpretation errclass: resolve_walk kv "class_inv kv r0" "class_post kv r0" for kv r0
proof unfold_locales
  fix st v kp x st'
  assume "class_inv kv r0 st" and "resolveString kv v kp st = (Inr x, st')"
  then show "class_inv kv r0 st'"
    by (auto simp: resolveString_def dest: getPathData_class(1) split: if_split_asm sum.split_asm prod.split_asm option.split_asm)
next
  fix st v kp e st'
  assume "class_inv kv r0 st" and "resolveString kv v kp st = (Inl e, st')"
  then show "class_post kv r0 e st'"
    by (auto simp: resolveString_def NewInvalidReferenceError_def NewKeyNotFoundError_def HasPrefix_def
        intro!: class_inv_post dest: getPathData_class
        split: if_split_asm sum.split_asm prod.split_asm option.split_asm)
qed

text \<open>C32: The class of a resolution error tells a failure of Vault from a mistake in the resource. When
  the configuration is valid JSON and its resolution fails, the error carries the reference that
  failed, it is retryable, also after further wrapping, exactly if the last read of the store
  returned an error, and the configuration is left as it was.\<close>

theorem ResolveSecrets_error_class:
  assumes json: "Unmarshal cd raw = Inr data" "\<forall>j. \<exists>s. Marshal cd j = Inr s"
    and fails: "ResolveSecrets cd kv (Some \<lparr>Raw = Some raw\<rparr>) r0 = (Some e, config, reads)"
  shows "\<exists>n i r kp vr. reads = r0 @ n \<and> e = VaultErr i r kp vr \<and> HasPrefix vr ''vault:''
    \<and> (vault_IsRetryableError (fold Errorf_w prefixes e) \<longleftrightarrow> last_read_failed kv r0 n)
    \<and> config = Some \<lparr>Raw = Some raw\<rparr>"
proof -
  let ?st = "\<lparr>vs_cache = gmake, vs_reads = r0\<rparr>"
  have start: "class_inv kv r0 ?st" by (simp add: class_inv_def reads_ok_def)
  obtain x st where v: "resolveValue kv data [] ?st = (x, st)" by force
  have "\<exists>y. x = Inl y"
  proof (cases x)
    case (Inr y)
    obtain s where "Marshal cd y = Inr s" using json(2) by blast
    then show ?thesis using fails json(1) by (simp add: ResolveSecrets_def v Inr)
  qed simp
  then have x: "x = Inl e" and c: "config = Some \<lparr>Raw = Some raw\<rparr>" and r: "reads = vs_reads st"
    using fails json(1) by (auto simp: ResolveSecrets_def v)
  have p: "class_post kv r0 e st" by (rule errclass.walk_err [OF start v [unfolded x]])
  from p obtain n i r kp vr where "vs_reads st = r0 @ n" and e: "e = VaultErr i r kp vr" and "HasPrefix vr ''vault:''"
    and "r \<longleftrightarrow> last_read_failed kv r0 n" by (auto simp: class_post_def)
  moreover have "vault_IsRetryableError (fold Errorf_w prefixes e) = r"
    unfolding vault_retry.decide_wraps by (simp add: e vault_IsRetryableError_def VaultError_IsRetryable_def)
  ultimately show ?thesis using c r by auto
qed

definition demo_codec :: codec where
  "demo_codec = \<lparr>Unmarshal = (\<lambda>s. Inr (JObject [(''user'', JString ''admin''), (''pw'', JString s)])), Marshal = (\<lambda>j. Inr ''x'')\<rparr>"

definition down :: kvstore where
  "down reads path = Inl (Text ''connection refused'')"

theorem ResolveSecrets_error_class_witness:
  "\<exists>e config. ResolveSecrets demo_codec down (Some \<lparr>Raw = Some ''vault:a#b''\<rparr>) [] = (Some e, config, [''a''])
     \<and> vault_IsRetryableError e"
proof -
  let ?e = "NewVaultAPIError ''pw'' ''vault:a#b'' (Text ''connection refused'')"
  have f: "ResolveSecrets demo_codec down (Some \<lparr>Raw = Some ''vault:a#b''\<rparr>) [] =
      (Some ?e, Some \<lparr>Raw = Some ''vault:a#b''\<rparr>, [''a''])"
    by (simp add: ResolveSecrets_def demo_codec_def resolveString_def HasPrefix_def parseVaultReference_def TrimPrefix_def
        SplitN2_def getPathData_def Let_def down_def buildKeyPath_def)
  have u: "Unmarshal demo_codec ''vault:a#b'' = Inr (JObject [(''user'', JString ''admin''), (''pw'', JString ''vault:a#b'')])"
    and m: "\<forall>j. \<exists>s. Marshal demo_codec j = Inr s" by (simp_all add: demo_codec_def)
  have "last_read_failed down [] [''a'']" by (simp add: last_read_failed_def down_def)
  with ResolveSecrets_error_class [OF u m f, of "[]"] f show ?thesis by auto
qed

subsection \<open>Equivalence with a resolution that keeps no cache\<close>

text \<open>Every reference on its own, against a store that answers every read of a path alike.\<close>

definition lookupSecret :: "(string \<Rightarrow> goerr + Secret option) \<Rightarrow> string \<Rightarrow> string \<Rightarrow> string \<Rightarrow> goerr + (string \<times> json) list" where
  "lookupSecret store path keyPath vaultRef =
     (case store path of
        Inl err \<Rightarrow> Inl (NewVaultAPIError keyPath vaultRef err)
      | Inr raw \<Rightarrow>
        (case extractSecretData raw of
           Inl err \<Rightarrow> Inl (if errors_Is err ErrSecretDataNil then NewSecretDataNilError keyPath vaultRef
                            else NewSecretNotFoundError keyPath vaultRef path)
         | Inr data \<Rightarrow> Inr data))"

definition spec_string :: "(string \<Rightarrow> goerr + Secret option) \<Rightarrow> string \<Rightarrow> string \<Rightarrow> goerr + json" where
  "spec_string store value keyPath =
     (if \<not> HasPrefix value ''vault:'' then Inr (JString value)
      else case parseVaultReference value of
        Inl err \<Rightarrow> Inl (NewInvalidReferenceError keyPath value (Error err))
      | Inr (path, key) \<Rightarrow>
        (case lookupSecret store path keyPath value of
           Inl err \<Rightarrow> Inl err
         | Inr secret \<Rightarrow>
           (case map_of secret key of
              None \<Rightarrow> Inl (NewKeyNotFoundError keyPath key path (getKeys secret))
            | Some v \<Rightarrow> Inr v)))"

fun spec_value :: "(string \<Rightarrow> goerr + Secret option) \<Rightarrow> json \<Rightarrow> string \<Rightarrow> goerr + json"
  and spec_map :: "(string \<Rightarrow> goerr + Secret option) \<Rightarrow> (string \<times> json) list \<Rightarrow> string \<Rightarrow> goerr + (string \<times> json) list"
  and spec_slice :: "(string \<Rightarrow> goerr + Secret option) \<Rightarrow> json list \<Rightarrow> string \<Rightarrow> nat \<Rightarrow> goerr + json list" where
  "spec_value store (JObject m) kp = (case spec_map store m kp of Inl e \<Rightarrow> Inl e | Inr r \<Rightarrow> Inr (JObject r))"
| "spec_value store (JArray xs) kp = (case spec_slice store xs kp 0 of Inl e \<Rightarrow> Inl e | Inr r \<Rightarrow> Inr (JArray r))"
| "spec_value store (JString v) kp = spec_string store v kp"
| "spec_value store JNull kp = Inr JNull"
| "spec_value store (JBool b) kp = Inr (JBool b)"
| "spec_value store (JNumber n) kp = Inr (JNumber n)"
| "spec_map store [] kp = Inr []"
| "spec_map store ((k, v) # m) kp =
     (case spec_value store v (buildKeyPath kp k) of Inl e \<Rightarrow> Inl e
      | Inr v' \<Rightarrow> (case spec_map store m kp of Inl e \<Rightarrow> Inl e | Inr r \<Rightarrow> Inr ((k, v') # r)))"
| "spec_slice store [] kp i = Inr []"
| "spec_slice store (x # xs) kp i =
     (case spec_value store x (kp @ ''['' @ Itoa (int i) @ '']'') of Inl e \<Rightarrow> Inl e
      | Inr v \<Rightarrow> (case spec_slice store xs kp (Suc i) of Inl e \<Rightarrow> Inl e | Inr r \<Rightarrow> Inr (v # r)))"

text \<open>An object holds each key once, as a Go map does.\<close>

fun json_wf :: "json \<Rightarrow> bool" and entries_wf :: "(string \<times> json) list \<Rightarrow> bool" and items_wf :: "json list \<Rightarrow> bool" where
  "json_wf (JObject m) = (distinct (map fst m) \<and> entries_wf m)"
| "json_wf (JArray xs) = items_wf xs"
| "json_wf _ = True"
| "entries_wf [] = True"
| "entries_wf ((k, v) # m) = (json_wf v \<and> entries_wf m)"
| "items_wf [] = True"
| "items_wf (x # xs) = (json_wf x \<and> items_wf xs)"

definition cache_ok :: "(string \<Rightarrow> goerr + Secret option) \<Rightarrow> vstate \<Rightarrow> bool" where
  "cache_ok store st \<longleftrightarrow> (\<forall>p d. glookup (vs_cache st) p = Some d \<longrightarrow>
     (\<exists>raw. store p = Inr raw \<and> extractSecretData raw = Inr d))"

lemma getPathData_spec:
  assumes "cache_ok store st"
  shows "fst (getPathData (\<lambda>_. store) p kp vr st) = lookupSecret store p kp vr"
    and "cache_ok store (snd (getPathData (\<lambda>_. store) p kp vr st))"
proof -
  have "fst (getPathData (\<lambda>_. store) p kp vr st) = lookupSecret store p kp vr
      \<and> cache_ok store (snd (getPathData (\<lambda>_. store) p kp vr st))"
  proof (cases "glookup (vs_cache st) p")
    case None
    then show ?thesis using assms
      by (auto simp: getPathData_def lookupSecret_def cache_ok_def Let_def gomap split: sum.splits)
  next
    case (Some d)
    with assms obtain raw where "store p = Inr raw" "extractSecretData raw = Inr d" by (auto simp: cache_ok_def)
    then show ?thesis using assms Some by (simp add: getPathData_def lookupSecret_def)
  qed
  then show "fst (getPathData (\<lambda>_. store) p kp vr st) = lookupSecret store p kp vr"
    and "cache_ok store (snd (getPathData (\<lambda>_. store) p kp vr st))" by auto
qed

lemma resolveString_spec:
  assumes "cache_ok store st"
  shows "fst (resolveString (\<lambda>_. store) v kp st) = spec_string store v kp"
    and "cache_ok store (snd (resolveString (\<lambda>_. store) v kp st))"
proof -
  have "fst (resolveString (\<lambda>_. store) v kp st) = spec_string store v kp
      \<and> cache_ok store (snd (resolveString (\<lambda>_. store) v kp st))"
  proof (cases "HasPrefix v ''vault:'' \<and> (\<exists>path key. parseVaultReference v = Inr (path, key))")
    case True
    then obtain path key where r: "HasPrefix v ''vault:''" "parseVaultReference v = Inr (path, key)" by blast
    obtain d st1 where g: "getPathData (\<lambda>_. store) path kp v st = (d, st1)" by force
    with getPathData_spec [OF assms, of path kp v] have "d = lookupSecret store path kp v" "cache_ok store st1" by auto
    then show ?thesis using r g by (auto simp: resolveString_def spec_string_def split: sum.split option.split)
  next
    case False
    then show ?thesis using assms by (auto simp: resolveString_def spec_string_def split: sum.split)
  qed
  then show "fst (resolveString (\<lambda>_. store) v kp st) = spec_string store v kp"
    and "cache_ok store (snd (resolveString (\<lambda>_. store) v kp st))" by auto
qed

text \<open>What a traversal owes the specification: the same result, and a cache that is still right.\<close>

definition agrees :: "(string \<Rightarrow> goerr + Secret option) \<Rightarrow> (goerr + 'x) \<times> vstate \<Rightarrow> goerr + 'x \<Rightarrow> bool" where
  "agrees store r s \<longleftrightarrow> fst r = s \<and> cache_ok store (snd r)"

lemma agreesE:
  assumes "agrees store r s"
  obtains (err) e st where "r = (Inl e, st)" "s = Inl e" "cache_ok store st"
    | (ok) x st where "r = (Inr x, st)" "s = Inr x" "cache_ok store st"
  using assms by (cases r; cases "fst r") (auto simp: agrees_def)

lemma resolve_agrees:
  shows "kv = (\<lambda>_. store) \<Longrightarrow> cache_ok store st \<Longrightarrow> json_wf data \<Longrightarrow>
      agrees store (resolveValue kv data kp st) (spec_value store data kp)"
    and "kv = (\<lambda>_. store) \<Longrightarrow> cache_ok store st \<Longrightarrow> entries_wf m \<Longrightarrow> distinct (map fst (result @ m)) \<Longrightarrow>
      agrees store (resolveMap kv m kp result st)
        (case spec_map store m kp of Inl e \<Rightarrow> Inl e | Inr r \<Rightarrow> Inr (result @ r))"
    and "kv = (\<lambda>_. store) \<Longrightarrow> cache_ok store st \<Longrightarrow> items_wf xs \<Longrightarrow>
      agrees store (resolveSlice kv xs kp i rs st)
        (case spec_slice store xs kp i of Inl e \<Rightarrow> Inl e | Inr r \<Rightarrow> Inr (rs @ r))"
proof (induction kv data kp st and kv m kp result st and kv xs kp i rs st
    rule: resolveValue_resolveMap_resolveSlice.induct)
  case (1 kv m keyPath st)
  then have "agrees store (resolveMap kv m keyPath [] st) (spec_map store m keyPath)"
    by (simp split: sum.split_asm)
  then show ?case by (cases rule: agreesE) (simp_all add: agrees_def)
next
  case (2 kv xs keyPath st)
  then have "agrees store (resolveSlice kv xs keyPath 0 [] st) (spec_slice store xs keyPath 0)"
    by (simp split: sum.split_asm)
  then show ?case by (cases rule: agreesE) (simp_all add: agrees_def)
next
  case (3 kv v keyPath st)
  then show ?case using resolveString_spec [of store st v keyPath] by (simp add: agrees_def)
next
  case (8 kv key val m keyPath result st)
  then have "agrees store (resolveValue kv val (buildKeyPath keyPath key) st) (spec_value store val (buildKeyPath keyPath key))"
    by simp
  then show ?case
  proof (cases rule: agreesE)
    case (ok x st1)
    have "key \<notin> fst ` set result" and "distinct (map fst ((result @ [(key, x)]) @ m))" using "8.prems"(4) by auto
    then show ?thesis using "8.IH"(2) [OF ok(1) [symmetric] refl] "8.prems" ok
      by (auto simp: update_fresh split: sum.split)
  qed (simp add: agrees_def)
next
  case (10 kv item xs keyPath i result st)
  then have "agrees store (resolveValue kv item (keyPath @ ''['' @ Itoa (int i) @ '']'') st)
      (spec_value store item (keyPath @ ''['' @ Itoa (int i) @ '']''))" by simp
  then show ?case
  proof (cases rule: agreesE)
    case (ok x st1)
    then show ?thesis using "10.IH"(2) [OF ok(1) [symmetric] refl] "10.prems" by (auto split: sum.split)
  qed (simp add: agrees_def)
qed (simp_all add: agrees_def)

text \<open>C10: The cache is invisible. Against a store that answers every read of a path alike,
  ResolveSecrets has the result of resolving every reference on its own: the same configuration,
  or the same first error with the configuration left as it was. In particular a secret is
  inserted as it is and never taken for a reference itself.\<close>

theorem ResolveSecrets_uncached:
  assumes "Unmarshal cd raw = Inr data" and "json_wf data"
  shows "(fst (ResolveSecrets cd (\<lambda>_. store) (Some \<lparr>Raw = Some raw\<rparr>) r0),
      fst (snd (ResolveSecrets cd (\<lambda>_. store) (Some \<lparr>Raw = Some raw\<rparr>) r0))) =
    (case spec_value store data [] of
       Inl e \<Rightarrow> (Some e, Some \<lparr>Raw = Some raw\<rparr>)
     | Inr resolved \<Rightarrow>
       (case Marshal cd resolved of
          Inl e \<Rightarrow> (Some (Errorf_w ''ResolveSecrets: failed to marshal resolved config: '' e), Some \<lparr>Raw = Some raw\<rparr>)
        | Inr text \<Rightarrow> (None, Some \<lparr>Raw = Some text\<rparr>)))"
proof -
  have "cache_ok store \<lparr>vs_cache = gmake, vs_reads = r0\<rparr>" by (simp add: cache_ok_def)
  from resolve_agrees(1) [OF refl this assms(2), of "[]"] show ?thesis
    by (cases rule: agreesE) (simp_all add: ResolveSecrets_def assms(1) split: sum.split)
qed

definition demo_store :: "string \<Rightarrow> goerr + Secret option" where
  "demo_store path = (if path = ''a'' then Inr (Some \<lparr>sec_Data = Some [(''data'', JObject [(''b'', JString ''vault:c#d'')])]\<rparr>)
     else Inl (Text ''no such secret''))"

theorem ResolveSecrets_uncached_witness:
  "fst (ResolveSecrets demo_codec (\<lambda>_. demo_store) (Some \<lparr>Raw = Some ''vault:a#b''\<rparr>) []) = None
   \<and> spec_value demo_store (JObject [(''user'', JString ''admin''), (''pw'', JString ''vault:a#b'')]) [] =
       Inr (JObject [(''user'', JString ''admin''), (''pw'', JString ''vault:c#d'')])"
proof -
  let ?data = "JObject [(''user'', JString ''admin''), (''pw'', JString ''vault:a#b'')]"
  have u: "Unmarshal demo_codec ''vault:a#b'' = Inr ?data" and w: "json_wf ?data" by (simp_all add: demo_codec_def)
  have s: "spec_value demo_store ?data [] = Inr (JObject [(''user'', JString ''admin''), (''pw'', JString ''vault:c#d'')])"
    by (simp add: spec_string_def HasPrefix_def parseVaultReference_def TrimPrefix_def SplitN2_def Let_def lookupSecret_def
        demo_store_def extractSecretData_def glookup_def)
  have "fst (ResolveSecrets demo_codec (\<lambda>_. demo_store) (Some \<lparr>Raw = Some ''vault:a#b''\<rparr>) []) = None"
    using ResolveSecrets_uncached [OF u w, of demo_store "[]"] by (simp only: s) (simp add: demo_codec_def)
  with s show ?thesis by blast
qed

subsection \<open>Configurations without references\<close>

fun no_refs :: "json \<Rightarrow> bool" and entries_no_refs :: "(string \<times> json) list \<Rightarrow> bool" and items_no_refs :: "json list \<Rightarrow> bool" where
  "no_refs (JObject m) = entries_no_refs m"
| "no_refs (JArray xs) = items_no_refs xs"
| "no_refs (JString v) = (\<not> HasPrefix v ''vault:'')"
| "no_refs _ = True"
| "entries_no_refs [] = True"
| "entries_no_refs ((k, v) # m) = (no_refs v \<and> entries_no_refs m)"
| "items_no_refs [] = True"
| "items_no_refs (x # xs) = (no_refs x \<and> items_no_refs xs)"

lemma resolve_no_refs:
  shows "no_refs data \<Longrightarrow> json_wf data \<Longrightarrow> resolveValue kv data kp st = (Inr data, st)"
    and "entries_no_refs m \<Longrightarrow> entries_wf m \<Longrightarrow> distinct (map fst (result @ m)) \<Longrightarrow>
      resolveMap kv m kp result st = (Inr (result @ m), st)"
    and "items_no_refs xs \<Longrightarrow> items_wf xs \<Longrightarrow> resolveSlice kv xs kp i rs st = (Inr (rs @ xs), st)"
  by (induction kv data kp st and kv m kp result st and kv xs kp i rs st
      rule: resolveValue_resolveMap_resolveSlice.induct)
    (auto simp: resolveString_def update_fresh)

text \<open>A configuration without references needs no Vault: whatever the store does, ResolveSecrets
  makes no read, reports no error and only re-encodes the configuration; a configuration that is
  absent is left alone.\<close>

lemma ResolveSecrets_no_refs:
  assumes "Unmarshal cd raw = Inr data" and "json_wf data" and "no_refs data" and "Marshal cd data = Inr text"
  shows "ResolveSecrets cd kv (Some \<lparr>Raw = Some raw\<rparr>) r0 = (None, Some \<lparr>Raw = Some text\<rparr>, r0)
    \<and> ResolveSecrets cd kv None r0 = (None, None, r0)
    \<and> ResolveSecrets cd kv (Some \<lparr>Raw = None\<rparr>) r0 = (None, Some \<lparr>Raw = None\<rparr>, r0)"
  by (simp add: ResolveSecrets_def assms resolve_no_refs(1))

end
