(* ===== verification/Connector_Service.thy ===== *)
theory Connector_Service
  imports Schema_Merge Vault_Resolve
begin

text \<open>
  The requests that pkg/fivetran/connector_service.go and schema_service.go make of their
  arguments. A service object of the SDK is the record of the fields its setters have set; it is
  also the body of the request, since every field is a pointer that is left out when it is nil
  (the two data delay fields of a creation are sent as null). Fields of the SDK that the operator
  never sets are left out of the records.
  The calls themselves belong to the environment of the operator (theory Operator_World).
\<close>

subsection \<open>Connections\<close>

text \<open>The type Connector of package fivetran. \<open>f_Config\<close> and \<open>f_Auth\<close> are pointers to maps.\<close>

record FConnector =
  f_Service :: string
  f_Config :: "json gomap option"
  f_Auth :: "json gomap option"
  f_Paused :: "bool option"
  f_GroupID :: string
  f_SyncFrequency :: int
  f_DailySyncTime :: string
  f_RunSetupTests :: "bool option"
  f_ScheduleType :: string
  f_PauseAfterTrial :: "bool option"
  f_TrustCertificates :: "bool option"
  f_TrustFingerprints :: "bool option"
  f_DataDelaySensitivity :: string
  f_DataDelayThreshold :: int
  f_NetworkingMethod :: string
  f_ProxyAgentID :: string
  f_PrivateLinkID :: string
  f_HybridDeploymentAgentID :: string

record CreateRequest =
  crq_service :: "string option"
  crq_groupID :: "string option"
  crq_runSetupTests :: "bool option"
  crq_paused :: "bool option"
  crq_syncFrequency :: "int option"
  crq_dailySyncTime :: "string option"
  crq_pauseAfterTrial :: "bool option"
  crq_hybridDeploymentAgentId :: "string option"
  crq_networkingMethod :: "string option"
  crq_privateLinkId :: "string option"
  crq_proxyAgentId :: "string option"
  crq_dataDelaySensitivity :: "string option"
  crq_dataDelayThreshold :: "int option"
  crq_configCustom :: "json gomap option"
  crq_authCustom :: "json gomap option"

record UpdateRequest =
  urq_runSetupTests :: "bool option"
  urq_paused :: "bool option"
  urq_syncFrequency :: "int option"
  urq_dailySyncTime :: "string option"
  urq_scheduleType :: "string option"
  urq_pauseAfterTrial :: "bool option"
  urq_hybridDeploymentAgentId :: "string option"
  urq_networkingMethod :: "string option"
  urq_privateLinkId :: "string option"
  urq_proxyAgentId :: "string option"
  urq_dataDelaySensitivity :: "string option"
  urq_dataDelayThreshold :: "int option"
  urq_configCustom :: "json gomap option"
  urq_authCustom :: "json gomap option"

text \<open>
  The bodies of CreateConnection and UpdateConnection up to \<open>DoCustom\<close>: every setter sets its own
  field and stands under its own guard. A pointer field is sent when it is not nil, another field
  when it is not the zero value; \<open>run_setup_tests\<close> is always false.
\<close>

definition CreateConnection_request :: "FConnector \<Rightarrow> CreateRequest" where
  "CreateConnection_request c =
     \<lparr>crq_service = Some (f_Service c),
      crq_groupID = Some (f_GroupID c),
      crq_runSetupTests = Some False,
      crq_paused = f_Paused c,
      crq_syncFrequency = (if f_SyncFrequency c \<noteq> 0 then Some (f_SyncFrequency c) else None),
      crq_dailySyncTime = (if f_DailySyncTime c \<noteq> '''' then Some (f_DailySyncTime c) else None),
      crq_pauseAfterTrial = f_PauseAfterTrial c,
      crq_hybridDeploymentAgentId = (if f_HybridDeploymentAgentID c \<noteq> '''' then Some (f_HybridDeploymentAgentID c) else None),
      crq_networkingMethod = (if f_NetworkingMethod c \<noteq> '''' then Some (f_NetworkingMethod c) else None),
      crq_privateLinkId = (if f_PrivateLinkID c \<noteq> '''' then Some (f_PrivateLinkID c) else None),
      crq_proxyAgentId = (if f_ProxyAgentID c \<noteq> '''' then Some (f_ProxyAgentID c) else None),
      crq_dataDelaySensitivity = (if f_DataDelaySensitivity c \<noteq> '''' then Some (f_DataDelaySensitivity c) else None),
      crq_dataDelayThreshold = (if f_DataDelayThreshold c \<noteq> 0 then Some (f_DataDelayThreshold c) else None),
      crq_configCustom = f_Config c,
      crq_authCustom = f_Auth c\<rparr>"

definition UpdateConnection_request :: "FConnector \<Rightarrow> UpdateRequest" where
  "UpdateConnection_request c =
     \<lparr>urq_runSetupTests = Some False,
      urq_paused = f_Paused c,
      urq_syncFrequency = (if f_SyncFrequency c \<noteq> 0 then Some (f_SyncFrequency c) else None),
      urq_dailySyncTime = (if f_DailySyncTime c \<noteq> '''' then Some (f_DailySyncTime c) else None),
      urq_scheduleType = (if f_ScheduleType c \<noteq> '''' then Some (f_ScheduleType c) else None),
      urq_pauseAfterTrial = f_PauseAfterTrial c,
      urq_hybridDeploymentAgentId = (if f_HybridDeploymentAgentID c \<noteq> '''' then Some (f_HybridDeploymentAgentID c) else None),
      urq_networkingMethod = (if f_NetworkingMethod c \<noteq> '''' then Some (f_NetworkingMethod c) else None),
      urq_privateLinkId = (if f_PrivateLinkID c \<noteq> '''' then Some (f_PrivateLinkID c) else None),
      urq_proxyAgentId = (if f_ProxyAgentID c \<noteq> '''' then Some (f_ProxyAgentID c) else None),
      urq_dataDelaySensitivity = (if f_DataDelaySensitivity c \<noteq> '''' then Some (f_DataDelaySensitivity c) else None),
      urq_dataDelayThreshold = (if f_DataDelayThreshold c \<noteq> 0 then Some (f_DataDelayThreshold c) else None),
      urq_configCustom = f_Config c,
      urq_authCustom = f_Auth c\<rparr>"

text \<open>The trust flags of a setup test request, which default to true.\<close>

definition RunSetupTests_trust :: "bool option \<Rightarrow> bool" where
  "RunSetupTests_trust t = (case t of Some v \<Rightarrow> v | None \<Rightarrow> True)"

subsection \<open>Schemas\<close>

text \<open>The bodies of the schema requests: the SDK leaves out a map that is nil or empty.\<close>

record TableRequest =
  tq_Enabled :: "bool option"
  tq_SyncMode :: "string option"
  tq_Columns :: "ConfigColumn gomap"

record SchemaObjRequest =
  sq_Enabled :: "bool option"
  sq_Tables :: "TableRequest gomap"

record SchemaRequest =
  srq_SchemaChangeHandling :: "string option"
  srq_Schemas :: "SchemaObjRequest gomap"

definition nonempty_map :: "('v \<Rightarrow> 'w) \<Rightarrow> 'v gomap \<Rightarrow> 'w gomap" where
  "nonempty_map f m = (if glen m \<noteq> 0 then Some (map (\<lambda>(k, v). (k, f v)) (gentries m)) else None)"

definition table_Request :: "ConfigTable \<Rightarrow> TableRequest" where
  "table_Request t = \<lparr>tq_Enabled = ct_enabled t, tq_SyncMode = ct_syncMode t, tq_Columns = nonempty_map id (ct_columns t)\<rparr>"

definition schema_Request :: "ConfigTable list \<Rightarrow> ConfigSchema \<Rightarrow> SchemaObjRequest" where
  "schema_Request st s =
     \<lparr>sq_Enabled = cs_enabled s, sq_Tables = nonempty_map (\<lambda>a. table_Request (st ! a)) (cs_tables s)\<rparr>"

text \<open>The first part of CreateSchema and UpdateSchema: an error of the builder, or the request.\<close>

definition schema_request :: "SchemaBuilder \<Rightarrow> goerr + SchemaRequest" where
  "schema_request builder =
     (case Build builder of
        Inl err \<Rightarrow> Inl (Errorf_w ''failed to build schema config: '' err)
      | Inr (schemas, schemaChangeHandling) \<Rightarrow>
        Inr \<lparr>srq_SchemaChangeHandling = (if schemaChangeHandling \<noteq> '''' then Some schemaChangeHandling else None),
             srq_Schemas = nonempty_map (schema_Request (b_store builder)) schemas\<rparr>)"

text \<open>What a request body says, as a payload.\<close>

definition view_table :: "TableRequest \<Rightarrow> aTable" where
  "view_table t = \<lparr>at_enabled = tq_Enabled t, at_syncMode = tq_SyncMode t, at_columns = glookup (tq_Columns t)\<rparr>"

definition view_schema :: "SchemaObjRequest \<Rightarrow> aSchema" where
  "view_schema s = \<lparr>as_enabled = sq_Enabled s, as_tables = (\<lambda>t. map_option view_table (glookup (sq_Tables s) t))\<rparr>"

definition view_request :: "SchemaRequest \<Rightarrow> string \<Rightarrow> aSchema option" where
  "view_request r s = map_option view_schema (glookup (srq_Schemas r) s)"

lemma glookup_nonempty_map [simp]: "glookup (nonempty_map f m) k = map_option f (glookup m k)"
  by (cases m) (simp_all add: nonempty_map_def glookup_def glen_def map_of_map)

lemma view_table_Request: "view_table (table_Request t) = abs_table t"
  by (simp add: view_table_def table_Request_def abs_table_def fun_eq_iff option.map_id)

lemma view_schema_Request:
  assumes "\<And>t a. glookup (cs_tables s) t = Some a \<Longrightarrow> a < length st"
  shows "view_schema (schema_Request st s) = abs_schema st s"
proof -
  have "map_option view_table (map_option (\<lambda>a. table_Request (st ! a)) (glookup (cs_tables s) t)) =
      Option.bind (glookup (cs_tables s) t) (cell st)" for t
    using assms [of t] by (cases "glookup (cs_tables s) t") (simp_all add: cell_def view_table_Request)
  then show ?thesis by (simp add: view_schema_def schema_Request_def abs_schema_def)
qed

lemma schema_request_payload:
  assumes "b_err b = None" and "alias_inv b"
  shows "\<exists>r. schema_request b = Inr r \<and> view_request r = payload b
    \<and> srq_SchemaChangeHandling r = (if b_schemaChangeHandling b = [] then None else Some (b_schemaChangeHandling b))"
proof -
  let ?r = "\<lparr>srq_SchemaChangeHandling = (if b_schemaChangeHandling b = [] then None else Some (b_schemaChangeHandling b)),
    srq_Schemas = nonempty_map (schema_Request (b_store b)) (b_schemas b)\<rparr>"
  have r: "schema_request b = Inr ?r" using assms(1) by (simp add: schema_request_def Build_def)
  have "view_request ?r n = payload b n" for n
  proof (cases "glookup (b_schemas b) n")
    case (Some s)
    have "a < length (b_store b)" if "glookup (cs_tables s) t = Some a" for t a
      by (rule alias_invD(2) [OF assms(2), of n t]) (simp add: schema_addr_def Some that)
    from view_schema_Request [OF this] Some show ?thesis by (simp add: view_request_def payload_def)
  qed (simp add: view_request_def payload_def)
  then show ?thesis using r by (auto simp: fun_eq_iff)
qed

text \<open>What goes over the wire is the specification. For every resource and every response of
  the server, with no empty names, the body of the schema request that the SDK makes of the
  builder carries the policy of the resource and, at every schema, table and column, exactly the
  specified payload; objects shared between the two indexes of the builder arrive with all the
  columns added to them.\<close>

lemma schema_request_specified:
  assumes "config_wf c" and "config_named c" and "pred_option response_wf up" and "pred_option response_named up"
  shows "\<exists>r. schema_request (BuildSchemaConfig (Some c) up) = Inr r
    \<and> (\<forall>s. view_request r s = spec_payload (Some c) up s)
    \<and> srq_SchemaChangeHandling r = (if csc_SchemaChangeHandling c = [] then None else Some (csc_SchemaChangeHandling c))"
proof -
  have b: "sch_inv (BuildSchemaConfig (Some c) up)" "payload (BuildSchemaConfig (Some c) up) = spec_payload (Some c) up"
    "b_schemaChangeHandling (BuildSchemaConfig (Some c) up) = csc_SchemaChangeHandling c"
    using BuildSchemaConfig_correct [of "Some c" up] assms by simp_all
  then have "b_err (BuildSchemaConfig (Some c) up) = None" "alias_inv (BuildSchemaConfig (Some c) up)"
    by (simp_all add: sch_inv_def)
  from schema_request_payload [OF this] show ?thesis unfolding b by metis
qed

end
