(* ===== verification/Metadata.thy ===== *)
theory Metadata
  imports Api_Types
begin

text \<open>
  Package kubeutils (annotations, labels, the label predicate of the event filter) and the
  finalizer functions of controller-runtime the controller calls. The annotation and the label
  accessors satisfy one contract, the locale \<open>string_store\<close>, which is interpreted for both.
\<close>

subsection \<open>Annotations and labels\<close>

definition GetAnnotation :: "ObjectMeta \<Rightarrow> string \<Rightarrow> string" where
  "GetAnnotation obj key = (if om_Annotations obj = None then '''' else gstring (om_Annotations obj) key)"

definition SetAnnotation :: "ObjectMeta \<Rightarrow> string \<Rightarrow> string \<Rightarrow> ObjectMeta" where
  "SetAnnotation obj key value =
     (let annotations = (if om_Annotations obj = None then gmake else om_Annotations obj)
      in obj\<lparr>om_Annotations := ginsert key value annotations\<rparr>)"

definition HasAnnotation :: "ObjectMeta \<Rightarrow> string \<Rightarrow> bool" where
  "HasAnnotation obj key = (if om_Annotations obj = None then False else glookup (om_Annotations obj) key \<noteq> None)"

definition RemoveAnnotation :: "ObjectMeta \<Rightarrow> string \<Rightarrow> ObjectMeta" where
  "RemoveAnnotation obj key =
     (if om_Annotations obj \<noteq> None then obj\<lparr>om_Annotations := gdelete key (om_Annotations obj)\<rparr> else obj)"

definition GetLabel :: "ObjectMeta \<Rightarrow> string \<Rightarrow> string" where
  "GetLabel obj key = (if om_Labels obj = None then '''' else gstring (om_Labels obj) key)"

definition SetLabel :: "ObjectMeta \<Rightarrow> string \<Rightarrow> string \<Rightarrow> ObjectMeta" where
  "SetLabel obj key value =
     (let labels = (if om_Labels obj = None then gmake else om_Labels obj)
      in obj\<lparr>om_Labels := ginsert key value labels\<rparr>)"

definition HasLabel :: "ObjectMeta \<Rightarrow> string \<Rightarrow> bool" where
  "HasLabel obj key = (if om_Labels obj = None then False else glookup (om_Labels obj) key \<noteq> None)"

definition RemoveLabel :: "ObjectMeta \<Rightarrow> string \<Rightarrow> ObjectMeta" where
  "RemoveLabel obj key =
     (if om_Labels obj \<noteq> None then obj\<lparr>om_Labels := gdelete key (om_Labels obj)\<rparr> else obj)"

subsection \<open>Finalizers\<close>

definition ContainsFinalizer :: "ObjectMeta \<Rightarrow> string \<Rightarrow> bool" where
  "ContainsFinalizer obj finalizer = list_ex (\<lambda>e. e = finalizer) (om_Finalizers obj)"

definition AddFinalizer :: "ObjectMeta \<Rightarrow> string \<Rightarrow> ObjectMeta" where
  "AddFinalizer obj finalizer =
     (if list_ex (\<lambda>e. e = finalizer) (om_Finalizers obj) then obj
      else obj\<lparr>om_Finalizers := om_Finalizers obj @ [finalizer]\<rparr>)"

definition RemoveFinalizer :: "ObjectMeta \<Rightarrow> string \<Rightarrow> ObjectMeta" where
  "RemoveFinalizer obj finalizer = obj\<lparr>om_Finalizers := filter (\<lambda>e. e \<noteq> finalizer) (om_Finalizers obj)\<rparr>"

subsection \<open>The event filter\<close>

definition ForceReconcileLabel :: string where
  "ForceReconcileLabel = ''operator.dataverse.redhat.com/force-reconcile''"

record UpdateEvent =
  ObjectOld :: "ObjectMeta option"
  ObjectNew :: "ObjectMeta option"

definition LabelKeyChanged_Update :: "string \<Rightarrow> UpdateEvent \<Rightarrow> bool" where
  "LabelKeyChanged_Update LabelKey e =
     (case (ObjectOld e, ObjectNew e) of
        (Some old, Some new) \<Rightarrow>
          (let oldExists = glookup (om_Labels old) LabelKey \<noteq> None;
               newExists = glookup (om_Labels new) LabelKey \<noteq> None
           in if \<not> oldExists \<and> newExists then True else False)
      | _ \<Rightarrow> False)"

definition GenerationChanged_Update :: "UpdateEvent \<Rightarrow> bool" where
  "GenerationChanged_Update e =
     (case (ObjectOld e, ObjectNew e) of
        (Some old, Some new) \<Rightarrow> om_Generation new \<noteq> om_Generation old
      | _ \<Rightarrow> False)"

text \<open>The filter \<open>SetupWithManager\<close> installs: \<open>predicate.Or\<close> of the two predicates on update events.\<close>

definition eventFilter_Update :: "UpdateEvent \<Rightarrow> bool" where
  "eventFilter_Update e = list_ex (\<lambda>p. p e) [GenerationChanged_Update, LabelKeyChanged_Update ForceReconcileLabel]"

subsection \<open>The contract of a string store\<close>

text \<open>
  What the clients of \<open>Get\<close>, \<open>Set\<close>, \<open>Has\<close> and \<open>Remove\<close> rely on, with \<open>rest\<close> for the part of the
  object that no operation touches.
\<close>

locale string_store =
  fixes get :: "'o \<Rightarrow> string \<Rightarrow> string"
    and put :: "'o \<Rightarrow> string \<Rightarrow> string \<Rightarrow> 'o"
    and has :: "'o \<Rightarrow> string \<Rightarrow> bool"
    and remove :: "'o \<Rightarrow> string \<Rightarrow> 'o"
    and rest :: "'o \<Rightarrow> 'r"
  assumes get_put: "get (put obj k v) k' = (if k' = k then v else get obj k')"
    and has_put: "has (put obj k v) k' \<longleftrightarrow> k' = k \<or> has obj k'"
    and get_remove: "get (remove obj k) k' = (if k' = k then '''' else get obj k')"
    and has_remove: "has (remove obj k) k' \<longleftrightarrow> k' \<noteq> k \<and> has obj k'"
    and get_absent: "\<not> has obj k \<Longrightarrow> get obj k = ''''"
    and rest_put: "rest (put obj k v) = rest obj"
    and rest_remove: "rest (remove obj k) = rest obj"
begin

lemma remove_put: "get (remove (put obj k v) k) k' = get (remove obj k) k'"
  by (simp add: get_remove get_put)

lemma get_puts_other: "k \<notin> fst ` set kvs \<Longrightarrow> get (foldl (\<lambda>x (k, v). put x k v) obj kvs) k = get obj k"
  by (induction kvs arbitrary: obj) (auto simp: get_put)

lemma rest_puts: "rest (foldl (\<lambda>x (k, v). put x k v) obj kvs) = rest obj"
  by (induction kvs arbitrary: obj) (auto simp: rest_put)

lemma put_present: "v \<noteq> '''' \<Longrightarrow> get (put obj k v) k \<noteq> '''' \<and> has (put obj k v) k"
  by (simp add: get_put has_put)

end

lemmas kubeutils_defs =
  GetAnnotation_def SetAnnotation_def HasAnnotation_def RemoveAnnotation_def
  GetLabel_def SetLabel_def HasLabel_def RemoveLabel_def

interpretation annotation: string_store GetAnnotation SetAnnotation HasAnnotation RemoveAnnotation
    "\<lambda>x. x\<lparr>om_Annotations := None\<rparr>"
  by unfold_locales (auto simp: kubeutils_defs gstring_def gomap Let_def)

interpretation label: string_store GetLabel SetLabel HasLabel RemoveLabel "\<lambda>x. x\<lparr>om_Labels := None\<rparr>"
  by unfold_locales (auto simp: kubeutils_defs gstring_def gomap Let_def)

text \<open>The operations on one part of the metadata leave the others alone.\<close>

lemma meta_frame [simp]:
  "GetAnnotation (AddFinalizer m f) k = GetAnnotation m k"
  "GetAnnotation (RemoveFinalizer m f) k = GetAnnotation m k"
  "GetAnnotation (RemoveLabel m l) k = GetAnnotation m k"
  "om_Generation (AddFinalizer m f) = om_Generation m"
  "om_Generation (RemoveFinalizer m f) = om_Generation m"
  "om_Generation (RemoveLabel m l) = om_Generation m"
  "om_Generation (SetAnnotation m k v) = om_Generation m"
  "om_Labels (AddFinalizer m f) = om_Labels m"
  "om_Labels (RemoveFinalizer m f) = om_Labels m"
  "om_Labels (SetAnnotation m k v) = om_Labels m"
  by (auto simp: GetAnnotation_def AddFinalizer_def RemoveFinalizer_def RemoveLabel_def SetAnnotation_def Let_def)

subsection \<open>The operator does not wake itself up\<close>

text \<open>C37: The event filter lets an update through exactly when the generation has changed or the
  force label has been added. In particular none of the operator's own metadata updates, a new
  annotation, a finalizer added or removed, the force label taken off, triggers another
  reconciliation.\<close>

theorem eventFilter_ignores_own_updates:
  "(eventFilter_Update \<lparr>ObjectOld = Some old, ObjectNew = Some new\<rparr> \<longleftrightarrow>
      om_Generation new \<noteq> om_Generation old \<or> (\<not> HasLabel old ForceReconcileLabel \<and> HasLabel new ForceReconcileLabel))
   \<and> (\<forall>m \<in> {SetAnnotation old k v, AddFinalizer old f, RemoveFinalizer old f, RemoveLabel old l}.
        \<not> eventFilter_Update \<lparr>ObjectOld = Some old, ObjectNew = Some m\<rparr>)"
proof -
  have iff: "eventFilter_Update \<lparr>ObjectOld = Some old, ObjectNew = Some m\<rparr> \<longleftrightarrow>
      om_Generation m \<noteq> om_Generation old \<or> (\<not> HasLabel old ForceReconcileLabel \<and> HasLabel m ForceReconcileLabel)" for m
    by (auto simp: eventFilter_Update_def GenerationChanged_Update_def LabelKeyChanged_Update_def HasLabel_def Let_def)
  have "HasLabel (SetAnnotation old k v) l' = HasLabel old l'" "HasLabel (AddFinalizer old f) l' = HasLabel old l'"
    "HasLabel (RemoveFinalizer old f) l' = HasLabel old l'" for l' by (simp_all add: HasLabel_def)
  then show ?thesis unfolding iff by (auto simp: label.has_remove)
qed

theorem eventFilter_ignores_own_updates_witness:
  "\<exists>old. \<not> eventFilter_Update \<lparr>ObjectOld = Some old, ObjectNew = Some (SetAnnotation old ''k'' ''v'')\<rparr>"
  using eventFilter_ignores_own_updates by blast

end
