(* ===== verification/Operator_World.thy ===== *)
theory Operator_World
  imports Connector_Service Metadata
begin

text \<open>
  The world of the controller. An action reads and changes a record with the in-memory object
  of the current reconciliation, the vault client of the reconciler and the trace of all calls
  made so far, and returns a value, an error or a panic. Everything outside the operator is the
  environment: the Kubernetes API, the Fivetran API behind the vendored SDK, Vault, the clock,
  the process environment, and the encoders of the standard library. An answer of the
  environment is a function of the calls made before and of the call, so a theorem about every
  environment is a theorem about servers that change between two calls.

  The locale \<open>action_frame\<close> collects the rules by which a relation between the worlds before
  and after a step, kept by every step, is kept by composed actions; it is interpreted for the
  events an action may add to the trace and for the vault client.
\<close>

subsection \<open>Calls\<close>

record SetupTestResponse =
  str_Title :: string
  str_Status :: string
  str_Message :: string
  str_Details :: string

text \<open>The members of the connection responses that the operator reads.\<close>

record ConnectionResponse =
  conr_Common :: CommonResponse
  conr_ID :: string
  conr_GroupID :: string
  conr_Service :: string
  conr_Schema :: string
  conr_SyncState :: string
  conr_SetupTests :: "SetupTestResponse list"

datatype sdk_call =
    ConnectionCreate CreateRequest
  | ConnectionDetails string
  | ConnectionUpdate string UpdateRequest
  | ConnectionDelete string
  | ConnectionSetupTests string bool bool
  | SchemaCreate string SchemaRequest
  | SchemaUpdate string SchemaRequest
  | SchemaDetails string
  | ColumnConfigList string string string
  | SchemaReload string string

record ClientConfig =
  cfg_Address :: string
  cfg_RoleID :: string
  cfg_SecretID :: string
  cfg_MountPath :: string

datatype event =
    Sdk sdk_call
  | KubeGet
  | KubeUpdate FivetranConnector
  | KubeStatusUpdate FivetranConnector
  | KubeSecretGet string string
  | VaultNewClient string
  | VaultLogin ClientConfig
  | VaultLookupSelf
  | VaultRead string string

record VaultClient =
  vc_Client :: bool
  vc_Config :: ClientConfig

text \<open>
  The environment. \<open>e_login\<close> returns whether auth info came back, \<open>e_lookup_self\<close> the data of the
  token or nil, \<open>e_now\<close> the clock. The field VaultClient of the reconciler is shared with the
  reconciliations of other resources that run at the same time: \<open>e_others\<close> is what they have left in
  it, given what this one has seen there last. The last four are functions of the standard library:
  encoding/json on the configuration, on the two parts of the resource, and md5.
\<close>

record env =
  e_connection :: "event list \<Rightarrow> sdk_call \<Rightarrow> ConnectionResponse \<times> goerr option"
  e_schema :: "event list \<Rightarrow> sdk_call \<Rightarrow> SchemaDetailsResponse \<times> goerr option"
  e_columns :: "event list \<Rightarrow> sdk_call \<Rightarrow> ColumnResponse option gomap \<times> goerr option"
  e_get :: "event list \<Rightarrow> goerr + FivetranConnector"
  e_update :: "event list \<Rightarrow> FivetranConnector \<Rightarrow> goerr + FivetranConnector"
  e_status :: "event list \<Rightarrow> FivetranConnector \<Rightarrow> goerr + FivetranConnector"
  e_secret :: "event list \<Rightarrow> string \<Rightarrow> string \<Rightarrow> goerr + string gomap"
  e_new_client :: "event list \<Rightarrow> string \<Rightarrow> goerr option"
  e_approle :: "string \<Rightarrow> string \<Rightarrow> goerr option"
  e_login :: "event list \<Rightarrow> ClientConfig \<Rightarrow> goerr + bool"
  e_lookup_self :: "event list \<Rightarrow> goerr + json gomap option"
  e_kv :: "event list \<Rightarrow> string \<Rightarrow> string \<Rightarrow> goerr + Secret option"
  e_getenv :: "string \<Rightarrow> string"
  e_now :: "event list \<Rightarrow> nat"
  e_others :: "event list \<Rightarrow> VaultClient option \<Rightarrow> VaultClient option"
  e_codec :: codec
  e_marshal_connector :: "Connector \<Rightarrow> goerr + string"
  e_marshal_schemas :: "ConnectorSchemaConfig \<Rightarrow> goerr + string"
  e_md5 :: "string \<Rightarrow> string"

subsection \<open>Actions\<close>

record world =
  w_obj :: FivetranConnector
  w_vault :: "VaultClient option"
  w_trace :: "event list"

type_synonym 'a act = "world \<Rightarrow> 'a res \<times> world"

definition ret :: "'a \<Rightarrow> 'a act" where
  "ret x w = (Ok x, w)"

definition raise :: "goerr \<Rightarrow> 'a act" where
  "raise e w = (Err e, w)"

definition panic :: "string \<Rightarrow> 'a act" where
  "panic m w = (Panic m, w)"

definition bind :: "'a act \<Rightarrow> ('a \<Rightarrow> 'b act) \<Rightarrow> 'b act" where
  "bind a f w =
     (case a w of (Ok x, w') \<Rightarrow> f x w' | (Err e, w') \<Rightarrow> (Err e, w') | (Panic m, w') \<Rightarrow> (Panic m, w'))"

text \<open>\<open>if err := a; err != nil\<close>: the continuation sees the error; a panic is not an error.\<close>

definition attempt :: "'a act \<Rightarrow> (goerr + 'a \<Rightarrow> 'b act) \<Rightarrow> 'b act" where
  "attempt a f w =
     (case a w of (Ok x, w') \<Rightarrow> f (Inr x) w' | (Err e, w') \<Rightarrow> f (Inl e) w' | (Panic m, w') \<Rightarrow> (Panic m, w'))"

definition wrap_err :: "string \<Rightarrow> 'a act \<Rightarrow> 'a act" where
  "wrap_err prefix a = attempt a (\<lambda>r. case r of Inl e \<Rightarrow> raise (Errorf_w prefix e) | Inr x \<Rightarrow> ret x)"

definition get_obj :: "FivetranConnector act" where
  "get_obj w = (Ok (w_obj w), w)"

definition modify_obj :: "(FivetranConnector \<Rightarrow> FivetranConnector) \<Rightarrow> unit act" where
  "modify_obj f w = (Ok (), w\<lparr>w_obj := f (w_obj w)\<rparr>)"

definition log_event :: "event \<Rightarrow> world \<Rightarrow> world" where
  "log_event e w = w\<lparr>w_trace := w_trace w @ [e]\<rparr>"

text \<open>Every read of the field VaultClient sees what the other reconciliations have done to it.\<close>

definition others :: "env \<Rightarrow> world \<Rightarrow> world" where
  "others E w = w\<lparr>w_vault := e_others E (w_trace w) (w_vault w)\<rparr>"

lemma others_simps [simp]:
  "w_obj (others E w) = w_obj w" "w_trace (others E w) = w_trace w" "w_vault (others E w) = e_others E (w_trace w) (w_vault w)"
  by (simp_all add: others_def)

text \<open>\<open>err != nil\<close> on a reply that carries both a response and an error.\<close>

definition check :: "goerr option \<Rightarrow> (goerr \<Rightarrow> goerr) \<Rightarrow> 'a act \<Rightarrow> 'a act" where
  "check err f a = (case err of Some e \<Rightarrow> raise (f e) | None \<Rightarrow> a)"

subsection \<open>Kubernetes\<close>

text \<open>
  \<open>r.Update\<close> and \<open>r.Status().Update\<close> send the in-memory object; on success the client decodes the
  answer of the server into it, on failure it stays as it is.
\<close>

definition kube_update :: "env \<Rightarrow> unit act" where
  "kube_update E w =
     (let w' = log_event (KubeUpdate (w_obj w)) w
      in case e_update E (w_trace w) (w_obj w) of Inl e \<Rightarrow> (Err e, w') | Inr obj \<Rightarrow> (Ok (), w'\<lparr>w_obj := obj\<rparr>))"

definition kube_status_update :: "env \<Rightarrow> unit act" where
  "kube_status_update E w =
     (let w' = log_event (KubeStatusUpdate (w_obj w)) w
      in case e_status E (w_trace w) (w_obj w) of Inl e \<Rightarrow> (Err e, w') | Inr obj \<Rightarrow> (Ok (), w'\<lparr>w_obj := obj\<rparr>))"

definition kube_get :: "env \<Rightarrow> unit act" where
  "kube_get E w =
     (let w' = log_event KubeGet w
      in case e_get E (w_trace w) of Inl e \<Rightarrow> (Err e, w') | Inr obj \<Rightarrow> (Ok (), w'\<lparr>w_obj := obj\<rparr>))"

subsection \<open>The Fivetran services\<close>

text \<open>
  The methods of the services of pkg/fivetran: one call of the SDK, and its error wrapped. The
  response is returned beside the error.
\<close>

definition connection_call :: "env \<Rightarrow> sdk_call \<Rightarrow> (ConnectionResponse \<times> goerr option) act" where
  "connection_call E c w =
     (let (resp, err) = e_connection E (w_trace w) c
      in (Ok (resp, WrapFivetranError (JsonValue (conr_Common resp)) err), log_event (Sdk c) w))"

definition schema_call :: "env \<Rightarrow> sdk_call \<Rightarrow> (SchemaDetailsResponse \<times> goerr option) act" where
  "schema_call E c w =
     (let (resp, err) = e_schema E (w_trace w) c
      in (Ok (resp, WrapFivetranError (JsonValue (sdr_Common resp)) err), log_event (Sdk c) w))"

definition CreateConnection :: "env \<Rightarrow> FConnector \<Rightarrow> (ConnectionResponse \<times> goerr option) act" where
  "CreateConnection E c = connection_call E (ConnectionCreate (CreateConnection_request c))"

definition GetConnection :: "env \<Rightarrow> string \<Rightarrow> (ConnectionResponse \<times> goerr option) act" where
  "GetConnection E connectionID = connection_call E (ConnectionDetails connectionID)"

definition UpdateConnection :: "env \<Rightarrow> string \<Rightarrow> FConnector \<Rightarrow> (ConnectionResponse \<times> goerr option) act" where
  "UpdateConnection E connectionID c = connection_call E (ConnectionUpdate connectionID (UpdateConnection_request c))"

definition DeleteConnection :: "env \<Rightarrow> string \<Rightarrow> (ConnectionResponse \<times> goerr option) act" where
  "DeleteConnection E connectionID = connection_call E (ConnectionDelete connectionID)"

definition RunSetupTests :: "env \<Rightarrow> string \<Rightarrow> bool option \<Rightarrow> bool option \<Rightarrow> (ConnectionResponse \<times> goerr option) act" where
  "RunSetupTests E connectionID trustCertificates trustFingerprints =
     connection_call E (ConnectionSetupTests connectionID (RunSetupTests_trust trustCertificates)
       (RunSetupTests_trust trustFingerprints))"

text \<open>The empty response that accompanies an error of the builder.\<close>

definition empty_details :: SchemaDetailsResponse where
  "empty_details = \<lparr>sdr_Common = \<lparr>cr_Code = '''', cr_Message = ''''\<rparr>, sdr_SchemaChangeHandling = '''', sdr_Schemas = None\<rparr>"

definition CreateSchema :: "env \<Rightarrow> string \<Rightarrow> SchemaBuilder \<Rightarrow> (SchemaDetailsResponse \<times> goerr option) act" where
  "CreateSchema E connectionID builder =
     (case schema_request builder of
        Inl err \<Rightarrow> ret (empty_details, Some err)
      | Inr req \<Rightarrow> schema_call E (SchemaCreate connectionID req))"

definition UpdateSchema :: "env \<Rightarrow> string \<Rightarrow> SchemaBuilder \<Rightarrow> (SchemaDetailsResponse \<times> goerr option) act" where
  "UpdateSchema E connectionID builder =
     (case schema_request builder of
        Inl err \<Rightarrow> ret (empty_details, Some err)
      | Inr req \<Rightarrow> schema_call E (SchemaUpdate connectionID req))"

definition GetSchemaDetails :: "env \<Rightarrow> string \<Rightarrow> (SchemaDetailsResponse \<times> goerr option) act" where
  "GetSchemaDetails E connectionID = schema_call E (SchemaDetails connectionID)"

definition GetColumnConfig :: "env \<Rightarrow> string \<Rightarrow> string \<Rightarrow> string \<Rightarrow> (ColumnResponse option gomap) act" where
  "GetColumnConfig E connectionID schema table w =
     (let c = ColumnConfigList connectionID schema table;
          (columns, err) = e_columns E (w_trace w) c;
          w' = log_event (Sdk c) w
      in case err of
           Some e \<Rightarrow> (Err (Errorf_w (''failed to get column config for '' @ schema @ ''.'' @ table @ '': '') e), w')
         | None \<Rightarrow> (Ok columns, w'))"

definition ReloadSchema :: "env \<Rightarrow> string \<Rightarrow> string \<Rightarrow> (SchemaDetailsResponse \<times> goerr option) act" where
  "ReloadSchema E connectionID excludeMode = schema_call E (SchemaReload connectionID excludeMode)"

subsection \<open>Success and traces\<close>

text \<open>Success of a sequence of actions is success of every one of them.\<close>

lemma bind_Ok: "bind a f w = (Ok x, w') \<longleftrightarrow> (\<exists>y w1. a w = (Ok y, w1) \<and> f y w1 = (Ok x, w'))"
  by (auto simp: bind_def split: prod.split res.split)

lemma wrap_err_Ok: "wrap_err p a w = (Ok x, w') \<longleftrightarrow> a w = (Ok x, w')"
  by (auto simp: wrap_err_def attempt_def ret_def raise_def split: prod.split res.split)

lemma check_Ok: "check err f a w = (Ok x, w') \<longleftrightarrow> err = None \<and> a w = (Ok x, w')"
  by (auto simp: check_def raise_def split: option.split)

lemmas success = bind_Ok wrap_err_Ok check_Ok

lemma WrapFivetranError_None: "WrapFivetranError r err = None \<longleftrightarrow> err = None"
  by (cases err) (simp_all add: WrapFivetranError_Api)

lemma kube_update_trace: "w_trace (snd (kube_update E w)) = w_trace w @ [KubeUpdate (w_obj w)]"
  by (simp add: kube_update_def log_event_def Let_def split: sum.split)

subsection \<open>Frames\<close>

named_theorems frames \<open>the steps that keep a frame\<close>

locale action_frame =
  fixes R :: "world \<Rightarrow> world \<Rightarrow> bool"
  assumes R_refl: "R w w" and R_trans: "R w w' \<Longrightarrow> R w' w'' \<Longrightarrow> R w w''"
begin

definition keeps :: "'a act \<Rightarrow> bool" where
  "keeps a \<longleftrightarrow> (\<forall>w. R w (snd (a w)))"

lemma keepsD: "keeps a \<Longrightarrow> a w = (r, w') \<Longrightarrow> R w w'"
  by (metis keeps_def snd_conv)

lemma keeps_ret: "keeps (ret x)" and keeps_raise: "keeps (raise e)" and keeps_panic: "keeps (panic m)"
  and keeps_get: "keeps get_obj"
  by (simp_all add: keeps_def ret_def raise_def panic_def get_obj_def R_refl)

lemma keeps_bind: "keeps a \<Longrightarrow> (\<And>x. keeps (f x)) \<Longrightarrow> keeps (bind a f)"
  unfolding keeps_def bind_def by (auto split: prod.split res.split) (metis R_trans snd_conv)+

lemma keeps_bind_Ok: "keeps a \<Longrightarrow> (\<And>x w w'. a w = (Ok x, w') \<Longrightarrow> keeps (f x)) \<Longrightarrow> keeps (bind a f)"
  unfolding keeps_def bind_def by (auto split: prod.split res.split) (metis R_trans snd_conv)+

lemma keeps_attempt: "keeps a \<Longrightarrow> (\<And>r. keeps (f r)) \<Longrightarrow> keeps (attempt a f)"
  unfolding keeps_def attempt_def by (auto split: prod.split res.split) (metis R_trans snd_conv)+

text \<open>The same from one world, with what is known of the result of the first action.\<close>

lemma step_bind:
  assumes "R w (snd (a w))" and "\<And>x w'. a w = (Ok x, w') \<Longrightarrow> R w' (snd (f x w'))"
  shows "R w (snd (bind a f w))"
proof (cases "a w")
  case (Pair r w1)
  with assms show ?thesis by (cases r) (auto simp: bind_def intro: R_trans)
qed

lemma step_attempt:
  assumes "R w (snd (a w))" and "\<And>r w'. a w = (Ok r, w') \<Longrightarrow> R w' (snd (f (Inr r) w'))"
    and "\<And>e w'. a w = (Err e, w') \<Longrightarrow> R w' (snd (f (Inl e) w'))"
  shows "R w (snd (attempt a f w))"
proof (cases "a w")
  case (Pair r w1)
  with assms show ?thesis by (cases r) (auto simp: attempt_def intro: R_trans)
qed

lemma step_keeps: "keeps a \<Longrightarrow> R w (snd (a w))"
  by (simp add: keeps_def)

lemma keeps_wrap: "keeps a \<Longrightarrow> keeps (wrap_err p a)"
  unfolding wrap_err_def by (auto intro!: keeps_attempt simp: keeps_raise keeps_ret split: sum.split)

lemma keeps_if: "(c \<Longrightarrow> keeps a) \<Longrightarrow> (\<not> c \<Longrightarrow> keeps b) \<Longrightarrow> keeps (if c then a else b)"
  by simp

lemma keeps_option: "(x = None \<Longrightarrow> keeps a) \<Longrightarrow> (\<And>y. x = Some y \<Longrightarrow> keeps (f y)) \<Longrightarrow>
    keeps (case x of None \<Rightarrow> a | Some y \<Rightarrow> f y)"
  by (cases x) auto

lemma keeps_sum: "(\<And>e. x = Inl e \<Longrightarrow> keeps (f e)) \<Longrightarrow> (\<And>y. x = Inr y \<Longrightarrow> keeps (g y)) \<Longrightarrow>
    keeps (case x of Inl e \<Rightarrow> f e | Inr y \<Rightarrow> g y)"
  by (cases x) auto

lemma keeps_prod: "(\<And>a b. x = (a, b) \<Longrightarrow> keeps (f a b)) \<Longrightarrow> keeps (case x of (a, b) \<Rightarrow> f a b)"
  by (cases x) auto

lemma keeps_check: "keeps a \<Longrightarrow> keeps (check err f a)"
  by (simp add: check_def keeps_raise split: option.split)

lemma keeps_let: "keeps (f x) \<Longrightarrow> keeps (let y = x in f y)"
  by simp

lemmas keeps_rules = keeps_ret keeps_raise keeps_panic keeps_get keeps_bind keeps_attempt keeps_wrap keeps_if
  keeps_option keeps_sum keeps_prod keeps_check keeps_let

end

text \<open>The events an action adds satisfy \<open>P\<close>, and nothing is taken off the trace.\<close>

definition grows :: "(event \<Rightarrow> bool) \<Rightarrow> world \<Rightarrow> world \<Rightarrow> bool" where
  "grows P w w' \<longleftrightarrow> (\<exists>es. w_trace w' = w_trace w @ es \<and> list_all P es)"

lemma growsI: "w_trace w' = w_trace w @ es \<Longrightarrow> list_all P es \<Longrightarrow> grows P w w'"
  by (auto simp: grows_def)

interpretation emit: action_frame "grows P" for P
proof unfold_locales
  show "grows P w w" for w by (rule growsI [of _ _ "[]"]) simp_all
  show "grows P w w''" if "grows P w w'" "grows P w' w''" for w w' w''
    using that by (auto simp: grows_def)
qed

interpretation vault_kept: action_frame "\<lambda>w w'. w_vault w' = w_vault w"
  by unfold_locales simp_all

lemma emit_mono: "emit.keeps P a \<Longrightarrow> (\<And>e. P e \<Longrightarrow> Q e) \<Longrightarrow> emit.keeps Q a"
  by (auto simp: emit.keeps_def grows_def list.pred_mono_strong) (metis list.pred_mono_strong)

lemma grows_log: "P e \<Longrightarrow> grows P w (log_event e w)"
  by (rule growsI [of _ _ "[e]"]) (simp_all add: log_event_def)

lemma emit_modify [frames]: "emit.keeps P (modify_obj f)"
  unfolding emit.keeps_def by (intro allI growsI [of _ _ "[]"]) (simp_all add: modify_obj_def)

lemma emit_kube_update [frames]: "(\<And>x. P (KubeUpdate x)) \<Longrightarrow> emit.keeps P (kube_update E)"
  unfolding emit.keeps_def
  by (intro allI growsI [of _ _ "[KubeUpdate (w_obj w)]" for w])
    (auto simp: kube_update_def log_event_def Let_def split: sum.split)

lemma emit_kube_status [frames]: "(\<And>x. P (KubeStatusUpdate x)) \<Longrightarrow> emit.keeps P (kube_status_update E)"
  unfolding emit.keeps_def
  by (intro allI growsI [of _ _ "[KubeStatusUpdate (w_obj w)]" for w])
    (auto simp: kube_status_update_def log_event_def Let_def split: sum.split)

lemma emit_kube_get [frames]: "P KubeGet \<Longrightarrow> emit.keeps P (kube_get E)"
  unfolding emit.keeps_def
  by (intro allI growsI [of _ _ "[KubeGet]"]) (auto simp: kube_get_def log_event_def Let_def split: sum.split)

lemma emit_connection_call [frames]: "P (Sdk c) \<Longrightarrow> emit.keeps P (connection_call E c)"
  unfolding emit.keeps_def
  by (intro allI growsI [of _ _ "[Sdk c]"]) (auto simp: connection_call_def log_event_def split: prod.split)

lemma emit_schema_call [frames]: "P (Sdk c) \<Longrightarrow> emit.keeps P (schema_call E c)"
  unfolding emit.keeps_def
  by (intro allI growsI [of _ _ "[Sdk c]"]) (auto simp: schema_call_def log_event_def split: prod.split)

lemma emit_GetColumnConfig [frames]: "P (Sdk (ColumnConfigList i s t)) \<Longrightarrow> emit.keeps P (GetColumnConfig E i s t)"
  unfolding emit.keeps_def
  by (intro allI growsI [of _ _ "[Sdk (ColumnConfigList i s t)]"])
    (auto simp: GetColumnConfig_def log_event_def Let_def split: prod.split option.split)

lemmas service_defs = CreateConnection_def GetConnection_def UpdateConnection_def DeleteConnection_def RunSetupTests_def
  CreateSchema_def UpdateSchema_def GetSchemaDetails_def ReloadSchema_def

lemma vault_kept_steps [frames]:
  "vault_kept.keeps (modify_obj f)" "vault_kept.keeps (kube_update E)" "vault_kept.keeps (kube_status_update E)"
  "vault_kept.keeps (kube_get E)" "vault_kept.keeps (connection_call E c)" "vault_kept.keeps (schema_call E c)"
  "vault_kept.keeps (GetColumnConfig E i s t)"
  by (auto simp: vault_kept.keeps_def modify_obj_def kube_update_def kube_status_update_def kube_get_def connection_call_def
      schema_call_def GetColumnConfig_def log_event_def Let_def split: sum.split prod.split option.split)

subsection \<open>An example environment\<close>

text \<open>
  Servers that accept everything: Kubernetes stores what it is sent, Fivetran answers with an
  idle connection and the schema of the demo response, Vault is empty, and the encoders are
  injective enough for the examples of the component theories.
\<close>

definition demo_connection :: ConnectionResponse where
  "demo_connection = \<lparr>conr_Common = \<lparr>cr_Code = ''Success'', cr_Message = []\<rparr>, conr_ID = ''conn1'', conr_GroupID = ''g'',
     conr_Service = ''postgres'', conr_Schema = ''s'', conr_SyncState = ''scheduled'', conr_SetupTests = []\<rparr>"

definition demo_spec :: Connector where
  "demo_spec = \<lparr>sp_GroupID = ''g'', sp_Service = ''postgres'', sp_Auth = None, sp_Config = None, sp_DailySyncTime = [],
     sp_SyncFrequency = 60, sp_ScheduleType = ''auto'', sp_Paused = Some False, sp_RunSetupTests = Some True,
     sp_PauseAfterTrial = None, sp_TrustCertificates = None, sp_TrustFingerprints = None, sp_DataDelaySensitivity = [],
     sp_DataDelayThreshold = 0, sp_NetworkingMethod = [], sp_ProxyAgentID = [], sp_PrivateLinkID = [],
     sp_HybridDeploymentAgentID = []\<rparr>"

definition demo_obj :: FivetranConnector where
  "demo_obj = \<lparr>fc_Meta = \<lparr>om_Name = ''c'', om_Namespace = ''ns'', om_Generation = 1, om_Labels = None, om_Annotations = None,
       om_Finalizers = [], om_DeletionTimestamp = None\<rparr>,
     fc_Spec = \<lparr>spec_Connector = demo_spec, spec_ConnectorSchemas = None\<rparr>,
     fc_Status = \<lparr>st_ConnectorURL = [], st_ConnectorID = [], st_Conditions = None\<rparr>\<rparr>"

definition demo_env :: env where
  "demo_env = \<lparr>e_connection = (\<lambda>h c. (demo_connection, None)), e_schema = (\<lambda>h c. (demo_up, None)),
     e_columns = (\<lambda>h c. (None, None)), e_get = (\<lambda>h. Inr demo_obj), e_update = (\<lambda>h x. Inr x), e_status = (\<lambda>h x. Inr x),
     e_secret = (\<lambda>h n s. Inr (Some [(''address'', ''a''), (''roleId'', ''r''), (''secretId'', ''s''), (''mountPath'', ''m'')])),
     e_new_client = (\<lambda>h a. None), e_approle = (\<lambda>r s. None), e_login = (\<lambda>h c. Inr True),
     e_lookup_self = (\<lambda>h. Inr (Some (Some [(''ttl'', JNumber ''3600'')]))), e_kv = (\<lambda>h m p. Inl (Text ''no such secret'')),
     e_getenv = (\<lambda>n. []), e_now = length, e_others = (\<lambda>h v. v), e_codec = demo_codec, e_marshal_connector = (\<lambda>c. Inr (sp_Service c)),
     e_marshal_schemas = (\<lambda>c. Inr (csc_SchemaChangeHandling c)), e_md5 = (\<lambda>s. s)\<rparr>"

definition demo_world :: world where
  "demo_world = \<lparr>w_obj = demo_obj, w_vault = None, w_trace = []\<rparr>"

end
