(* ===== verification/Status_Mgmt.thy ===== *)
theory Status_Mgmt
  imports Operator_World
begin

text \<open>
  The file status_mgmt.go of the controller: the conditions in the status of the resource and
  what happens to an error: whether the reconciliation is tried again, when, and what the user
  sees.
\<close>

subsection \<open>Constants\<close>

definition fivetranFinalizer :: string where
  "fivetranFinalizer = ''fivetran.dataverse.redhat.com/finalizer''"
definition annotationAllowDeletion :: string where
  "annotationAllowDeletion = ''operator.dataverse.redhat.com/allow-deletion''"
definition annotationForceReconcile :: string where
  "annotationForceReconcile = ''operator.dataverse.redhat.com/force-reconcile''"
definition annotationConnectorHash :: string where
  "annotationConnectorHash = ''operator.dataverse.redhat.com/connector-hash''"
definition annotationSchemaHash :: string where
  "annotationSchemaHash = ''operator.dataverse.redhat.com/schema-hash''"
definition annotationConnectorID :: string where
  "annotationConnectorID = ''operator.dataverse.redhat.com/connector-id''"

definition conditionTypeConnectorReady :: string where "conditionTypeConnectorReady = ''ConnectorReady''"
definition conditionTypeSetupTestReady :: string where "conditionTypeSetupTestReady = ''SetupTestReady''"
definition conditionTypeSchemaReady :: string where "conditionTypeSchemaReady = ''SchemaReady''"

definition ConditionTrue :: string where "ConditionTrue = ''True''"
definition ConditionFalse :: string where "ConditionFalse = ''False''"

definition ConnectorReasonDeletionFailed :: string where "ConnectorReasonDeletionFailed = ''DeletionFailed''"
definition ConnectorReasonFinalizerUpdateFailed :: string where "ConnectorReasonFinalizerUpdateFailed = ''FinalizerUpdateFailed''"
definition ConnectorReasonReconciliationFailed :: string where "ConnectorReasonReconciliationFailed = ''ReconciliationFailed''"
definition ConnectorReasonSuccess :: string where "ConnectorReasonSuccess = ''ReconciledSuccessfully''"
definition ConnectorReasonVaultSecretsResolutionFailed :: string where "ConnectorReasonVaultSecretsResolutionFailed = ''VaultSecretsResolutionFailed''"
definition ConnectorReasonFivetranClientNotInitialized :: string where "ConnectorReasonFivetranClientNotInitialized = ''FivetranClientNotInitialized''"

definition SetupTestsReasonReconciliationFailed :: string where "SetupTestsReasonReconciliationFailed = ''ReconciliationFailed''"
definition SetupTestsReasonReconciliationSuccess :: string where "SetupTestsReasonReconciliationSuccess = ''ReconciledSuccessfully''"
definition SetupTestsReasonReconciliationSuccessWithWarnings :: string where "SetupTestsReasonReconciliationSuccessWithWarnings = ''ReconciledSuccessfullyWithWarnings''"
definition SetupTestsReasonSkipped :: string where "SetupTestsReasonSkipped = ''Skipped''"

definition SchemaReasonReconciliationFailed :: string where "SchemaReasonReconciliationFailed = ''ReconciliationFailed''"
definition SchemaReasonReconciliationSuccess :: string where "SchemaReasonReconciliationSuccess = ''ReconciledSuccessfully''"
definition SchemaReasonSkipped :: string where "SchemaReasonSkipped = ''Skipped''"

definition envFivetranVaultSecretName :: string where "envFivetranVaultSecretName = ''FIVETRAN_VAULT_SECRET_NAME''"
definition defaultVaultSecretName :: string where "defaultVaultSecretName = ''fivetran-vault-secret''"

definition setupTestStatusPassed :: string where "setupTestStatusPassed = ''PASSED''"
definition setupTestStatusSkipped :: string where "setupTestStatusSkipped = ''SKIPPED''"
definition setupTestStatusWarning :: string where "setupTestStatusWarning = ''WARNING''"

definition msgConnectorReady :: string where "msgConnectorReady = ''Connector is ready''"
definition msgSetupTestsCompletedSuccessfully :: string where "msgSetupTestsCompletedSuccessfully = ''Setup tests completed successfully''"
definition msgSetupTestsSkipped :: string where "msgSetupTestsSkipped = ''Setup tests skipped''"
definition msgSchemaReady :: string where "msgSchemaReady = ''Schema configuration is ready''"
definition msgSchemaSkipped :: string where "msgSchemaSkipped = ''No schema configuration specified''"

text \<open>The two format strings, as functions of their argument.\<close>

definition msgSetupTestsWarningsFormat :: "string \<Rightarrow> string" where
  "msgSetupTestsWarningsFormat s = ''Setup tests completed with warnings: '' @ s"
definition fivetranConnectorURL :: "string \<Rightarrow> string" where
  "fivetranConnectorURL s = ''https://fivetran.com/dashboard/connectors/'' @ s"

subsection \<open>Conditions\<close>

text \<open>The loop of setCondition: the first condition of the type is replaced, or one is appended.\<close>

fun put_condition :: "Condition \<Rightarrow> Condition list \<Rightarrow> Condition list" where
  "put_condition c [] = [c]"
| "put_condition c (d # ds) = (if cond_Type d = cond_Type c then c # ds else d # put_condition c ds)"

definition setCondition :: "env \<Rightarrow> string \<Rightarrow> string \<Rightarrow> string \<Rightarrow> string \<Rightarrow> unit act" where
  "setCondition E conditionType status reason message w =
     (let condition = \<lparr>cond_Type = conditionType, cond_Status = status, cond_Reason = reason, cond_Message = message,
                       cond_LastTransitionTime = e_now E (w_trace w)\<rparr>;
          put = (\<lambda>c. c\<lparr>fc_Status := (fc_Status c)\<lparr>st_Conditions :=
                   Some (put_condition condition (case st_Conditions (fc_Status c) of None \<Rightarrow> [] | Some cs \<Rightarrow> cs))\<rparr>\<rparr>)
      in bind (modify_obj put) (\<lambda>_. kube_status_update E) w)"

definition updateSetupTestsCondition :: "env \<Rightarrow> string list \<Rightarrow> unit act" where
  "updateSetupTestsCondition E setupTestWarnings =
     bind get_obj (\<lambda>connector.
       let tests = sp_RunSetupTests (spec_Connector (fc_Spec connector));
           runTests = (tests = None \<or> tests = Some True)
       in if \<not> runTests
          then setCondition E conditionTypeSetupTestReady ConditionTrue SetupTestsReasonSkipped msgSetupTestsSkipped
          else if length setupTestWarnings > 0
          then setCondition E conditionTypeSetupTestReady ConditionTrue SetupTestsReasonReconciliationSuccessWithWarnings
                 (msgSetupTestsWarningsFormat (Join setupTestWarnings ''; ''))
          else setCondition E conditionTypeSetupTestReady ConditionTrue SetupTestsReasonReconciliationSuccess
                 msgSetupTestsCompletedSuccessfully)"

subsection \<open>Errors\<close>

text \<open>The result of a reconciliation: the delay of the next one in seconds (0 for none), and an error.\<close>

record Result =
  RequeueAfter :: nat

definition result :: "nat \<Rightarrow> Result" where
  "result s = \<lparr>RequeueAfter = s\<rparr>"

definition with_result :: "Result \<Rightarrow> unit act \<Rightarrow> (Result \<times> goerr option) act" where
  "with_result res a = attempt a (\<lambda>r. ret (res, case r of Inl e \<Rightarrow> Some e | Inr _ \<Rightarrow> None))"

definition handleError :: "env \<Rightarrow> string \<Rightarrow> string \<Rightarrow> goerr \<Rightarrow> (Result \<times> goerr option) act" where
  "handleError E conditionType reason err =
     (let failed = (\<lambda>msg. setCondition E conditionType ConditionFalse reason msg)
      in if errors_Is err ErrConnectorSyncing then
           attempt (failed (Error err)) (\<lambda>r. case r of
             Inl setErr \<Rightarrow> ret (result 0, Some setErr)
           | Inr _ \<Rightarrow> ret (result 120, None))
         else if errors_Is err ErrSchemaMismatch then with_result (result 0) (failed (Error err))
         else if errors_Is err ErrLockedColumns then with_result (result 0) (failed (Error err))
         else if errors_Is err ErrSetupTestsFailed then
           attempt (setCondition E conditionTypeConnectorReady ConditionTrue ConnectorReasonSuccess msgConnectorReady)
             (\<lambda>r. case r of
                Inl e \<Rightarrow> ret (result 0, Some e)
              | Inr _ \<Rightarrow> with_result (result 0) (failed (Error err)))
         else if errors_Is err ErrConnectorValidationFailed then with_result (result 0) (failed (Error err))
         else case as_VaultError err of
           Some vaultErr \<Rightarrow>
             if VaultError_IsRetryable vaultErr then with_result (result 300) (failed (Error err))
             else with_result (result 0) (failed (Error err))
         | None \<Rightarrow>
           (case as_APIError err of
              Some fivetranErr \<Rightarrow>
                if IsRetryable fivetranErr then with_result (result 300) (failed (APIError_Error fivetranErr))
                else with_result (result 0) (failed (APIError_Error fivetranErr))
            | None \<Rightarrow>
              attempt (failed (Error err)) (\<lambda>r. case r of
                Inl e \<Rightarrow> ret (result 0, Some e)
              | Inr _ \<Rightarrow> ret (result 0, Some err))))"

subsection \<open>Facts about conditions\<close>

definition condition_of :: "string \<Rightarrow> Condition list \<Rightarrow> Condition option" where
  "condition_of t cs = find (\<lambda>c. cond_Type c = t) cs"

lemma condition_of_put: "condition_of t (put_condition c cs) = (if t = cond_Type c then Some c else condition_of t cs)"
  by (induction cs) (auto simp: condition_of_def)

lemma put_condition_types:
  "map cond_Type (put_condition c cs) =
     (if cond_Type c \<in> set (map cond_Type cs) then map cond_Type cs else map cond_Type cs @ [cond_Type c])"
  by (induction cs) auto

definition conditions :: "FivetranConnector \<Rightarrow> Condition list" where
  "conditions c = (case st_Conditions (fc_Status c) of None \<Rightarrow> [] | Some cs \<Rightarrow> cs)"

text \<open>The object setCondition sends.\<close>

definition with_condition :: "Condition \<Rightarrow> FivetranConnector \<Rightarrow> FivetranConnector" where
  "with_condition c obj = obj\<lparr>fc_Status := (fc_Status obj)\<lparr>st_Conditions := Some (put_condition c (conditions obj))\<rparr>\<rparr>"

lemma conditions_with_condition [simp]: "conditions (with_condition c obj) = put_condition c (conditions obj)"
  by (simp add: conditions_def with_condition_def)

lemma setCondition_eq:
  "setCondition E ct status reason message w =
     kube_status_update E (w\<lparr>w_obj := with_condition \<lparr>cond_Type = ct, cond_Status = status, cond_Reason = reason,
        cond_Message = message, cond_LastTransitionTime = e_now E (w_trace w)\<rparr> (w_obj w)\<rparr>)"
  by (simp add: setCondition_def bind_def modify_obj_def with_condition_def conditions_def Let_def)

lemma setCondition_trace:
  "\<exists>c. cond_Type c = ct \<and> cond_Status c = status \<and> cond_Reason c = reason \<and> cond_Message c = message
     \<and> w_trace (snd (setCondition E ct status reason message w)) = w_trace w @ [KubeStatusUpdate (with_condition c (w_obj w))]"
  by (rule exI [of _ "\<lparr>cond_Type = ct, cond_Status = status, cond_Reason = reason,
        cond_Message = message, cond_LastTransitionTime = e_now E (w_trace w)\<rparr>"])
    (simp add: setCondition_eq kube_status_update_def log_event_def Let_def split: sum.split)

lemma emit_setCondition [frames]:
  "(\<And>x. P (KubeStatusUpdate x)) \<Longrightarrow> emit.keeps P (setCondition E ct st r m)"
  unfolding emit.keeps_def using setCondition_trace [of ct st r m E] by (fastforce simp: grows_def)

lemma emit_updateSetupTestsCondition [frames]:
  "(\<And>x. P (KubeStatusUpdate x)) \<Longrightarrow> emit.keeps P (updateSetupTestsCondition E ws)"
  unfolding updateSetupTestsCondition_def by (intro emit.keeps_rules frames)

lemma emit_handleError [frames]:
  assumes "\<And>x. P (KubeStatusUpdate x)"
  shows "emit.keeps P (handleError E ct r err)"
  unfolding handleError_def with_result_def by (intro emit.keeps_rules frames assms)

text \<open>C36: setCondition keeps one condition per type. It makes exactly one call, a status update,
  whose object differs from the one in memory only in the condition of the given type: that
  condition has the given status, reason and message, the condition of every other type is the
  one that was there, types keep their order and no type occurs twice if none did before.\<close>

theorem setCondition_sends:
  "\<exists>obj. w_trace (snd (setCondition E ct status reason message w)) = w_trace w @ [KubeStatusUpdate obj]
     \<and> obj\<lparr>fc_Status := (fc_Status obj)\<lparr>st_Conditions := None\<rparr>\<rparr> =
         (w_obj w)\<lparr>fc_Status := (fc_Status (w_obj w))\<lparr>st_Conditions := None\<rparr>\<rparr>
     \<and> (\<exists>c. condition_of ct (conditions obj) = Some c
           \<and> cond_Status c = status \<and> cond_Reason c = reason \<and> cond_Message c = message)
     \<and> (\<forall>t. t \<noteq> ct \<longrightarrow> condition_of t (conditions obj) = condition_of t (conditions (w_obj w)))
     \<and> (distinct (map cond_Type (conditions (w_obj w))) \<longrightarrow> distinct (map cond_Type (conditions obj)))"
proof -
  obtain c where c: "cond_Type c = ct" "cond_Status c = status" "cond_Reason c = reason" "cond_Message c = message"
    and t: "w_trace (snd (setCondition E ct status reason message w)) = w_trace w @ [KubeStatusUpdate (with_condition c (w_obj w))]"
    using setCondition_trace by blast
  have "(with_condition c (w_obj w))\<lparr>fc_Status := (fc_Status (with_condition c (w_obj w)))\<lparr>st_Conditions := None\<rparr>\<rparr> =
      (w_obj w)\<lparr>fc_Status := (fc_Status (w_obj w))\<lparr>st_Conditions := None\<rparr>\<rparr>"
    by (simp add: with_condition_def)
  then show ?thesis using t c
    by (intro exI [of _ "with_condition c (w_obj w)"]) (auto simp: condition_of_put put_condition_types)
qed

theorem setCondition_sends_witness:
  "\<exists>obj. w_trace (snd (setCondition demo_env ''SchemaReady'' ''True'' ''Skipped'' ''none'' demo_world)) = [KubeStatusUpdate obj]
     \<and> distinct (map cond_Type (conditions obj))"
proof -
  have "distinct (map cond_Type (conditions (w_obj demo_world)))"
    by (simp add: demo_world_def demo_obj_def conditions_def)
  then show ?thesis using setCondition_sends [of demo_env "''SchemaReady''" "''True''" "''Skipped''" "''none''" demo_world]
    by (auto simp: demo_world_def)
qed

subsection \<open>What happens to an error\<close>

definition status_ok :: "env \<Rightarrow> bool" where
  "status_ok E \<longleftrightarrow> (\<forall>h x. \<exists>x'. e_status E h x = Inr x')"

text \<open>The delay of the next reconciliation in seconds and the error that is returned, by the error.\<close>

definition disposition :: "goerr \<Rightarrow> nat \<times> goerr option" where
  "disposition err =
     (if errors_Is err ErrConnectorSyncing then (120, None)
      else if errors_Is err ErrSchemaMismatch \<or> errors_Is err ErrLockedColumns \<or> errors_Is err ErrSetupTestsFailed
        \<or> errors_Is err ErrConnectorValidationFailed then (0, None)
      else case as_VaultError err of
        Some v \<Rightarrow> (if ve_Retryable v then 300 else 0, None)
      | None \<Rightarrow> (case as_APIError err of Some a \<Rightarrow> (if IsRetryable a then 300 else 0, None) | None \<Rightarrow> (0, Some err)))"

text \<open>The last call was a status update that reports the failure.\<close>

definition reports_failure :: "string \<Rightarrow> string \<Rightarrow> world \<Rightarrow> bool" where
  "reports_failure ct reason w \<longleftrightarrow>
     (\<exists>obj c. w_trace w \<noteq> [] \<and> last (w_trace w) = KubeStatusUpdate obj \<and> condition_of ct (conditions obj) = Some c
        \<and> cond_Status c = ConditionFalse \<and> cond_Reason c = reason)"

lemma setCondition_False:
  assumes "setCondition E ct ConditionFalse reason msg w = (r, w')"
  shows "reports_failure ct reason w'"
proof -
  obtain c where "cond_Type c = ct" "cond_Status c = ConditionFalse" "cond_Reason c = reason"
    and "w_trace w' = w_trace w @ [KubeStatusUpdate (with_condition c (w_obj w))]"
    using setCondition_trace [of ct ConditionFalse reason msg E w] assms by auto
  then show ?thesis by (auto simp: reports_failure_def condition_of_put)
qed

lemma setCondition_result:
  obtains (ok) w' where "setCondition E ct st reason msg w = (Ok (), w')"
  | (err) e w' where "setCondition E ct st reason msg w = (Err e, w')" "\<not> status_ok E"
proof -
  have "(\<exists>w'. setCondition E ct st reason msg w = (Ok (), w')) \<or>
      (\<exists>e w'. setCondition E ct st reason msg w = (Err e, w') \<and> \<not> status_ok E)"
    by (auto simp: setCondition_eq kube_status_update_def Let_def status_ok_def split: sum.split) (metis Inl_Inr_False)
  then show ?thesis using that by blast
qed

lemma with_result_setCondition:
  "\<exists>w'. with_result res (setCondition E ct ConditionFalse reason msg) w = (Ok (res, None), w') \<and> reports_failure ct reason w'
    \<or> (\<exists>e. with_result res (setCondition E ct ConditionFalse reason msg) w = (Ok (res, Some e), w') \<and> \<not> status_ok E)"
  by (cases rule: setCondition_result [of E ct ConditionFalse reason msg w])
    (auto simp: with_result_def attempt_def ret_def dest: setCondition_False)

text \<open>Apart from a sync in progress, failed setup tests and unknown errors, one status update is all there is.\<close>

lemma handleError_leaf:
  assumes "\<not> errors_Is err ErrConnectorSyncing" and "\<not> errors_Is err ErrSetupTestsFailed" and "snd (disposition err) = None"
  shows "\<exists>msg. handleError E ct reason err =
    with_result (result (fst (disposition err))) (setCondition E ct ConditionFalse reason msg)"
proof (cases "errors_Is err ErrSchemaMismatch \<or> errors_Is err ErrLockedColumns \<or> errors_Is err ErrConnectorValidationFailed
    \<or> as_VaultError err \<noteq> None")
  case True
  then show ?thesis using assms
    by (intro exI [of _ "Error err"]) (auto simp: handleError_def Let_def disposition_def VaultError_IsRetryable_def split: option.split)
next
  case False
  with assms obtain a where "as_APIError err = Some a" by (auto simp: disposition_def split: option.split_asm)
  with False assms show ?thesis
    by (intro exI [of _ "APIError_Error a"]) (auto simp: handleError_def Let_def disposition_def)
qed

lemma handleError_unknown:
  assumes "snd (disposition err) \<noteq> None"
  shows "disposition err = (0, Some err) \<and> handleError E ct reason err =
     attempt (setCondition E ct ConditionFalse reason (Error err)) (\<lambda>r. case r of
        Inl e \<Rightarrow> ret (result 0, Some e) | Inr _ \<Rightarrow> ret (result 0, Some err))"
  using assms by (auto simp: handleError_def Let_def disposition_def split: option.split_asm if_split_asm)

lemma handleError_outcome:
  "\<exists>w'. handleError E ct reason err w = (Ok (result (fst (disposition err)), snd (disposition err)), w') \<and> reports_failure ct reason w'
    \<or> (\<exists>res e. handleError E ct reason err w = (Ok (res, Some e), w') \<and> \<not> status_ok E)"
proof -
  consider (sync) "errors_Is err ErrConnectorSyncing"
    | (tests) "\<not> errors_Is err ErrConnectorSyncing" "errors_Is err ErrSetupTestsFailed"
    | (leaf) "\<not> errors_Is err ErrConnectorSyncing" "\<not> errors_Is err ErrSetupTestsFailed" "snd (disposition err) = None"
    | (unknown) "snd (disposition err) \<noteq> None" by blast
  then show ?thesis
  proof cases
    case sync
    then show ?thesis
      by (cases rule: setCondition_result [of E ct ConditionFalse reason "Error err" w])
        (auto simp: handleError_def Let_def attempt_def ret_def disposition_def dest: setCondition_False)
  next
    case tests
    show ?thesis
    proof (cases rule: setCondition_result [of E conditionTypeConnectorReady ConditionTrue ConnectorReasonSuccess msgConnectorReady w])
      case (ok w1)
      with tests with_result_setCondition [of "result 0" E ct reason "Error err" w1] with_result_setCondition [of "result 0" E ct reason "Error err" w]
      show ?thesis by (auto simp: handleError_def Let_def attempt_def disposition_def)
    next
      case (err e w1)
      with tests with_result_setCondition [of "result 0" E ct reason "Error err" w]
      show ?thesis by (auto simp: handleError_def Let_def attempt_def ret_def disposition_def)
    qed
  next
    case leaf
    then obtain msg where "handleError E ct reason err =
      with_result (result (fst (disposition err))) (setCondition E ct ConditionFalse reason msg)" using handleError_leaf by blast
    with leaf(3) with_result_setCondition [of "result (fst (disposition err))" E ct reason msg w] show ?thesis by auto
  next
    case unknown
    from handleError_unknown [OF this] show ?thesis
      by (cases rule: setCondition_result [of E ct ConditionFalse reason "Error err" w])
        (auto simp: attempt_def ret_def dest: setCondition_False)
  qed
qed

definition is_status_update :: "event \<Rightarrow> bool" where
  "is_status_update e = (case e of KubeStatusUpdate _ \<Rightarrow> True | _ \<Rightarrow> False)"

lemma is_status_update_simps [simp]: "is_status_update (KubeStatusUpdate x)"
  by (simp add: is_status_update_def)

text \<open>C11: Every error has one disposition. While status updates succeed, handleError makes nothing
  but status updates, the last of which shows the condition as false with the given reason, and
  answers by the class of the error alone: a sync in progress is tried again after two minutes; a
  schema mismatch, locked columns, failed setup tests and a failed adoption are final; vault and
  API errors are tried again after five minutes exactly if they are retryable; every other error
  is returned to the work queue.\<close>

theorem handleError_classifies:
  assumes "status_ok E"
  shows "\<exists>w'. handleError E ct reason err w =
      (Ok (result (fst (disposition err)), snd (disposition err)), w')
    \<and> reports_failure ct reason w' \<and> grows is_status_update w w'"
proof -
  obtain w' where h: "handleError E ct reason err w = (Ok (result (fst (disposition err)), snd (disposition err)), w')"
    and r: "reports_failure ct reason w'" using handleError_outcome [of E ct reason err w] assms by auto
  have "emit.keeps is_status_update (handleError E ct reason err)" by (rule emit_handleError) simp
  from emit.keepsD [OF this h] h r show ?thesis by blast
qed

theorem handleError_classifies_witness:
  "\<exists>w'. handleError demo_env ''SchemaReady'' ''ReconciliationFailed'' (Errorf_w ''reconcileSchema: '' (Sentinel ErrConnectorSyncing)) demo_world =
     (Ok (result 120, None), w')"
proof -
  have "status_ok demo_env" by (simp add: status_ok_def demo_env_def)
  from handleError_classifies [OF this, of "''SchemaReady''" "''ReconciliationFailed''"
      "Errorf_w ''reconcileSchema: '' (Sentinel ErrConnectorSyncing)" demo_world]
  show ?thesis by (auto simp: disposition_def)
qed

end
