(* ===== verification/Vault_Client.thy ===== *)
theory Vault_Client
  imports Operator_World
begin

text \<open>
  Package pkg/vault: the client for Vault, made from the credentials in a Kubernetes secret, and
  the check whether its token is good for the time of a reconciliation.
\<close>

subsection \<open>The operations\<close>

text \<open>\<open>json.Number.Int64\<close>: \<open>strconv.ParseInt\<close> in base 10 with 64 bits.\<close>

definition ParseInt64 :: "string \<Rightarrow> int option" where
  "ParseInt64 s =
     (let neg = (s \<noteq> [] \<and> hd s = CHR ''-'');
          ds = (if s \<noteq> [] \<and> (hd s = CHR ''-'' \<or> hd s = CHR ''+'') then tl s else s);
          i = (if neg then - int (digits_value ds) else int (digits_value ds))
      in if ds = [] \<or> \<not> list_all isDigit ds \<or> i < - (2 ^ 63) \<or> 2 ^ 63 \<le> i then None else Some i)"

definition vault_NewClient :: "env \<Rightarrow> ClientConfig \<Rightarrow> unit act" where
  "vault_NewClient E cfg w =
     (let w1 = log_event (VaultNewClient (cfg_Address cfg)) w
      in case e_new_client E (w_trace w) (cfg_Address cfg) of
           Some err \<Rightarrow> (Err err, w1)
         | None \<Rightarrow>
           (case e_approle E (cfg_RoleID cfg) (cfg_SecretID cfg) of
              Some err \<Rightarrow> (Err err, w1)
            | None \<Rightarrow>
              (let w2 = log_event (VaultLogin cfg) w1
               in case e_login E (w_trace w1) cfg of
                    Inl err \<Rightarrow> (Err err, w2)
                  | Inr authInfo \<Rightarrow>
                    (if \<not> authInfo then (Err (Text ''no auth info was returned after login''), w2) else (Ok (), w2)))))"

definition IsTokenValid :: "env \<Rightarrow> VaultClient option \<Rightarrow> int \<Rightarrow> bool act" where
  "IsTokenValid E vc minTTLSeconds w =
     (case vc of None \<Rightarrow> (Ok False, w)
      | Some c \<Rightarrow>
        (if \<not> vc_Client c then (Ok False, w)
         else
           (let w' = log_event VaultLookupSelf w
            in case e_lookup_self E (w_trace w) of
                 Inl err \<Rightarrow> (Ok False, w')
               | Inr None \<Rightarrow> (Panic ''nil pointer dereference'', w')
               | Inr (Some data) \<Rightarrow>
                 (case glookup data ''ttl'' of
                    None \<Rightarrow> (Ok False, w')
                  | Some ttlRaw \<Rightarrow>
                    (case ttlRaw of
                       JNumber n \<Rightarrow>
                         (case ParseInt64 n of
                            None \<Rightarrow> (Ok False, w')
                          | Some ttlSeconds \<Rightarrow> if ttlSeconds \<le> minTTLSeconds then (Ok False, w') else (Ok True, w'))
                     | _ \<Rightarrow> (Ok False, w'))))))"

definition NewClientConfig :: "string \<Rightarrow> string \<Rightarrow> string \<Rightarrow> string \<Rightarrow> goerr + ClientConfig" where
  "NewClientConfig address roleID secretID mountPath =
     (if address = '''' then Inl (Text ''vault address is required'')
      else if roleID = '''' then Inl (Text ''vault roleID is required'')
      else if secretID = '''' then Inl (Text ''vault secretID is required'')
      else if mountPath = '''' then Inl (Text ''vault mountPath is required'')
      else Inr \<lparr>cfg_Address = address, cfg_RoleID = roleID, cfg_SecretID = secretID, cfg_MountPath = mountPath\<rparr>)"

definition get_secret :: "env \<Rightarrow> string \<Rightarrow> string \<Rightarrow> (string gomap) act" where
  "get_secret E namespace name w =
     (let w' = log_event (KubeSecretGet namespace name) w
      in case e_secret E (w_trace w) namespace name of Inl e \<Rightarrow> (Err e, w') | Inr data \<Rightarrow> (Ok data, w'))"

definition InitializeVaultClientFromSecret :: "env \<Rightarrow> string \<Rightarrow> string \<Rightarrow> VaultClient act" where
  "InitializeVaultClientFromSecret E namespace secretName =
     bind (get_secret E namespace secretName) (\<lambda>data.
       case NewClientConfig (gstring data ''address'') (gstring data ''roleId'') (gstring data ''secretId'') (gstring data ''mountPath'') of
         Inl err \<Rightarrow> raise err
       | Inr vaultConfig \<Rightarrow>
         bind (vault_NewClient E vaultConfig) (\<lambda>_. ret \<lparr>vc_Client = True, vc_Config = vaultConfig\<rparr>))"

subsection \<open>Properties\<close>

lemma ParseInt64_digits:
  assumes "n < 2 ^ 63"
  shows "ParseInt64 (digits n) = Some (int n)"
proof -
  have "hd (digits n) \<noteq> CHR ''-''" "hd (digits n) \<noteq> CHR ''+''"
    using digits_isDigit [of "hd (digits n)" n] by (auto simp: isDigit_def)
  moreover have "list_all isDigit (digits n)" by (auto simp: list_all_iff digits_isDigit)
  moreover have "int n < 2 ^ 63" using assms by (metis of_nat_less_iff of_nat_numeral of_nat_power)
  ultimately show ?thesis by (simp add: ParseInt64_def Let_def)
qed

definition config_complete :: "ClientConfig \<Rightarrow> bool" where
  "config_complete c \<longleftrightarrow> cfg_Address c \<noteq> [] \<and> cfg_RoleID c \<noteq> [] \<and> cfg_SecretID c \<noteq> [] \<and> cfg_MountPath c \<noteq> []"

lemma NewClientConfig_complete: "NewClientConfig a r s m = Inr c \<Longrightarrow> config_complete c"
  by (auto simp: NewClientConfig_def config_complete_def split: if_split_asm)

text \<open>The calls of an initialisation: the secret, then with complete credentials a client and a login.\<close>

definition vault_init_event :: "event \<Rightarrow> bool" where
  "vault_init_event e = (case e of
      KubeSecretGet _ _ \<Rightarrow> True | VaultNewClient a \<Rightarrow> a \<noteq> [] | VaultLogin c \<Rightarrow> config_complete c | _ \<Rightarrow> False)"

lemma emit_get_secret: "P (KubeSecretGet ns n) \<Longrightarrow> emit.keeps P (get_secret E ns n)"
  unfolding emit.keeps_def
  by (intro allI growsI [of _ _ "[KubeSecretGet ns n]"]) (auto simp: get_secret_def log_event_def Let_def split: sum.split)

lemma emit_vault_NewClient:
  assumes "P (VaultNewClient (cfg_Address c))" and "P (VaultLogin c)"
  shows "emit.keeps P (vault_NewClient E c)"
proof -
  let ?a = "VaultNewClient (cfg_Address c)"
  have "w_trace (snd (vault_NewClient E c w)) \<in> {w_trace w @ [?a], w_trace w @ [?a, VaultLogin c]}" for w
    by (auto simp: vault_NewClient_def log_event_def Let_def split: option.split sum.split)
  then have "grows P w (snd (vault_NewClient E c w))" for w
    using assms growsI [of _ w "[?a]" P] growsI [of _ w "[?a, VaultLogin c]" P] by auto
  then show ?thesis by (simp add: emit.keeps_def)
qed

lemma emit_Initialize:
  assumes "\<And>e. vault_init_event e \<Longrightarrow> P e"
  shows "emit.keeps P (InitializeVaultClientFromSecret E ns n)"
proof -
  have "emit.keeps vault_init_event (InitializeVaultClientFromSecret E ns n)"
    unfolding InitializeVaultClientFromSecret_def
    by (intro emit.keeps_rules emit_get_secret emit_vault_NewClient)
      (auto simp: vault_init_event_def dest: NewClientConfig_complete [unfolded config_complete_def]
        intro: NewClientConfig_complete)
  then show ?thesis by (rule emit_mono) (rule assms)
qed

text \<open>C33: The operator never logs in to Vault with incomplete credentials. Whatever the secret
  holds, an initialisation makes no call but the read of the secret, the creation of a client for
  a non-empty address and a login with all four fields set, and a client it returns has all four
  fields set and was accepted by the server.\<close>

theorem InitializeVaultClient_complete:
  "grows vault_init_event w (snd (InitializeVaultClientFromSecret E ns name w))
   \<and> (\<forall>vc. fst (InitializeVaultClientFromSecret E ns name w) = Ok vc \<longrightarrow>
        vc_Client vc \<and> config_complete (vc_Config vc)
        \<and> VaultLogin (vc_Config vc) \<in> set (w_trace (snd (InitializeVaultClientFromSecret E ns name w))))"
proof -
  have "emit.keeps vault_init_event (InitializeVaultClientFromSecret E ns name)" by (rule emit_Initialize)
  then have "grows vault_init_event w (snd (InitializeVaultClientFromSecret E ns name w))" by (simp add: emit.keeps_def)
  moreover have "vc_Client vc \<and> config_complete (vc_Config vc)
        \<and> VaultLogin (vc_Config vc) \<in> set (w_trace (snd (InitializeVaultClientFromSecret E ns name w)))"
    if "fst (InitializeVaultClientFromSecret E ns name w) = Ok vc" for vc
    using that
    by (auto simp: InitializeVaultClientFromSecret_def bind_def raise_def ret_def vault_NewClient_def log_event_def Let_def
        intro: NewClientConfig_complete split: prod.split_asm res.split_asm sum.split_asm option.split_asm if_split_asm)
  ultimately show ?thesis by blast
qed

theorem InitializeVaultClient_complete_witness:
  "\<exists>vc. fst (InitializeVaultClientFromSecret demo_env ''ns'' ''sec'' demo_world) = Ok vc \<and> config_complete (vc_Config vc)"
proof -
  have "\<exists>vc. fst (InitializeVaultClientFromSecret demo_env ''ns'' ''sec'' demo_world) = Ok vc"
    by (simp add: InitializeVaultClientFromSecret_def bind_def ret_def get_secret_def vault_NewClient_def NewClientConfig_def
        demo_env_def gstring_def glookup_def Let_def)
  then show ?thesis using InitializeVaultClient_complete [of demo_world demo_env "''ns''" "''sec''"] by blast
qed

text \<open>The token check is exact: a token counts as valid exactly if there is a client, Vault
  answers the lookup, and the answer holds a 64-bit number of seconds to live above the minimum;
  an outage, a missing or malformed entry and a token about to expire all count as invalid.\<close>

lemma IsTokenValid_iff:
  "fst (IsTokenValid E vc minTTL w) = Ok True \<longleftrightarrow>
     (\<exists>c data n ttl. vc = Some c \<and> vc_Client c \<and> e_lookup_self E (w_trace w) = Inr (Some data)
        \<and> glookup data ''ttl'' = Some (JNumber n) \<and> ParseInt64 n = Some ttl \<and> minTTL < ttl)"
  by (auto simp: IsTokenValid_def Let_def split: option.split sum.split json.split)

end
