(* ===== verification/Controller_Utils.thy ===== *)
theory Controller_Utils
  imports Status_Mgmt Vault_Client
begin

text \<open>
  The file utils.go of the controller: the finalizer, the decision what has to be reconciled, the
  resolution of the secrets of a resource, its conversion for the SDK, and the hashes that record
  what was applied last.
\<close>

subsection \<open>Decisions\<close>

definition ensureFinalizer :: "env \<Rightarrow> unit act" where
  "ensureFinalizer E =
     bind get_obj (\<lambda>connector.
       if \<not> ContainsFinalizer (fc_Meta connector) fivetranFinalizer
       then bind (modify_obj (\<lambda>c. c\<lparr>fc_Meta := AddFinalizer (fc_Meta c) fivetranFinalizer\<rparr>)) (\<lambda>_. kube_update E)
       else ret ())"

definition hasSchemaConfig :: "FivetranConnector \<Rightarrow> bool" where
  "hasSchemaConfig connector =
     (case spec_ConnectorSchemas (fc_Spec connector) of None \<Rightarrow> False
      | Some c \<Rightarrow> glen (csc_Schemas c) > 0 \<or> csc_SchemaChangeHandling c \<noteq> '''')"

definition hasFailedConditions :: "FivetranConnector \<Rightarrow> bool" where
  "hasFailedConditions connector =
     (case st_Conditions (fc_Status connector) of None \<Rightarrow> False
      | Some cs \<Rightarrow> list_ex (\<lambda>c. cond_Status c = ConditionFalse) cs)"

definition isConditionFalse :: "FivetranConnector \<Rightarrow> string \<Rightarrow> bool" where
  "isConditionFalse connector conditionType =
     list_ex (\<lambda>c. cond_Type c = conditionType \<and> cond_Status c = ConditionFalse)
       (case st_Conditions (fc_Status connector) of None \<Rightarrow> [] | Some cs \<Rightarrow> cs)"

text \<open>\<open>fmt.Sprintf("%x", md5.Sum(bytes))\<close>.\<close>

definition hex_string :: "string \<Rightarrow> string" where
  "hex_string bytes = concat (map (\<lambda>c. [hex_digit (of_char c div 16), hex_digit (of_char c mod 16)]) bytes)"

definition calculateConnectorHash :: "env \<Rightarrow> FivetranConnector \<Rightarrow> goerr + string" where
  "calculateConnectorHash E connector =
     (case e_marshal_connector E (spec_Connector (fc_Spec connector)) of
        Inl err \<Rightarrow> Inl err | Inr bytes \<Rightarrow> Inr (hex_string (e_md5 E bytes)))"

definition calculateSchemaHash :: "env \<Rightarrow> FivetranConnector \<Rightarrow> goerr + string" where
  "calculateSchemaHash E connector =
     (case spec_ConnectorSchemas (fc_Spec connector) of None \<Rightarrow> Inr ''''
      | Some c \<Rightarrow> (case e_marshal_schemas E c of Inl err \<Rightarrow> Inl err | Inr bytes \<Rightarrow> Inr (hex_string (e_md5 E bytes))))"

definition hasConnectorHashChanged :: "env \<Rightarrow> FivetranConnector \<Rightarrow> goerr + bool" where
  "hasConnectorHashChanged E connector =
     (if st_ConnectorID (fc_Status connector) = '''' then Inr True
      else case calculateConnectorHash E connector of
        Inl err \<Rightarrow> Inl (Errorf_w ''hasConnectorHashChanged: '' err)
      | Inr currentConnectorHash \<Rightarrow> Inr (currentConnectorHash \<noteq> GetAnnotation (fc_Meta connector) annotationConnectorHash))"

definition hasSchemaHashChanged :: "env \<Rightarrow> FivetranConnector \<Rightarrow> goerr + bool" where
  "hasSchemaHashChanged E connector =
     (if \<not> hasSchemaConfig connector then Inr False
      else if st_ConnectorID (fc_Status connector) = '''' then Inr True
      else case calculateSchemaHash E connector of
        Inl err \<Rightarrow> Inl (Errorf_w ''hasSchemaHashChanged: '' err)
      | Inr currentSchemaHash \<Rightarrow> Inr (currentSchemaHash \<noteq> GetAnnotation (fc_Meta connector) annotationSchemaHash))"

text \<open>The pair is (reconcileConnector, reconcileSchema).\<close>

definition determineReconciliationNeeds :: "env \<Rightarrow> FivetranConnector \<Rightarrow> bool \<Rightarrow> goerr + (bool \<times> bool)" where
  "determineReconciliationNeeds E connector forceReconcile =
     (if forceReconcile then Inr (True, hasSchemaConfig connector)
      else if hasFailedConditions connector then
        (let connectorFailed = isConditionFalse connector conditionTypeConnectorReady;
             setupTestFailed = isConditionFalse connector conditionTypeSetupTestReady;
             schemaFailed = isConditionFalse connector conditionTypeSchemaReady
         in Inr (connectorFailed \<or> setupTestFailed, schemaFailed))
      else case hasConnectorHashChanged E connector of
        Inl err \<Rightarrow> Inl err
      | Inr connectorHashChanged \<Rightarrow>
        (case hasSchemaHashChanged E connector of
           Inl err \<Rightarrow> Inl err
         | Inr schemaHashChanged \<Rightarrow> Inr (connectorHashChanged, schemaHashChanged)))"

definition cleanupAnnotationsAndLabels :: "env \<Rightarrow> unit act" where
  "cleanupAnnotationsAndLabels E =
     bind get_obj (\<lambda>connector.
       if HasLabel (fc_Meta connector) annotationForceReconcile
       then bind (modify_obj (\<lambda>c. c\<lparr>fc_Meta := RemoveLabel (fc_Meta c) annotationForceReconcile\<rparr>)) (\<lambda>_. kube_update E)
       else ret ())"

subsection \<open>Secrets\<close>

text \<open>
  \<open>vault.ResolveSecrets\<close> on a deep copy of a configuration, against the store of the current vault
  client; the reads go to the trace. A read without a client, or with one whose connection was never
  made, dereferences nil.
\<close>

definition usable_client :: "VaultClient option \<Rightarrow> VaultClient option" where
  "usable_client vc = (case vc of None \<Rightarrow> None | Some c \<Rightarrow> if vc_Client c then Some c else None)"

definition resolve_raw :: "env \<Rightarrow> RawExtension option \<Rightarrow> (goerr option \<times> RawExtension option) act" where
  "resolve_raw E raw w =
     (let w1 = others E w
      in case usable_client (w_vault w1) of
           None \<Rightarrow>
             (case ResolveSecrets (e_codec E) (\<lambda>_ _. Inl (Text '''')) raw [] of (err, raw', reads) \<Rightarrow>
                if reads \<noteq> [] then (Panic ''nil pointer dereference'', w1) else (Ok (err, raw'), w1))
         | Some vc \<Rightarrow>
             (let mount = cfg_MountPath (vc_Config vc);
                  kv = (\<lambda>reads path. e_kv E (w_trace w1 @ map (VaultRead mount) reads) mount path)
              in case ResolveSecrets (e_codec E) kv raw [] of (err, raw', reads) \<Rightarrow>
                   (Ok (err, raw'), w1\<lparr>w_trace := w_trace w1 @ map (VaultRead mount) reads\<rparr>)))"

definition resolve_part :: "env \<Rightarrow> string \<Rightarrow> RawExtension option \<Rightarrow> (RawExtension option \<times> goerr list) act" where
  "resolve_part E what raw =
     (case raw of None \<Rightarrow> ret (None, [])
      | Some _ \<Rightarrow> bind (resolve_raw E raw) (\<lambda>(err, copy).
          case err of
            Some e \<Rightarrow> ret (None, [Errorf_w (''resolveSecrets: '' @ what @ '' secrets: '') e])
          | None \<Rightarrow> ret (copy, [])))"

definition resolveSecrets :: "env \<Rightarrow> (RawExtension option \<times> RawExtension option) act" where
  "resolveSecrets E =
     bind get_obj (\<lambda>connector.
     bind (resolve_part E ''config'' (sp_Config (spec_Connector (fc_Spec connector)))) (\<lambda>(resolvedConfig, errs1).
     bind (resolve_part E ''auth'' (sp_Auth (spec_Connector (fc_Spec connector)))) (\<lambda>(resolvedAuth, errs2).
       if length (errs1 @ errs2) > 0 then raise (Joined (errs1 @ errs2)) else ret (resolvedConfig, resolvedAuth))))"

subsection \<open>The connector of the SDK\<close>

text \<open>Decoding into a map: null gives the nil map, any other value but an object is an error.\<close>

definition json_kind :: "json \<Rightarrow> string" where
  "json_kind j = (case j of JNull \<Rightarrow> ''null'' | JBool _ \<Rightarrow> ''bool'' | JNumber _ \<Rightarrow> ''number'' | JString _ \<Rightarrow> ''string''
     | JArray _ \<Rightarrow> ''array'' | JObject _ \<Rightarrow> ''object'')"

definition UnmarshalMap :: "codec \<Rightarrow> string \<Rightarrow> goerr + json gomap" where
  "UnmarshalMap cd raw =
     (case Unmarshal cd raw of
        Inl err \<Rightarrow> Inl err
      | Inr (JObject m) \<Rightarrow> Inr (Some m)
      | Inr JNull \<Rightarrow> Inr None
      | Inr j \<Rightarrow> Inl (Text (''json: cannot unmarshal '' @ json_kind j @ '' into Go value of type map[string]interface {}'')))"

definition decode_raw :: "codec \<Rightarrow> string \<Rightarrow> RawExtension option \<Rightarrow> goerr + json gomap" where
  "decode_raw cd what raw =
     (case Option.bind raw Raw of
        None \<Rightarrow> Inr None
      | Some bytes \<Rightarrow>
        (if length bytes > 0
         then (case UnmarshalMap cd bytes of
                 Inl err \<Rightarrow> Inl (Errorf_w (''toFivetranConnector: failed to unmarshal '' @ what @ '': '') err)
               | Inr m \<Rightarrow> Inr m)
         else Inr None))"

definition toFivetranConnector ::
  "env \<Rightarrow> FivetranConnector \<Rightarrow> RawExtension option \<Rightarrow> RawExtension option \<Rightarrow> goerr + FConnector" where
  "toFivetranConnector E connector resolvedConfig resolvedAuth =
     (case decode_raw (e_codec E) ''config'' resolvedConfig of
        Inl err \<Rightarrow> Inl err
      | Inr config \<Rightarrow>
        (case decode_raw (e_codec E) ''auth'' resolvedAuth of
           Inl err \<Rightarrow> Inl err
         | Inr auth \<Rightarrow>
           (let c = spec_Connector (fc_Spec connector)
            in Inr \<lparr>f_Service = sp_Service c, f_Config = Some config, f_Auth = Some auth, f_Paused = sp_Paused c,
                 f_GroupID = sp_GroupID c, f_SyncFrequency = sp_SyncFrequency c, f_DailySyncTime = sp_DailySyncTime c,
                 f_RunSetupTests = sp_RunSetupTests c, f_ScheduleType = sp_ScheduleType c,
                 f_PauseAfterTrial = sp_PauseAfterTrial c, f_TrustCertificates = sp_TrustCertificates c,
                 f_TrustFingerprints = sp_TrustFingerprints c, f_DataDelaySensitivity = sp_DataDelaySensitivity c,
                 f_DataDelayThreshold = sp_DataDelayThreshold c, f_NetworkingMethod = sp_NetworkingMethod c,
                 f_ProxyAgentID = sp_ProxyAgentID c, f_PrivateLinkID = sp_PrivateLinkID c,
                 f_HybridDeploymentAgentID = sp_HybridDeploymentAgentID c\<rparr>)))"

subsection \<open>Frames\<close>

lemma emit_ensureFinalizer [frames]: "(\<And>x. P (KubeUpdate x)) \<Longrightarrow> emit.keeps P (ensureFinalizer E)"
  unfolding ensureFinalizer_def by (intro emit.keeps_rules frames)

lemma emit_cleanup [frames]: "(\<And>x. P (KubeUpdate x)) \<Longrightarrow> emit.keeps P (cleanupAnnotationsAndLabels E)"
  unfolding cleanupAnnotationsAndLabels_def by (intro emit.keeps_rules frames)

lemma emit_resolve_raw [frames]:
  assumes "\<And>m p. P (VaultRead m p)"
  shows "emit.keeps P (resolve_raw E raw)"
  unfolding emit.keeps_def
proof
  fix w
  have "list_all P (map (VaultRead m) reads)" for m reads using assms by (simp add: list_all_iff)
  then show "grows P w (snd (resolve_raw E raw w))"
    by (auto simp: resolve_raw_def grows_def Let_def split: option.split prod.split)
qed

lemma emit_resolveSecrets [frames]:
  assumes "\<And>m p. P (VaultRead m p)"
  shows "emit.keeps P (resolveSecrets E)"
  unfolding resolveSecrets_def resolve_part_def by (intro emit.keeps_rules frames assms)

end
