(* ===== verification/Connector_Ops.thy ===== *)
theory Connector_Ops
  imports Controller_Utils
begin

text \<open>
  The files connector_ops.go and setup_tests.go of the controller: creation, update and adoption
  of the Fivetran connection of a resource, the record of its identifier, and the setup tests.
\<close>

subsection \<open>Create and update\<close>

definition createConnector :: "env \<Rightarrow> RawExtension option \<Rightarrow> RawExtension option \<Rightarrow> string act" where
  "createConnector E resolvedConfig resolvedAuth =
     bind get_obj (\<lambda>connector.
       case toFivetranConnector E connector resolvedConfig resolvedAuth of
         Inl err \<Rightarrow> raise err
       | Inr fivetranConnector \<Rightarrow>
         bind (CreateConnection E (fivetranConnector\<lparr>f_Paused := Some True\<rparr>)) (\<lambda>(resp, err).
           check err id (ret (conr_ID resp))))"

definition updateConnector :: "env \<Rightarrow> string \<Rightarrow> RawExtension option \<Rightarrow> RawExtension option \<Rightarrow> unit act" where
  "updateConnector E connectorID resolvedConfig resolvedAuth =
     bind get_obj (\<lambda>connector.
       case toFivetranConnector E connector resolvedConfig resolvedAuth of
         Inl err \<Rightarrow> raise err
       | Inr fivetranConnector \<Rightarrow>
         bind (UpdateConnection E connectorID fivetranConnector) (\<lambda>(resp, err). check err id (ret ())))"

definition setConnectorID :: "env \<Rightarrow> string \<Rightarrow> unit act" where
  "setConnectorID E connectorID =
     bind (modify_obj (\<lambda>c. c\<lparr>fc_Status := (fc_Status c)\<lparr>st_ConnectorID := connectorID,
             st_ConnectorURL := fivetranConnectorURL connectorID\<rparr>\<rparr>)) (\<lambda>_.
     bind (kube_status_update E) (\<lambda>_.
     bind (modify_obj (\<lambda>c. c\<lparr>fc_Meta := SetAnnotation (fc_Meta c) annotationConnectorID connectorID\<rparr>)) (\<lambda>_.
     kube_update E)))"

definition updateConnectorHash :: "env \<Rightarrow> unit act" where
  "updateConnectorHash E =
     bind get_obj (\<lambda>connector.
       case calculateConnectorHash E connector of
         Inl err \<Rightarrow> raise err
       | Inr hash \<Rightarrow>
         bind (modify_obj (\<lambda>c. c\<lparr>fc_Meta := SetAnnotation (fc_Meta c) annotationConnectorHash hash\<rparr>)) (\<lambda>_. kube_update E))"

subsection \<open>Adoption\<close>

text \<open>The tests \<open>v, ok := m[k].(string); ok && v != ""\<close> on the decoded configuration.\<close>

definition text_at :: "json gomap \<Rightarrow> string \<Rightarrow> string option" where
  "text_at m k = (case glookup m k of Some (JString s) \<Rightarrow> if s \<noteq> '''' then Some s else None | _ \<Rightarrow> None)"

text \<open>
  The schema name the configuration leads to expect. The entry \<open>table_group_name\<close> is compared with
  the empty string as an interface value and then asserted to be a string, which panics for a
  value of any other type, null included.
\<close>

definition schema_with_suffix :: "json gomap \<Rightarrow> string \<Rightarrow> string res" where
  "schema_with_suffix connectorConfig schema =
     (let base = (case text_at connectorConfig ''table'' of Some table \<Rightarrow> schema @ ''.'' @ table | None \<Rightarrow> schema)
      in case glookup connectorConfig ''table_group_name'' of
           None \<Rightarrow> Ok base
         | Some tablegroupname \<Rightarrow>
           (if tablegroupname \<noteq> JString ''''
            then (case tablegroupname of
                    JString name \<Rightarrow> Ok (schema @ ''.'' @ name)
                  | _ \<Rightarrow> Panic ''interface conversion: interface {} is not string'')
            else Ok base))"

definition expectedSchema :: "json gomap \<Rightarrow> string res" where
  "expectedSchema connectorConfig =
     (case text_at connectorConfig ''schema_prefix'' of
        Some prefix \<Rightarrow> Ok prefix
      | None \<Rightarrow>
        (case text_at connectorConfig ''schema'' of
           Some schema \<Rightarrow> schema_with_suffix connectorConfig schema
         | None \<Rightarrow> Ok ''''))"

definition quoted :: "string \<Rightarrow> string" where
  "quoted s = [CHR 0x27] @ s @ [CHR 0x27]"

definition validateSchema :: "env \<Rightarrow> FivetranConnector \<Rightarrow> ConnectionResponse \<Rightarrow> unit act" where
  "validateSchema E connector existing =
     (case sp_Config (spec_Connector (fc_Spec connector)) of
        None \<Rightarrow> ret ()
      | Some config \<Rightarrow>
        (case UnmarshalMap (e_codec E) (case Raw config of None \<Rightarrow> '''' | Some bytes \<Rightarrow> bytes) of
           Inl err \<Rightarrow> raise (Errorf_w ''handleConnectorFromAnnotation: failed to unmarshal config: '' err)
         | Inr connectorConfig \<Rightarrow>
           (case expectedSchema connectorConfig of
              Panic m \<Rightarrow> panic m
            | Err e \<Rightarrow> raise e
            | Ok expected \<Rightarrow>
              (if expected \<noteq> '''' \<and> expected \<noteq> conr_Schema existing
               then raise (Text (''handleConnectorFromAnnotation: schema mismatch: expected '' @ quoted expected
                      @ '', got '' @ quoted (conr_Schema existing)))
               else ret ()))))"

definition validateExisting :: "env \<Rightarrow> FivetranConnector \<Rightarrow> ConnectionResponse \<Rightarrow> unit act" where
  "validateExisting E connector existing =
     (if sp_Service (spec_Connector (fc_Spec connector)) \<noteq> conr_Service existing
      then raise (Text (''handleConnectorFromAnnotation: service mismatch: spec has ''
             @ quoted (sp_Service (spec_Connector (fc_Spec connector))) @ '', existing connector has '' @ quoted (conr_Service existing)))
      else if sp_GroupID (spec_Connector (fc_Spec connector)) \<noteq> conr_GroupID existing
      then raise (Text (''handleConnectorFromAnnotation: group_id mismatch: spec has ''
             @ quoted (sp_GroupID (spec_Connector (fc_Spec connector))) @ '', existing connector has '' @ quoted (conr_GroupID existing)))
      else validateSchema E connector existing)"

definition handleConnectorFromAnnotation :: "env \<Rightarrow> string \<Rightarrow> unit act" where
  "handleConnectorFromAnnotation E connectorID =
     bind get_obj (\<lambda>connector.
     bind (GetConnection E connectorID) (\<lambda>(existing, err).
       check err (Errorf_w (''handleConnectorFromAnnotation: failed to get existing connector '' @ connectorID @ '': ''))
         (bind (validateExisting E connector existing) (\<lambda>_. setConnectorID E connectorID))))"

subsection \<open>Reconciliation of the connector\<close>

definition adopt :: "env \<Rightarrow> string \<Rightarrow> unit act" where
  "adopt E connectorID =
     attempt (handleConnectorFromAnnotation E connectorID) (\<lambda>r. case r of
       Inl err \<Rightarrow> raise (Wrapped (sentinel_text ErrConnectorValidationFailed @ '': ID '' @ connectorID @ '', details: '' @ Error err)
                    [Sentinel ErrConnectorValidationFailed])
     | Inr _ \<Rightarrow> ret ())"

definition connector_identity :: "env \<Rightarrow> RawExtension option \<Rightarrow> RawExtension option \<Rightarrow> string act" where
  "connector_identity E resolvedConfig resolvedAuth =
     bind get_obj (\<lambda>connector.
       let statusID = st_ConnectorID (fc_Status connector);
           connectorIDFromAnnotation = GetAnnotation (fc_Meta connector) annotationConnectorID
       in if statusID \<noteq> ''''
          then bind (updateConnector E statusID resolvedConfig resolvedAuth) (\<lambda>_. ret statusID)
          else if connectorIDFromAnnotation \<noteq> ''''
          then bind (adopt E connectorIDFromAnnotation) (\<lambda>_.
               bind (updateConnector E connectorIDFromAnnotation resolvedConfig resolvedAuth) (\<lambda>_. ret connectorIDFromAnnotation))
          else bind (createConnector E resolvedConfig resolvedAuth) (\<lambda>connectorID.
               bind (setConnectorID E connectorID) (\<lambda>_. ret connectorID)))"

definition reconcileConnector :: "env \<Rightarrow> RawExtension option \<Rightarrow> RawExtension option \<Rightarrow> string act" where
  "reconcileConnector E resolvedConfig resolvedAuth =
     bind (connector_identity E resolvedConfig resolvedAuth) (\<lambda>connectorID.
     bind (updateConnectorHash E) (\<lambda>_.
     bind (setCondition E conditionTypeConnectorReady ConditionTrue ConnectorReasonSuccess msgConnectorReady) (\<lambda>_.
     ret connectorID)))"

subsection \<open>Setup tests\<close>

definition test_warnings :: "SetupTestResponse list \<Rightarrow> string list" where
  "test_warnings tests = map (\<lambda>t. str_Title t @ '': '' @ str_Message t) (filter (\<lambda>t. str_Status t = setupTestStatusWarning) tests)"

definition test_errors :: "SetupTestResponse list \<Rightarrow> goerr list" where
  "test_errors tests =
     map (\<lambda>t. Text (''reconcileSetupTests failed: '' @ str_Title t @ '' (status: '' @ str_Status t @ '') - '' @ str_Message t))
       (filter (\<lambda>t. str_Status t \<noteq> setupTestStatusWarning \<and> str_Status t \<noteq> setupTestStatusPassed \<and> str_Status t \<noteq> setupTestStatusSkipped) tests)"

definition reconcileSetupTests :: "env \<Rightarrow> string \<Rightarrow> (string list) act" where
  "reconcileSetupTests E connectorID =
     bind get_obj (\<lambda>connector.
       let spec = spec_Connector (fc_Spec connector);
           runTests = (case sp_RunSetupTests spec of None \<Rightarrow> True | Some b \<Rightarrow> b)
       in if \<not> runTests then bind (updateSetupTestsCondition E []) (\<lambda>_. ret [])
          else
            bind (RunSetupTests E connectorID (sp_TrustCertificates spec) (sp_TrustFingerprints spec)) (\<lambda>(resp, err).
              check err (Errorf_w ''reconcileSetupTests: '')
                (let warningMessages = test_warnings (conr_SetupTests resp);
                     setupTestErrors = test_errors (conr_SetupTests resp)
                 in if length setupTestErrors > 0
                    then raise (Wrapped (sentinel_text ErrSetupTestsFailed @ '': '' @ Error (Joined setupTestErrors)) [Sentinel ErrSetupTestsFailed])
                    else bind (updateSetupTestsCondition E warningMessages) (\<lambda>_. ret warningMessages))))"

subsection \<open>Frames\<close>

text \<open>The calls of each operation.\<close>

lemma emit_createConnector [frames]:
  "(\<And>r. crq_paused r = Some True \<Longrightarrow> crq_runSetupTests r = Some False \<Longrightarrow> P (Sdk (ConnectionCreate r))) \<Longrightarrow>
     emit.keeps P (createConnector E rc ra)"
  unfolding createConnector_def service_defs
  by (intro emit.keeps_rules frames) (simp add: CreateConnection_request_def)

lemma emit_updateConnector [frames]:
  "(\<And>r. P (Sdk (ConnectionUpdate i r))) \<Longrightarrow> emit.keeps P (updateConnector E i rc ra)"
  unfolding updateConnector_def service_defs by (intro emit.keeps_rules frames)

lemma emit_setConnectorID [frames]:
  "(\<And>x. P (KubeStatusUpdate x)) \<Longrightarrow> (\<And>x. P (KubeUpdate x)) \<Longrightarrow> emit.keeps P (setConnectorID E i)"
  unfolding setConnectorID_def by (intro emit.keeps_rules frames)

lemma emit_updateConnectorHash [frames]: "(\<And>x. P (KubeUpdate x)) \<Longrightarrow> emit.keeps P (updateConnectorHash E)"
  unfolding updateConnectorHash_def by (intro emit.keeps_rules frames)

lemma validateExisting_world: "snd (validateExisting E c x w) = w"
  by (simp add: validateExisting_def validateSchema_def ret_def raise_def panic_def split: option.split sum.split res.split)

lemma emit_validateExisting [frames]: "emit.keeps P (validateExisting E c x)"
  by (simp add: emit.keeps_def validateExisting_world emit.R_refl)

lemma emit_adopt [frames]:
  assumes "P (Sdk (ConnectionDetails i))" and "\<And>x. P (KubeStatusUpdate x)" and "\<And>x. P (KubeUpdate x)"
  shows "emit.keeps P (adopt E i)"
  unfolding adopt_def handleConnectorFromAnnotation_def service_defs by (intro emit.keeps_rules frames assms)

lemma emit_reconcileSetupTests [frames]:
  assumes "\<And>c f. P (Sdk (ConnectionSetupTests i c f))" and "\<And>x. P (KubeStatusUpdate x)"
  shows "emit.keeps P (reconcileSetupTests E i)"
  unfolding reconcileSetupTests_def service_defs by (intro emit.keeps_rules frames assms)

end
