(* ===== verification/Schema_Compare.thy ===== *)
theory Schema_Compare
  imports Schema_Merge
begin

text \<open>
  The file pkg/fivetran/schema_comparison.go: the comparison of the schema the server reports
  with the custom resource, which the controller uses to verify an update it has made. The reasons in \<open>SchemaMismatches\<close> are never nil pointers (the one
  writer stores the address of a local variable), so the map holds the texts themselves.
\<close>

subsection \<open>The operations\<close>

record SchemaMismatch =
  sm_HasMismatch :: bool
  sm_SchemaChangeHandling :: "string option"
  sm_MissingSchemas :: "string list"
  sm_SchemaMismatches :: "string gomap"
  sm_TableMismatches :: "string list gomap"

text \<open>
  The two maps of a mismatch are printed in the order in which their entries were made; Go takes any
  order. No property depends on it.
\<close>

definition SchemaMismatch_String :: "SchemaMismatch \<Rightarrow> string" where
  "SchemaMismatch_String sm =
     (if \<not> sm_HasMismatch sm then ''No schema mismatches found''
      else
        (let p1 = (case sm_SchemaChangeHandling sm of None \<Rightarrow> [] | Some r \<Rightarrow> [''Schema Change Handling: '' @ r]);
             p2 = (if length (sm_MissingSchemas sm) > 0
                   then p1 @ [''Missing Schemas: '' @ Join (sm_MissingSchemas sm) '', ''] else p1);
             p3 = (if glen (sm_SchemaMismatches sm) > 0
                   then fold (\<lambda>(schema, reason) parts. parts @ [''Schema '' @ schema @ '': '' @ reason])
                          (gentries (sm_SchemaMismatches sm)) p2 else p2);
             p4 = (if glen (sm_TableMismatches sm) > 0
                   then fold (\<lambda>(schema, issues) parts. parts @ [''Schema '' @ schema @ '' tables: '' @ Join issues '', ''])
                          (gentries (sm_TableMismatches sm)) p3 else p3)
         in Join p4 ''; ''))"

definition enabledIssue :: "bool \<Rightarrow> bool option \<Rightarrow> string list" where
  "enabledIssue expected got =
     (case got of None \<Rightarrow> []
      | Some g \<Rightarrow> if g \<noteq> expected
                  then [''enabled state mismatch: expected '' @ fmt_bool expected @ '', got '' @ fmt_bool g] else [])"

definition syncModeIssue :: "string \<Rightarrow> string option \<Rightarrow> string list" where
  "syncModeIssue expected got =
     (if expected \<noteq> '''' then
        (case got of None \<Rightarrow> [''sync mode mismatch: expected '' @ expected @ '', got nil'']
         | Some g \<Rightarrow> if g \<noteq> expected then [''sync mode mismatch: expected '' @ expected @ '', got '' @ g] else [])
      else [])"

definition compareTable_body ::
  "TableResponse option gomap \<Rightarrow> string \<Rightarrow> TableObject option \<Rightarrow> string list \<Rightarrow> string list" where
  "compareTable_body fivetranTables crTableName crTableObj tableMismatches =
     (case crTableObj of None \<Rightarrow> tableMismatches
      | Some t \<Rightarrow>
        (case glookup fivetranTables crTableName of
           Some (Some f) \<Rightarrow>
             (let tableIssues = enabledIssue (to_Enabled t) (tabr_Enabled f) @ syncModeIssue (to_SyncMode t) (tabr_SyncMode f)
              in if length tableIssues > 0
                 then tableMismatches @ [''table '' @ crTableName @ '': '' @ Join tableIssues '', ''] else tableMismatches)
         | _ \<Rightarrow>
             (if \<not> to_Enabled t then tableMismatches
              else tableMismatches @ [''table '' @ crTableName @ '' not found in source''])))"

definition compareTablesWithFivetran :: "TableResponse option gomap \<Rightarrow> TableObject option gomap \<Rightarrow> string list" where
  "compareTablesWithFivetran fivetranTables crTables =
     fold (\<lambda>(crTableName, crTableObj). compareTable_body fivetranTables crTableName crTableObj) (gentries crTables) []"

definition compareSchema_body ::
  "SchemaDetailsResponse \<Rightarrow> string \<Rightarrow> SchemaObject option \<Rightarrow> SchemaMismatch \<Rightarrow> SchemaMismatch" where
  "compareSchema_body fivetranSchema crSchemaName crSchemaObj mismatch =
     (case crSchemaObj of None \<Rightarrow> mismatch
      | Some so \<Rightarrow>
        (case glookup (sdr_Schemas fivetranSchema) crSchemaName of
           Some (Some f) \<Rightarrow>
             (let m1 = (case schr_Enabled f of None \<Rightarrow> mismatch
                        | Some g \<Rightarrow> if g \<noteq> so_Enabled so
                            then mismatch\<lparr>sm_HasMismatch := True,
                                   sm_SchemaMismatches := ginsert crSchemaName
                                     (''enabled state mismatch: expected '' @ fmt_bool (so_Enabled so) @ '', got '' @ fmt_bool g)
                                     (sm_SchemaMismatches mismatch)\<rparr>
                            else mismatch)
              in if so_Enabled so \<and> so_Tables so \<noteq> None
                 then (let tableMismatches = compareTablesWithFivetran (schr_Tables f) (so_Tables so)
                       in if length tableMismatches > 0
                          then m1\<lparr>sm_HasMismatch := True,
                                 sm_TableMismatches := ginsert crSchemaName tableMismatches (sm_TableMismatches m1)\<rparr>
                          else m1)
                 else m1)
         | _ \<Rightarrow>
             (if \<not> so_Enabled so then mismatch
              else mismatch\<lparr>sm_HasMismatch := True, sm_MissingSchemas := sm_MissingSchemas mismatch @ [crSchemaName]\<rparr>)))"

definition CompareSchemaWithCR ::
  "SchemaDetailsResponse \<Rightarrow> ConnectorSchemaConfig option \<Rightarrow> bool \<times> SchemaMismatch" where
  "CompareSchemaWithCR fivetranSchema crSchema =
     (let mismatch = \<lparr>sm_HasMismatch = False, sm_SchemaChangeHandling = None, sm_MissingSchemas = [],
                      sm_SchemaMismatches = gmake, sm_TableMismatches = gmake\<rparr>
      in case crSchema of
           None \<Rightarrow> (True, mismatch)
         | Some c \<Rightarrow>
           (let m1 = (if csc_SchemaChangeHandling c \<noteq> ''''
                         \<and> sdr_SchemaChangeHandling fivetranSchema \<noteq> csc_SchemaChangeHandling c
                      then mismatch\<lparr>sm_HasMismatch := True,
                             sm_SchemaChangeHandling := Some (''expected '' @ csc_SchemaChangeHandling c
                               @ '', got '' @ sdr_SchemaChangeHandling fivetranSchema)\<rparr>
                      else mismatch);
                m2 = fold (\<lambda>(crSchemaName, crSchemaObj). compareSchema_body fivetranSchema crSchemaName crSchemaObj)
                       (gentries (csc_Schemas c)) m1
            in (\<not> sm_HasMismatch m2, m2)))"

subsection \<open>The specification\<close>

text \<open>A missing object is acceptable exactly when the resource disables it.\<close>

definition table_matches :: "TableResponse option gomap \<Rightarrow> string \<Rightarrow> TableObject \<Rightarrow> bool" where
  "table_matches fts t obj =
     (case glookup fts t of
        Some (Some f) \<Rightarrow> (tabr_Enabled f = None \<or> tabr_Enabled f = Some (to_Enabled obj))
                      \<and> (to_SyncMode obj = [] \<or> tabr_SyncMode f = Some (to_SyncMode obj))
      | _ \<Rightarrow> \<not> to_Enabled obj)"

definition schema_matches :: "SchemaDetailsResponse \<Rightarrow> string \<Rightarrow> SchemaObject \<Rightarrow> bool" where
  "schema_matches r s obj =
     (case glookup (sdr_Schemas r) s of
        Some (Some f) \<Rightarrow> (schr_Enabled f = None \<or> schr_Enabled f = Some (so_Enabled obj))
           \<and> (so_Enabled obj \<longrightarrow>
                (\<forall>t to. glookup (so_Tables obj) t = Some (Some to) \<longrightarrow> table_matches (schr_Tables f) t to))
      | _ \<Rightarrow> \<not> so_Enabled obj)"

subsection \<open>Tables\<close>

text \<open>The issues of one table, which the loop appends.\<close>

definition table_issues :: "TableResponse option gomap \<Rightarrow> string \<times> TableObject option \<Rightarrow> string list" where
  "table_issues fts e = compareTable_body fts (fst e) (snd e) []"

lemma compareTable_body_append: "compareTable_body fts t obj ms = ms @ compareTable_body fts t obj []"
  by (auto simp: compareTable_body_def Let_def split: option.split)

lemma compareTables_concat: "compareTablesWithFivetran fts tabs = concat (map (table_issues fts) (gentries tabs))"
  unfolding compareTablesWithFivetran_def
  by (subst fold_append [OF compareTable_body_append]) (simp add: table_issues_def [abs_def] case_prod_beta')

lemma table_issues_Nil: "table_issues fts (t, Some obj) = [] \<longleftrightarrow> table_matches fts t obj"
  by (auto simp: table_issues_def compareTable_body_def table_matches_def enabledIssue_def syncModeIssue_def
      split: option.split)

lemma table_issues_None [simp]: "table_issues fts (t, None) = []"
  by (simp add: table_issues_def compareTable_body_def)

lemma compareTables_Nil:
  assumes "gwf tabs"
  shows "compareTablesWithFivetran fts tabs = [] \<longleftrightarrow>
    (\<forall>t to. glookup tabs t = Some (Some to) \<longrightarrow> table_matches fts t to)"
proof -
  have "compareTablesWithFivetran fts tabs = [] \<longleftrightarrow> (\<forall>(t, v) \<in> set (gentries tabs). table_issues fts (t, v) = [])"
    by (auto simp: compareTables_concat)
  also have "\<dots> \<longleftrightarrow> (\<forall>t to. (t, Some to) \<in> set (gentries tabs) \<longrightarrow> table_matches fts t to)"
    by (subst entries_Some_iff) (simp_all add: table_issues_Nil)
  finally show ?thesis by (simp add: glookup_iff [OF assms])
qed

subsection \<open>Schemas\<close>

text \<open>
  What the comparison records for one schema: whether it is missing, the reason of an enabled
  state that differs, and the issues of its tables.
\<close>

type_synonym report = "bool \<times> string option \<times> string list option"

definition report :: "SchemaMismatch \<Rightarrow> string \<Rightarrow> report" where
  "report m s = (s \<in> set (sm_MissingSchemas m), glookup (sm_SchemaMismatches m) s, glookup (sm_TableMismatches m) s)"

definition clean :: report where
  "clean = (False, None, None)"

definition spec_report :: "SchemaDetailsResponse \<Rightarrow> string \<Rightarrow> SchemaObject option \<Rightarrow> report" where
  "spec_report r s v =
     (case v of None \<Rightarrow> clean
      | Some so \<Rightarrow>
        (case glookup (sdr_Schemas r) s of
           Some (Some f) \<Rightarrow>
             (False,
              if schr_Enabled f = None \<or> schr_Enabled f = Some (so_Enabled so) then None
              else Some (''enabled state mismatch: expected '' @ fmt_bool (so_Enabled so) @ '', got '' @ fmt_bool (\<not> so_Enabled so)),
              if so_Enabled so \<and> compareTablesWithFivetran (schr_Tables f) (so_Tables so) \<noteq> []
              then Some (compareTablesWithFivetran (schr_Tables f) (so_Tables so)) else None)
         | _ \<Rightarrow> (so_Enabled so, None, None)))"

definition mismatch_inv :: "SchemaMismatch \<Rightarrow> bool" where
  "mismatch_inv m \<longleftrightarrow>
     (sm_HasMismatch m \<longleftrightarrow> sm_SchemaChangeHandling m \<noteq> None \<or> (\<exists>s. report m s \<noteq> clean))"

lemma compareTables_nil_map [simp]: "compareTablesWithFivetran fts None = []"
  by (simp add: compareTables_concat)

lemma compareSchema_report:
  assumes "report m s = clean"
  shows "report (compareSchema_body r s v m) s' = (if s' = s then spec_report r s v else report m s')"
    and "sm_SchemaChangeHandling (compareSchema_body r s v m) = sm_SchemaChangeHandling m"
    and "sm_HasMismatch (compareSchema_body r s v m) \<longleftrightarrow> sm_HasMismatch m \<or> spec_report r s v \<noteq> clean"
  using assms by (auto simp: compareSchema_body_def report_def spec_report_def clean_def gomap Let_def
      split: option.split)

interpretation schemacmp: range_loop mismatch_inv report sm_SchemaChangeHandling
    "\<lambda>k v x. x = clean" "\<lambda>k v x. spec_report r k v" "compareSchema_body r" for r
proof unfold_locales
  fix m k v k'
  assume i: "mismatch_inv m" and c: "report m k = clean"
  note st = compareSchema_report [OF c, of r v]
  show "mismatch_inv (compareSchema_body r k v m)"
    using i c unfolding mismatch_inv_def st by auto
  show "report (compareSchema_body r k v m) k' = (if k' = k then spec_report r k v else report m k')"
    and "sm_SchemaChangeHandling (compareSchema_body r k v m) = sm_SchemaChangeHandling m" by (rule st)+
qed

lemma spec_report_clean:
  assumes "gwf (so_Tables so)"
  shows "spec_report r s (Some so) = clean \<longleftrightarrow> schema_matches r s so"
  using compareTables_Nil [OF assms]
  by (auto simp: spec_report_def clean_def schema_matches_def split: option.split)

lemma spec_report_None [simp]: "spec_report r s None = clean"
  by (simp add: spec_report_def)

definition handling_matches :: "SchemaDetailsResponse \<Rightarrow> ConnectorSchemaConfig \<Rightarrow> bool" where
  "handling_matches r c \<longleftrightarrow>
     csc_SchemaChangeHandling c = [] \<or> sdr_SchemaChangeHandling r = csc_SchemaChangeHandling c"

lemma CompareSchemaWithCR_report:
  assumes "config_wf c"
  shows "report (snd (CompareSchemaWithCR r (Some c))) s =
      (case glookup (csc_Schemas c) s of None \<Rightarrow> clean | Some v \<Rightarrow> spec_report r s v)"
    and "sm_SchemaChangeHandling (snd (CompareSchemaWithCR r (Some c))) = (if handling_matches r c then None
      else Some (''expected '' @ csc_SchemaChangeHandling c @ '', got '' @ sdr_SchemaChangeHandling r))"
    and "mismatch_inv (snd (CompareSchemaWithCR r (Some c)))"
    and "fst (CompareSchemaWithCR r (Some c)) \<longleftrightarrow> \<not> sm_HasMismatch (snd (CompareSchemaWithCR r (Some c)))"
proof -
  let ?m = "snd (CompareSchemaWithCR r (Some c))"
  define m0 where "m0 = \<lparr>sm_HasMismatch = \<not> handling_matches r c,
    sm_SchemaChangeHandling = (if handling_matches r c then None
      else Some (''expected '' @ csc_SchemaChangeHandling c @ '', got '' @ sdr_SchemaChangeHandling r)),
    sm_MissingSchemas = [], sm_SchemaMismatches = gmake, sm_TableMismatches = gmake\<rparr>"
  have m: "?m = fold (\<lambda>(k, v). compareSchema_body r k v) (gentries (csc_Schemas c)) m0"
    by (auto simp: CompareSchemaWithCR_def Let_def m0_def handling_matches_def)
  have c0: "report m0 k = clean" for k by (simp add: m0_def report_def clean_def)
  then have i0: "mismatch_inv m0" by (simp add: mismatch_inv_def) (simp add: m0_def)
  have wf: "gwf (csc_Schemas c)" and pre: "\<forall>(k, v) \<in> set (gentries (csc_Schemas c)). report m0 k = clean"
    using assms by (auto simp: config_wf_def gall_gwf c0)
  note loop = schemacmp.range [OF i0 wf pre m]
  show "report ?m s = (case glookup (csc_Schemas c) s of None \<Rightarrow> clean | Some v \<Rightarrow> spec_report r s v)"
    using loop(3) [of s] by (simp add: c0 split: option.split)
  show "sm_SchemaChangeHandling ?m = (if handling_matches r c then None
      else Some (''expected '' @ csc_SchemaChangeHandling c @ '', got '' @ sdr_SchemaChangeHandling r))" using loop(2) by (simp add: m0_def)
  show "mismatch_inv ?m" by (rule loop)
  show "fst (CompareSchemaWithCR r (Some c)) \<longleftrightarrow> \<not> sm_HasMismatch ?m"
    by (simp add: CompareSchemaWithCR_def Let_def)
qed

text \<open>The comparison without the loop: the schema of the server does what the resource asks for.\<close>

definition config_matches :: "SchemaDetailsResponse \<Rightarrow> ConnectorSchemaConfig \<Rightarrow> bool" where
  "config_matches r c \<longleftrightarrow> handling_matches r c
     \<and> (\<forall>s so. glookup (csc_Schemas c) s = Some (Some so) \<longrightarrow> schema_matches r s so)"

lemma CompareSchemaWithCR_matches:
  assumes "config_wf c"
  shows "fst (CompareSchemaWithCR r (Some c)) \<longleftrightarrow> config_matches r c"
proof -
  have "spec_report r s (Some so) = clean \<longleftrightarrow> schema_matches r s so"
    if "glookup (csc_Schemas c) s = Some (Some so)" for s so
    using spec_report_clean [of so] gallD [OF assms [unfolded config_wf_def] that] by (simp add: schema_wf_def gall_gwf)
  moreover have "report (snd (CompareSchemaWithCR r (Some c))) s \<noteq> clean \<longleftrightarrow>
      (\<exists>so. glookup (csc_Schemas c) s = Some (Some so) \<and> spec_report r s (Some so) \<noteq> clean)" for s
  proof (cases "Option.bind (glookup (csc_Schemas c) s) id")
    case None
    then show ?thesis using CompareSchemaWithCR_report(1) [OF assms, of r s] by (auto simp: bind_eq_None_conv split: option.split)
  next
    case (Some so)
    then show ?thesis using CompareSchemaWithCR_report(1) [OF assms, of r s] by (auto simp: bind_eq_Some_conv)
  qed
  ultimately show ?thesis
    using CompareSchemaWithCR_report(2-4) [OF assms, of r] by (auto simp: mismatch_inv_def config_matches_def)
qed

text \<open>
  The report, without the loops. The text of a wrong state, of a wrong sync mode, and of a table that
  does not match; the issues of the tables of a schema, in the order of the resource; and the
  schemas that are missing.
\<close>

definition state_text :: "bool \<Rightarrow> string" where
  "state_text expected = ''enabled state mismatch: expected '' @ fmt_bool expected @ '', got '' @ fmt_bool (\<not> expected)"

definition mode_text :: "string \<Rightarrow> string option \<Rightarrow> string" where
  "mode_text expected got = ''sync mode mismatch: expected '' @ expected @ '', got '' @ (case got of None \<Rightarrow> ''nil'' | Some g \<Rightarrow> g)"

definition table_text :: "TableResponse option gomap \<Rightarrow> string \<Rightarrow> TableObject \<Rightarrow> string" where
  "table_text fts t obj =
     (case glookup fts t of
        Some (Some f) \<Rightarrow>
          (let state = (tabr_Enabled f = Some (\<not> to_Enabled obj)); mode = (to_SyncMode obj \<noteq> [] \<and> tabr_SyncMode f \<noteq> Some (to_SyncMode obj))
           in ''table '' @ t @ '': '' @ (if state then state_text (to_Enabled obj) else []) @ (if state \<and> mode then '', '' else [])
                @ (if mode then mode_text (to_SyncMode obj) (tabr_SyncMode f) else []))
      | _ \<Rightarrow> ''table '' @ t @ '' not found in source'')"

definition wrong_tables :: "TableResponse option gomap \<Rightarrow> TableObject option gomap \<Rightarrow> string list" where
  "wrong_tables fts tabs = concat (map (\<lambda>(t, v). case v of None \<Rightarrow> [] | Some obj \<Rightarrow>
     if table_matches fts t obj then [] else [table_text fts t obj]) (gentries tabs))"

definition missing_schemas :: "SchemaDetailsResponse \<Rightarrow> ConnectorSchemaConfig \<Rightarrow> string list" where
  "missing_schemas r c = concat (map (\<lambda>(s, v). case v of None \<Rightarrow> [] | Some so \<Rightarrow>
     if so_Enabled so \<and> (\<forall>f. glookup (sdr_Schemas r) s \<noteq> Some (Some f)) then [s] else []) (gentries (csc_Schemas c)))"

lemma state_cases: "(e = None \<or> e = Some b) \<or> e = Some (\<not> b)" for b :: bool
  by (cases e) auto

lemma state_choice: "(if e = None \<or> e = Some b then None else Some y) = (if e = Some (\<not> b) then Some y else None)"
  by (cases e) auto

lemma table_issues_text:
  "table_issues fts (t, Some obj) = (if table_matches fts t obj then [] else [table_text fts t obj])"
proof (cases "Option.bind (glookup fts t) id")
  case None
  then show ?thesis
    by (auto simp: table_issues_def compareTable_body_def table_matches_def table_text_def bind_eq_None_conv split: option.split)
next
  case (Some f)
  then have f: "glookup fts t = Some (Some f)" by (auto simp: bind_eq_Some_conv)
  show ?thesis using state_cases [of "tabr_Enabled f" "to_Enabled obj"]
    by (auto simp: f table_issues_def compareTable_body_def table_matches_def table_text_def enabledIssue_def syncModeIssue_def state_text_def
        mode_text_def split: option.split)
qed

lemma compareTables_wrong: "compareTablesWithFivetran fts tabs = wrong_tables fts tabs"
  unfolding compareTables_concat wrong_tables_def
  by (intro arg_cong [where f = concat] map_cong refl) (auto simp: table_issues_text split: option.split)

lemma compareSchema_missing:
  "sm_MissingSchemas (compareSchema_body r s v m) = sm_MissingSchemas m @ (case v of None \<Rightarrow> [] | Some so \<Rightarrow>
     if so_Enabled so \<and> (\<forall>f. glookup (sdr_Schemas r) s \<noteq> Some (Some f)) then [s] else [])"
  by (auto simp: compareSchema_body_def Let_def split: option.split)

lemma CompareSchemaWithCR_missing: "sm_MissingSchemas (snd (CompareSchemaWithCR r (Some c))) = missing_schemas r c"
proof -
  have "sm_MissingSchemas (fold (\<lambda>(k, v). compareSchema_body r k v) es m) = sm_MissingSchemas m
      @ concat (map (\<lambda>(s, v). case v of None \<Rightarrow> [] | Some so \<Rightarrow>
          if so_Enabled so \<and> (\<forall>f. glookup (sdr_Schemas r) s \<noteq> Some (Some f)) then [s] else []) es)" for es m
    by (induction es arbitrary: m) (auto simp: compareSchema_missing)
  then show ?thesis by (simp add: CompareSchemaWithCR_def missing_schemas_def Let_def)
qed

text \<open>C13: CompareSchemaWithCR decides whether the server already does what the resource asks for, and
  its report is exact. It returns true exactly when the policy agrees and every listed schema
  and table is in the listed state (absent only where the resource disables it, sync mode only
  where the resource sets one). The report has a text on the policy exactly if the policies
  differ, and it names both; the missing schemas are those that the resource enables and the server does not have; for a schema
  there is a text on its state exactly if the server reports the opposite state; and for an enabled schema that the
  server has there are the texts of exactly those tables that do not match, if any, each with its
  name and what is wrong.\<close>

theorem CompareSchemaWithCR_iff:
  assumes "config_wf c" and m: "CompareSchemaWithCR r (Some c) = (ok, m)"
  shows "(ok \<longleftrightarrow> config_matches r c) \<and> (sm_HasMismatch m \<longleftrightarrow> \<not> ok)
    \<and> sm_SchemaChangeHandling m = (if handling_matches r c then None
        else Some (''expected '' @ csc_SchemaChangeHandling c @ '', got '' @ sdr_SchemaChangeHandling r))
    \<and> sm_MissingSchemas m = missing_schemas r c
    \<and> (\<forall>s. glookup (sm_SchemaMismatches m) s =
        (case (glookup (csc_Schemas c) s, glookup (sdr_Schemas r) s) of
           (Some (Some so), Some (Some f)) \<Rightarrow> if schr_Enabled f = Some (\<not> so_Enabled so) then Some (state_text (so_Enabled so)) else None
         | _ \<Rightarrow> None))
    \<and> (\<forall>s. glookup (sm_TableMismatches m) s =
        (case (glookup (csc_Schemas c) s, glookup (sdr_Schemas r) s) of
           (Some (Some so), Some (Some f)) \<Rightarrow> (let issues = wrong_tables (schr_Tables f) (so_Tables so)
              in if so_Enabled so \<and> issues \<noteq> [] then Some issues else None)
         | _ \<Rightarrow> None))"
proof -
  let ?rep = "\<lambda>s. case glookup (csc_Schemas c) s of None \<Rightarrow> clean | Some v \<Rightarrow> spec_report r s v"
  have "report m s = ?rep s" for s using CompareSchemaWithCR_report(1) [OF assms(1), of r s] m by simp
  then have rep: "glookup (sm_SchemaMismatches m) s = fst (snd (?rep s))" "glookup (sm_TableMismatches m) s = snd (snd (?rep s))" for s
    by (metis report_def fst_conv snd_conv)+
  have "glookup (sm_SchemaMismatches m) s =
        (case (glookup (csc_Schemas c) s, glookup (sdr_Schemas r) s) of
           (Some (Some so), Some (Some f)) \<Rightarrow> if schr_Enabled f = Some (\<not> so_Enabled so) then Some (state_text (so_Enabled so)) else None
         | _ \<Rightarrow> None)" for s
    unfolding rep by (simp add: spec_report_def clean_def state_choice state_text_def split: option.split)
  moreover have "glookup (sm_TableMismatches m) s =
        (case (glookup (csc_Schemas c) s, glookup (sdr_Schemas r) s) of
           (Some (Some so), Some (Some f)) \<Rightarrow> (let issues = wrong_tables (schr_Tables f) (so_Tables so)
              in if so_Enabled so \<and> issues \<noteq> [] then Some issues else None)
         | _ \<Rightarrow> None)" for s
    unfolding rep by (simp add: spec_report_def clean_def compareTables_wrong Let_def split: option.split)
  ultimately show ?thesis
    using CompareSchemaWithCR_matches [OF assms(1), of r] CompareSchemaWithCR_report(2,4) [OF assms(1), of r]
      CompareSchemaWithCR_missing [of r c] m by simp
qed

text \<open>The demo resource agrees with the server but for its policy.\<close>

theorem CompareSchemaWithCR_iff_witness:
  "fst (CompareSchemaWithCR demo_up (Some (demo_cr\<lparr>csc_SchemaChangeHandling := []\<rparr>)))
   \<and> sm_SchemaChangeHandling (snd (CompareSchemaWithCR demo_up (Some demo_cr))) =
       Some (''expected '' @ csc_SchemaChangeHandling demo_cr @ '', got '' @ sdr_SchemaChangeHandling demo_up)"
proof -
  let ?c = "demo_cr\<lparr>csc_SchemaChangeHandling := []\<rparr>"
  have "config_wf ?c" using demo_ok(1) by (simp add: config_wf_def)
  moreover have "config_matches demo_up ?c"
    by (auto simp: config_matches_def handling_matches_def demo_defs schema_matches_def table_matches_def glookup_def
        split: if_splits)
  moreover have "\<not> handling_matches demo_up demo_cr" by (simp add: handling_matches_def demo_defs)
  ultimately show ?thesis
    using CompareSchemaWithCR_iff [OF _ prod.collapse [symmetric], of ?c demo_up]
      CompareSchemaWithCR_iff [OF demo_ok(1) prod.collapse [symmetric], of demo_up] by simp
qed

subsection \<open>The operator accepts what it sends\<close>

text \<open>
  The schema a server reports after it has applied a payload: the policy that was sent, and
  every schema and table of the payload in the state the payload gives it. The server may
  report more, and columns are not compared.
\<close>

definition reflects :: "SchemaDetailsResponse \<Rightarrow> string \<Rightarrow> (string \<Rightarrow> aSchema option) \<Rightarrow> bool" where
  "reflects r handling p \<longleftrightarrow>
     (handling \<noteq> [] \<longrightarrow> sdr_SchemaChangeHandling r = handling)
     \<and> (\<forall>s sc. p s = Some sc \<longrightarrow>
          (\<exists>f. glookup (sdr_Schemas r) s = Some (Some f) \<and> schr_Enabled f = as_enabled sc
             \<and> (\<forall>t tb. as_tables sc t = Some tb \<longrightarrow>
                  (\<exists>g. glookup (schr_Tables f) t = Some (Some g) \<and> tabr_Enabled g = at_enabled tb
                     \<and> (at_syncMode tb \<noteq> None \<longrightarrow> tabr_SyncMode g = at_syncMode tb)))))"

text \<open>Every schema the resource sets is in the payload with its state and the states of its tables.\<close>

definition carries :: "SchemaObject \<Rightarrow> aSchema \<Rightarrow> bool" where
  "carries so sc \<longleftrightarrow> as_enabled sc = Some (so_Enabled so)
     \<and> (so_Enabled so \<longrightarrow> (\<forall>t to. glookup (so_Tables so) t = Some (Some to) \<longrightarrow>
          (\<exists>cols. as_tables sc t = Some ((mk_table (to_Enabled to) (to_SyncMode to))\<lparr>at_columns := cols\<rparr>))))"

lemma cr_schema_carries: "carries so (cr_schema so)"
  by (auto simp: carries_def cr_schema_def mk_schema_def gview_def cr_table_def)

lemma merged_tables_carries:
  "glookup tabs t = Some (Some to) \<Longrightarrow>
     \<exists>cols. merged_tables p uts tabs t = Some ((mk_table (to_Enabled to) (to_SyncMode to))\<lparr>at_columns := cols\<rparr>)"
  by (auto simp: merged_tables_def gview_def cr_table_def split: option.split)

lemma spec_payload_carries:
  assumes "glookup (csc_Schemas c) s = Some (Some so)"
    and "\<forall>u. up = Some u \<longrightarrow> glookup (sdr_Schemas u) s \<noteq> Some None"
  shows "\<exists>sc. spec_payload (Some c) up s = Some sc \<and> carries so sc"
proof -
  have green: "\<exists>sc. gview cr_schema (csc_Schemas c) s = Some sc \<and> carries so sc"
    using assms(1) cr_schema_carries by (simp add: gview_def)
  have "\<exists>sc. merged_schemas c u s = Some sc \<and> carries so sc" if "up = Some u" for u
  proof (cases "glookup (sdr_Schemas u) s")
    case None
    then show ?thesis using green by (simp add: merged_schemas_def)
  next
    case (Some v)
    with assms(2) that obtain us where "glookup (sdr_Schemas u) s = Some (Some us)" by (cases v) auto
    then show ?thesis using assms(1) merged_tables_carries
      by (auto simp: merged_schemas_def merged_schema_def carries_def mk_schema_def)
  qed
  then show ?thesis using green by (auto simp: spec_payload_def split: option.split)
qed

lemma applied_payload_matches:
  assumes "config_wf c" and "config_named c" and "pred_option response_wf up" and "pred_option response_named up"
    and null: "\<forall>u s. up = Some u \<longrightarrow> glookup (sdr_Schemas u) s \<noteq> Some None"
    and r: "reflects r (b_schemaChangeHandling (BuildSchemaConfig (Some c) up)) (payload (BuildSchemaConfig (Some c) up))"
  shows "fst (CompareSchemaWithCR r (Some c))"
proof -
  have p: "payload (BuildSchemaConfig (Some c) up) = spec_payload (Some c) up"
    and h: "b_schemaChangeHandling (BuildSchemaConfig (Some c) up) = csc_SchemaChangeHandling c"
    using BuildSchemaConfig_correct(2,3) [of "Some c" up] assms(1-4) by simp_all
  have "schema_matches r s so" if so: "glookup (csc_Schemas c) s = Some (Some so)" for s so
  proof -
    from spec_payload_carries [OF so] null obtain sc where "spec_payload (Some c) up s = Some sc" and "carries so sc"
      by blast
    with r p h show ?thesis
      by (fastforce simp: reflects_def carries_def schema_matches_def table_matches_def mk_table_def)
  qed
  moreover have "handling_matches r c" using r h by (auto simp: reflects_def handling_matches_def)
  ultimately show ?thesis using CompareSchemaWithCR_matches [OF assms(1)] by (simp add: config_matches_def)
qed

text \<open>C14: The verification after an update accepts the update. Let the resource and the response that the
  payload is merged with, if any, have no empty and no repeated names, and let that response hold no null schema. If the server's new schema reflects
  the payload that BuildSchemaConfig made of the resource, CompareSchemaWithCR reports no
  mismatch, so an applied update is not taken for a failed one.\<close>

theorem compare_accepts_applied_payload:
  assumes "config_wf c" and "config_named c" and "pred_option response_wf up" and "pred_option response_named up"
    and null: "\<forall>u s. up = Some u \<longrightarrow> glookup (sdr_Schemas u) s \<noteq> Some None"
    and r: "reflects r (b_schemaChangeHandling (BuildSchemaConfig (Some c) up)) (payload (BuildSchemaConfig (Some c) up))"
  shows "fst (CompareSchemaWithCR r (Some c))"
  by (rule applied_payload_matches [OF assms])

text \<open>The state of the demo server after the update.\<close>

definition demo_applied :: SchemaDetailsResponse where
  "demo_applied = demo_up\<lparr>sdr_SchemaChangeHandling := ''BLOCK_ALL'', sdr_Schemas := Some
      [(''s'', Some \<lparr>schr_NameInDestination = None, schr_Enabled = Some True, schr_Tables = Some
          [(''t'', Some (demo_table None None)), (''u'', Some ((demo_table None None)\<lparr>tabr_Enabled := Some False\<rparr>)),
           (''v'', Some (demo_table (Some False) None))]\<rparr>),
       (''z'', Some \<lparr>schr_NameInDestination = None, schr_Enabled = Some False, schr_Tables = None\<rparr>)]\<rparr>"

theorem compare_accepts_applied_payload_witness:
  "fst (CompareSchemaWithCR demo_applied (Some demo_cr))"
proof (rule compare_accepts_applied_payload [OF demo_ok(1,2), of "Some demo_up"])
  have p: "payload (BuildSchemaConfig (Some demo_cr) (Some demo_up)) = merged_schemas demo_cr demo_up"
    and h: "b_schemaChangeHandling (BuildSchemaConfig (Some demo_cr) (Some demo_up)) = ''BLOCK_ALL''"
    using BuildSchemaConfig_correct(2,3) [of "Some demo_cr" "Some demo_up"] demo_ok
    by (simp_all add: spec_payload_def) (simp_all add: demo_cr_def policyAllowAll_def)
  show "reflects demo_applied (b_schemaChangeHandling (BuildSchemaConfig (Some demo_cr) (Some demo_up)))
      (payload (BuildSchemaConfig (Some demo_cr) (Some demo_up)))"
    unfolding p h
    by (auto simp: reflects_def merged_schemas_def merged_schema_def merged_tables_def gview_def demo_applied_def
        demo_defs glookup_def mk_schema_def mk_table_def isTablePatchAllowed_def split: if_split_asm option.split_asm)
qed (use demo_ok in \<open>auto simp: demo_up_def glookup_def split: if_split_asm\<close>)

end
