(* ===== verification/Schema_Locked.thy ===== *)
theory Schema_Locked
  imports Schema_Merge
begin

text \<open>
  The functions NeedsColumnSecondPass and ValidateLockedColumns of pkg/fivetran/schema_builder.go,
  and how they fit the payload: a resource that passes the validation never makes the payload
  disable a column the server has locked, and a resource that needs no second pass has no
  columns in its payload.
\<close>

subsection \<open>The operations\<close>

definition NeedsColumnSecondPass :: "ConnectorSchemaConfig option \<Rightarrow> bool" where
  "NeedsColumnSecondPass crSchema =
     (case crSchema of None \<Rightarrow> False
      | Some c \<Rightarrow>
        (let policy = csc_SchemaChangeHandling c
         in if policy = policyAllowAll \<or> policy = '''' then False
            else gexists (\<lambda>_ schemaObj.
              case schemaObj of None \<Rightarrow> False
              | Some so \<Rightarrow> if \<not> so_Enabled so then False
                  else gexists (\<lambda>_ tableObj.
                    case tableObj of None \<Rightarrow> False | Some t \<Rightarrow> glen (to_Columns t) > 0) (so_Tables so))
              (csc_Schemas c)))"

text \<open>The reason in a violation: the code, or the word locked, and the text of the server.\<close>

definition lockReason :: "PatchSettings \<Rightarrow> string" where
  "lockReason ps =
     (let reason = (case ps_ReasonCode ps of None \<Rightarrow> ''locked'' | Some c \<Rightarrow> c)
      in case ps_Reason ps of None \<Rightarrow> reason | Some r \<Rightarrow> reason @ '': '' @ r)"

definition lockedColumn_body ::
  "string \<Rightarrow> string \<Rightarrow> TableResponse \<Rightarrow> string \<Rightarrow> ColumnObject option \<Rightarrow> string list \<Rightarrow> string list" where
  "lockedColumn_body schemaName tableName upstreamTable colName colObj violations =
     (case colObj of None \<Rightarrow> violations
      | Some co \<Rightarrow>
        (if co_Enabled co then violations
         else case glookup (tabr_Columns upstreamTable) colName of
           Some (Some uc) \<Rightarrow>
             (if \<not> isColumnPatchAllowed (Some uc)
              then violations @ [schemaName @ ''.'' @ tableName @ ''.'' @ colName @ '' ('' @ lockReason (colr_EnabledPatchSettings uc) @ '')'']
              else violations)
         | _ \<Rightarrow> violations))"

definition lockedTable_body ::
  "string \<Rightarrow> SchemaResponse \<Rightarrow> string \<Rightarrow> TableObject option \<Rightarrow> string list \<Rightarrow> string list" where
  "lockedTable_body schemaName upstreamSchema tableName tableObj violations =
     (case tableObj of None \<Rightarrow> violations
      | Some t \<Rightarrow>
        (case glookup (schr_Tables upstreamSchema) tableName of
           Some (Some ut) \<Rightarrow>
             fold (\<lambda>(colName, colObj). lockedColumn_body schemaName tableName ut colName colObj)
               (gentries (to_Columns t)) violations
         | _ \<Rightarrow> violations))"

definition lockedSchema_body ::
  "SchemaDetailsResponse \<Rightarrow> string \<Rightarrow> SchemaObject option \<Rightarrow> string list \<Rightarrow> string list" where
  "lockedSchema_body upstream schemaName schemaObj violations =
     (case schemaObj of None \<Rightarrow> violations
      | Some so \<Rightarrow>
        (if \<not> so_Enabled so then violations
         else case glookup (sdr_Schemas upstream) schemaName of
           Some (Some us) \<Rightarrow>
             fold (\<lambda>(tableName, tableObj). lockedTable_body schemaName us tableName tableObj)
               (gentries (so_Tables so)) violations
         | _ \<Rightarrow> violations))"

definition ValidateLockedColumns :: "SchemaDetailsResponse \<Rightarrow> ConnectorSchemaConfig option \<Rightarrow> goerr option" where
  "ValidateLockedColumns upstream crSchema =
     (case crSchema of None \<Rightarrow> None
      | Some c \<Rightarrow>
        (let violations = fold (\<lambda>(schemaName, schemaObj). lockedSchema_body upstream schemaName schemaObj)
               (gentries (csc_Schemas c)) []
         in if length violations > 0 then Some (Text (Join (Strings violations) '', '')) else None))"

subsection \<open>The violations as a list comprehension\<close>

definition column_violations :: "string \<Rightarrow> string \<Rightarrow> TableResponse \<Rightarrow> string \<times> ColumnObject option \<Rightarrow> string list" where
  "column_violations s t ut e = lockedColumn_body s t ut (fst e) (snd e) []"

definition table_violations :: "string \<Rightarrow> SchemaResponse \<Rightarrow> string \<times> TableObject option \<Rightarrow> string list" where
  "table_violations s us e = lockedTable_body s us (fst e) (snd e) []"

definition schema_violations :: "SchemaDetailsResponse \<Rightarrow> string \<times> SchemaObject option \<Rightarrow> string list" where
  "schema_violations u e = lockedSchema_body u (fst e) (snd e) []"

definition violations :: "SchemaDetailsResponse \<Rightarrow> ConnectorSchemaConfig \<Rightarrow> string list" where
  "violations u c = concat (map (schema_violations u) (gentries (csc_Schemas c)))"

lemma lockedColumn_append: "lockedColumn_body s t ut k v acc = acc @ lockedColumn_body s t ut k v []"
  by (auto simp: lockedColumn_body_def split: option.split)

lemma lockedColumns_concat:
  "fold (\<lambda>(k, v). lockedColumn_body s t ut k v) l acc = acc @ concat (map (column_violations s t ut) l)"
  by (subst fold_append [OF lockedColumn_append]) (simp add: column_violations_def [abs_def] case_prod_beta')

lemma table_violations_eq:
  "table_violations s us (t, v) =
     (case v of None \<Rightarrow> [] | Some to \<Rightarrow>
        (case glookup (schr_Tables us) t of
           Some (Some ut) \<Rightarrow> concat (map (column_violations s t ut) (gentries (to_Columns to))) | _ \<Rightarrow> []))"
  by (simp add: table_violations_def lockedTable_body_def lockedColumns_concat split: option.split)

lemma lockedTable_append: "lockedTable_body s us k v acc = acc @ lockedTable_body s us k v []"
  by (simp add: lockedTable_body_def lockedColumns_concat split: option.split)

lemma lockedTables_concat:
  "fold (\<lambda>(k, v). lockedTable_body s us k v) l acc = acc @ concat (map (table_violations s us) l)"
  by (subst fold_append [OF lockedTable_append]) (simp add: table_violations_def [abs_def] case_prod_beta')

lemma schema_violations_eq:
  "schema_violations u (s, v) =
     (case v of None \<Rightarrow> [] | Some so \<Rightarrow> if \<not> so_Enabled so then [] else
        (case glookup (sdr_Schemas u) s of
           Some (Some us) \<Rightarrow> concat (map (table_violations s us) (gentries (so_Tables so))) | _ \<Rightarrow> []))"
  by (simp add: schema_violations_def lockedSchema_body_def lockedTables_concat split: option.split)

lemma lockedSchema_append: "lockedSchema_body u k v acc = acc @ lockedSchema_body u k v []"
  by (simp add: lockedSchema_body_def lockedTables_concat split: option.split)

lemma ValidateLockedColumns_eq:
  "ValidateLockedColumns u (Some c) =
     (if violations u c = [] then None else Some (Text (Join (Strings (violations u c)) '', '')))"
proof -
  have "fold (\<lambda>(k, v). lockedSchema_body u k v) (gentries (csc_Schemas c)) [] = violations u c"
    by (subst fold_append [OF lockedSchema_append])
      (simp add: violations_def schema_violations_def [abs_def] case_prod_beta')
  then show ?thesis by (simp add: ValidateLockedColumns_def Let_def)
qed

subsection \<open>What a violation is\<close>

text \<open>The resource disables column k of table t in schema s, and the server has locked that column.\<close>

definition disables_locked ::
  "SchemaDetailsResponse \<Rightarrow> ConnectorSchemaConfig \<Rightarrow> string \<Rightarrow> string \<Rightarrow> string \<Rightarrow> bool" where
  "disables_locked u c s t k \<longleftrightarrow>
     (\<exists>so to co us ut uc.
        glookup (csc_Schemas c) s = Some (Some so) \<and> so_Enabled so
        \<and> glookup (so_Tables so) t = Some (Some to)
        \<and> glookup (to_Columns to) k = Some (Some co) \<and> \<not> co_Enabled co
        \<and> glookup (sdr_Schemas u) s = Some (Some us) \<and> glookup (schr_Tables us) t = Some (Some ut)
        \<and> glookup (tabr_Columns ut) k = Some (Some uc) \<and> \<not> isColumnPatchAllowed (Some uc))"

lemma column_violations_Nil:
  "column_violations s t ut (k, v) = [] \<longleftrightarrow>
     \<not> (\<exists>co uc. v = Some co \<and> \<not> co_Enabled co \<and> glookup (tabr_Columns ut) k = Some (Some uc) \<and> \<not> isColumnPatchAllowed (Some uc))"
  by (auto simp: column_violations_def lockedColumn_body_def split: option.split)

lemma violations_Nil:
  assumes "config_wf c"
  shows "violations u c = [] \<longleftrightarrow> (\<forall>s t k. \<not> disables_locked u c s t k)"
proof -
  have wf: "gwf (csc_Schemas c)" using assms by (simp add: config_wf_def gall_gwf)
  have wft: "gwf (so_Tables so)" if "glookup (csc_Schemas c) s = Some (Some so)" for s so
    using gallD [OF assms [unfolded config_wf_def] that] by (simp add: schema_wf_def gall_gwf)
  have wfc: "gwf (to_Columns to)"
    if "glookup (csc_Schemas c) s = Some (Some so)" "glookup (so_Tables so) t = Some (Some to)" for s so t to
    using gallD [OF gallD [OF assms [unfolded config_wf_def] that(1), unfolded schema_wf_def] that(2)]
    by (simp add: table_wf_def)
  have "violations u c = [] \<longleftrightarrow> (\<forall>s v. glookup (csc_Schemas c) s = Some v \<longrightarrow> schema_violations u (s, v) = [])"
    by (auto simp: violations_def simp flip: glookup_iff [OF wf])
  also have "\<dots> \<longleftrightarrow> (\<forall>s so us t v. glookup (csc_Schemas c) s = Some (Some so) \<longrightarrow> so_Enabled so \<longrightarrow>
      glookup (sdr_Schemas u) s = Some (Some us) \<longrightarrow> glookup (so_Tables so) t = Some v \<longrightarrow> table_violations s us (t, v) = [])"
    by (force simp: schema_violations_eq glookup_iff [OF wft] split: option.split)
  also have "\<dots> \<longleftrightarrow> (\<forall>s so us t to ut k v. glookup (csc_Schemas c) s = Some (Some so) \<longrightarrow> so_Enabled so \<longrightarrow>
      glookup (sdr_Schemas u) s = Some (Some us) \<longrightarrow> glookup (so_Tables so) t = Some (Some to) \<longrightarrow>
      glookup (schr_Tables us) t = Some (Some ut) \<longrightarrow> glookup (to_Columns to) k = Some v \<longrightarrow>
      column_violations s t ut (k, v) = [])"
    by (force simp: table_violations_eq glookup_iff [OF wfc] split: option.split)
  also have "\<dots> \<longleftrightarrow> (\<forall>s t k. \<not> disables_locked u c s t k)"
    unfolding column_violations_Nil disables_locked_def by blast
  finally show ?thesis .
qed

text \<open>C27: ValidateLockedColumns reports an error exactly when the resource disables a column that the
  server has locked, below an enabled schema and a table that both sides know.\<close>

theorem ValidateLockedColumns_iff:
  assumes "config_wf c"
  shows "ValidateLockedColumns u (Some c) = None \<longleftrightarrow> (\<forall>s t k. \<not> disables_locked u c s t k)"
  using violations_Nil [OF assms] by (simp add: ValidateLockedColumns_eq)

definition demo_locked :: ConnectorSchemaConfig where
  "demo_locked = demo_cr\<lparr>csc_Schemas := Some [(''s'', Some \<lparr>so_Enabled = True, so_Tables = Some
     [(''t'', Some \<lparr>to_Enabled = True, to_Columns = Some
        [(''id'', Some \<lparr>co_Enabled = False, co_Hashed = False, co_IsPrimaryKey = False\<rparr>)], to_SyncMode = []\<rparr>)]\<rparr>)]\<rparr>"

theorem ValidateLockedColumns_iff_witness:
  "ValidateLockedColumns demo_up (Some demo_locked) \<noteq> None"
proof -
  have "config_wf demo_locked"
    by (simp add: demo_locked_def config_wf_def schema_wf_def table_wf_def gall_def gwf_def)
  moreover have "disables_locked demo_up demo_locked ''s'' ''t'' ''id''"
    by (simp add: disables_locked_def demo_locked_def demo_defs glookup_def isColumnPatchAllowed_def)
  ultimately show ?thesis using ValidateLockedColumns_iff by blast
qed

subsection \<open>Determinism of the error text\<close>

text \<open>Two resources that differ only in the order in which their maps are iterated, at any level.\<close>

definition table_perm :: "TableObject \<Rightarrow> TableObject \<Rightarrow> bool" where
  "table_perm t t' \<longleftrightarrow> to_Enabled t = to_Enabled t' \<and> to_SyncMode t = to_SyncMode t'
     \<and> mset (gentries (to_Columns t)) = mset (gentries (to_Columns t'))"

definition schema_perm :: "SchemaObject \<Rightarrow> SchemaObject \<Rightarrow> bool" where
  "schema_perm s s' \<longleftrightarrow> so_Enabled s = so_Enabled s'
     \<and> rel_mset (rel_prod (=) (rel_option table_perm)) (mset (gentries (so_Tables s))) (mset (gentries (so_Tables s')))"

definition config_perm :: "ConnectorSchemaConfig \<Rightarrow> ConnectorSchemaConfig \<Rightarrow> bool" where
  "config_perm c c' \<longleftrightarrow> csc_SchemaChangeHandling c = csc_SchemaChangeHandling c'
     \<and> rel_mset (rel_prod (=) (rel_option schema_perm)) (mset (gentries (csc_Schemas c))) (mset (gentries (csc_Schemas c')))"

lemma mset_concat_cong: "mset xs = mset ys \<Longrightarrow> mset (concat (map f xs)) = mset (concat (map f ys))"
  by (rule mset_concat_rel [where R = "(=)"]) (auto simp: rel_mset_def intro!: exI list_all2_refl)

lemma table_violations_perm:
  assumes "rel_prod (=) (rel_option table_perm) e e'"
  shows "mset (table_violations s us e) = mset (table_violations s us e')"
  using assms
  by (cases e; cases e') (auto simp: table_violations_eq table_perm_def intro: mset_concat_cong split: option.split)

lemma schema_violations_perm:
  assumes "rel_prod (=) (rel_option schema_perm) e e'"
  shows "mset (schema_violations u e) = mset (schema_violations u e')"
  using assms
  by (cases e; cases e')
    (auto simp: schema_violations_eq schema_perm_def intro: mset_concat_rel table_violations_perm split: option.split)

text \<open>C28: The outcome of ValidateLockedColumns, its error text included, is the same for every order
  in which Go iterates over the schemas, tables and columns of the resource; the text goes
  into a status condition, which therefore does not flap between reconciliations.\<close>

theorem ValidateLockedColumns_deterministic:
  assumes "config_perm c c'"
  shows "ValidateLockedColumns u (Some c) = ValidateLockedColumns u (Some c')"
proof -
  have m: "mset (violations u c) = mset (violations u c')"
    unfolding violations_def
    by (rule mset_concat_rel [where R = "rel_prod (=) (rel_option schema_perm)"])
      (use assms schema_violations_perm in \<open>auto simp: config_perm_def\<close>)
  then have "Strings (violations u c) = Strings (violations u c')" by (rule Strings_cong)
  moreover have "violations u c = [] \<longleftrightarrow> violations u c' = []" using m by (metis mset_zero_iff)
  ultimately show ?thesis by (simp add: ValidateLockedColumns_eq)
qed

definition demo_two :: "(string \<times> ColumnObject option) list \<Rightarrow> ConnectorSchemaConfig" where
  "demo_two cols = demo_cr\<lparr>csc_Schemas := Some [(''s'', Some \<lparr>so_Enabled = True, so_Tables = Some
     [(''t'', Some \<lparr>to_Enabled = True, to_Columns = Some cols, to_SyncMode = []\<rparr>)]\<rparr>)]\<rparr>"

theorem ValidateLockedColumns_deterministic_witness:
  "ValidateLockedColumns demo_up (Some (demo_two [(''x'', None), (''id'', Some \<lparr>co_Enabled = False, co_Hashed = False, co_IsPrimaryKey = False\<rparr>)]))
   = ValidateLockedColumns demo_up (Some (demo_two [(''id'', Some \<lparr>co_Enabled = False, co_Hashed = False, co_IsPrimaryKey = False\<rparr>), (''x'', None)]))"
proof (rule ValidateLockedColumns_deterministic)
  have single: "rel_mset R {#x#} {#y#}" if "R x y" for R x y
    using that by (auto simp: rel_mset_def intro!: exI [of _ "[x]"] exI [of _ "[y]"])
  show "config_perm (demo_two [(''x'', None), (''id'', Some \<lparr>co_Enabled = False, co_Hashed = False, co_IsPrimaryKey = False\<rparr>)])
     (demo_two [(''id'', Some \<lparr>co_Enabled = False, co_Hashed = False, co_IsPrimaryKey = False\<rparr>), (''x'', None)])"
    by (auto simp: config_perm_def schema_perm_def table_perm_def demo_two_def intro!: single)
qed

subsection \<open>Locked columns and the payload\<close>

text \<open>C17: A resource that passes ValidateLockedColumns never makes the operator disable a locked
  column: whatever the policy, a column the payload disables is one the server lets it change.\<close>

theorem payload_respects_locks:
  assumes "config_wf c" and "config_named c" and "response_wf u" and "response_named u"
    and valid: "ValidateLockedColumns u (Some c) = None"
    and p: "payload (BuildSchemaConfig (Some c) (Some u)) s = Some sc" "as_tables sc t = Some tb"
      "at_columns tb k = Some col" "cc_enabled col = Some False"
    and up: "glookup (sdr_Schemas u) s = Some (Some us)" "glookup (schr_Tables us) t = Some (Some ut)"
      "glookup (tabr_Columns ut) k = Some (Some uc)"
  shows "isColumnPatchAllowed (Some uc)"
proof (rule ccontr)
  assume locked: "\<not> isColumnPatchAllowed (Some uc)"
  have "spec_payload (Some c) (Some u) s = Some sc"
    using BuildSchemaConfig_correct(2) [of "Some c" "Some u"] assms(1-4) p(1) by simp
  then obtain so where so: "glookup (csc_Schemas c) s = Some (Some so)" "so_Enabled so"
    and tabs: "as_tables sc = gview cr_table (so_Tables so)
      \<or> as_tables sc = merged_tables (csc_SchemaChangeHandling c) (schr_Tables us) (so_Tables so)"
    using p(2) up(1)
    by (auto simp: spec_payload_def merged_schemas_def merged_schema_def cr_schema_def mk_schema_def
        dest!: gview_SomeD split: option.split_asm if_split_asm)
  from tabs p(2,3) up(2) obtain to where to: "glookup (so_Tables so) t = Some (Some to)"
    and cols: "at_columns tb k = gview cr_column (to_Columns to) k
      \<or> at_columns tb k = merged_columns (csc_SchemaChangeHandling c) (Some ut) (to_Columns to) k"
    by (auto simp: merged_tables_def cr_table_def mk_table_def dest!: gview_SomeD split: option.split_asm if_split_asm)
  from cols p(3) have "gview cr_column (to_Columns to) k = Some col
      \<or> merged_columns (csc_SchemaChangeHandling c) (Some ut) (to_Columns to) k = Some col" by metis
  with p(4) up(3) locked obtain co where "glookup (to_Columns to) k = Some (Some co)" "\<not> co_Enabled co"
    by (auto simp: merged_columns_def cr_column_def mk_column_def dest!: gview_SomeD split: option.split_asm if_split_asm)
  with so to up locked have "disables_locked u c s t k" unfolding disables_locked_def by blast
  then show False using valid violations_Nil [OF assms(1)] by (auto simp: ValidateLockedColumns_eq split: if_split_asm)
qed

text \<open>The demo resource disables the changeable column x.\<close>

definition demo_off :: ConnectorSchemaConfig where
  "demo_off = demo_two [(''x'', Some \<lparr>co_Enabled = False, co_Hashed = False, co_IsPrimaryKey = False\<rparr>)]"

lemma demo_off_ok: "config_wf demo_off" "config_named demo_off" "ValidateLockedColumns demo_up (Some demo_off) = None"
  by (simp_all add: demo_off_def demo_two_def demo_defs config_wf_def schema_wf_def table_wf_def gall_def gwf_def
      config_named_def schema_named_def table_named_def gnamed_def ValidateLockedColumns_eq violations_def
      schema_violations_eq table_violations_eq column_violations_def lockedColumn_body_def glookup_def isColumnPatchAllowed_def)

theorem payload_respects_locks_witness:
  "\<exists>sc tb. payload (BuildSchemaConfig (Some demo_off) (Some demo_up)) ''s'' = Some sc \<and> as_tables sc ''t'' = Some tb
     \<and> at_columns tb ''x'' = Some (mk_column False False False) \<and> isColumnPatchAllowed (Some (demo_column None))"
proof -
  have p: "payload (BuildSchemaConfig (Some demo_off) (Some demo_up)) = merged_schemas demo_off demo_up"
    using BuildSchemaConfig_correct(2) [of "Some demo_off" "Some demo_up"] demo_ok demo_off_ok
    by (simp add: spec_payload_def) (simp add: demo_off_def demo_two_def demo_cr_def policyAllowAll_def)
  obtain sc tb where c: "payload (BuildSchemaConfig (Some demo_off) (Some demo_up)) ''s'' = Some sc" "as_tables sc ''t'' = Some tb"
    "at_columns tb ''x'' = Some (mk_column False False False)" "cc_enabled (mk_column False False False) = Some False"
    unfolding p
    by (simp add: demo_off_def demo_two_def demo_defs merged_schemas_def merged_schema_def mk_schema_def merged_tables_def
        mk_table_def merged_columns_def glookup_def glen_def cr_column_def mk_column_def)
  obtain us ut where u: "glookup (sdr_Schemas demo_up) ''s'' = Some (Some us)" "glookup (schr_Tables us) ''t'' = Some (Some ut)"
    "glookup (tabr_Columns ut) ''x'' = Some (Some (demo_column None))"
    by (simp add: demo_up_def demo_table_def glookup_def)
  have "isColumnPatchAllowed (Some (demo_column None))"
    by (rule payload_respects_locks [OF demo_off_ok(1,2) demo_ok(3,4) demo_off_ok(3) c u])
  with c show ?thesis by blast
qed

subsection \<open>The second pass\<close>

lemma NeedsColumnSecondPass_iff:
  assumes "config_wf c" and "csc_SchemaChangeHandling c \<notin> {policyAllowAll, []}"
  shows "NeedsColumnSecondPass (Some c) \<longleftrightarrow>
    (\<exists>s so t to. glookup (csc_Schemas c) s = Some (Some so) \<and> so_Enabled so
       \<and> glookup (so_Tables so) t = Some (Some to) \<and> glen (to_Columns to) \<noteq> 0)"
proof -
  have wf: "gwf (csc_Schemas c)" using assms(1) by (simp add: config_wf_def gall_gwf)
  have wft: "gwf (so_Tables so)" if "glookup (csc_Schemas c) s = Some (Some so)" for s so
    using gallD [OF assms(1) [unfolded config_wf_def] that] by (simp add: schema_wf_def gall_gwf)
  let ?Q = "\<lambda>so. \<exists>t to. glookup (so_Tables so) t = Some (Some to) \<and> glen (to_Columns to) > 0"
  have "NeedsColumnSecondPass (Some c) \<longleftrightarrow> (\<exists>s so. glookup (csc_Schemas c) s = Some (Some so) \<and> (if \<not> so_Enabled so then False
      else gexists (\<lambda>_ tableObj. case tableObj of None \<Rightarrow> False | Some t \<Rightarrow> glen (to_Columns t) > 0) (so_Tables so)))"
    using assms(2) by (simp add: NeedsColumnSecondPass_def gexists_Some_iff [OF wf])
  also have "\<dots> \<longleftrightarrow> (\<exists>s so. glookup (csc_Schemas c) s = Some (Some so) \<and> so_Enabled so \<and> ?Q so)"
    by (intro ex_cong1 conj_cong refl) (simp add: gexists_Some_iff [OF wft])
  finally show ?thesis by auto
qed

lemma merged_tables_origin:
  assumes "merged_schemas c u s = Some sc" and tb: "as_tables sc t = Some tb"
  shows "\<exists>so. glookup (csc_Schemas c) s = Some (Some so) \<and> so_Enabled so
    \<and> (as_tables sc = gview cr_table (so_Tables so)
       \<or> (\<exists>uts. as_tables sc = merged_tables (csc_SchemaChangeHandling c) uts (so_Tables so)))"
proof (cases "glookup (sdr_Schemas u) s")
  case None
  with assms have "gview cr_schema (csc_Schemas c) s = Some sc" by (simp add: merged_schemas_def)
  then show ?thesis using tb by (auto dest!: gview_SomeD simp: cr_schema_def mk_schema_def split: if_split_asm)
next
  case (Some v)
  with assms obtain us where sc: "sc = merged_schema c us s" by (auto simp: merged_schemas_def)
  show ?thesis using tb unfolding sc
    by (auto simp: merged_schema_def mk_schema_def split: option.split_asm if_split_asm)
qed

lemma no_second_pass_no_columns:
  assumes "config_wf c" and "config_named c" and "response_wf u" and "response_named u"
    and pol: "csc_SchemaChangeHandling c \<notin> {policyAllowAll, []}"
    and no: "\<not> NeedsColumnSecondPass (Some c)"
    and sc: "payload (BuildSchemaConfig (Some c) (Some u)) s = Some sc" and tb: "as_tables sc t = Some tb"
  shows "at_columns tb = Map.empty"
proof -
  have none: "glen (to_Columns to) = 0" if "glookup (csc_Schemas c) s = Some (Some so)" "so_Enabled so"
      "glookup (so_Tables so) t = Some (Some to)" for so to
    using no that NeedsColumnSecondPass_iff [OF assms(1) pol] by blast
  have "merged_schemas c u s = Some sc"
    using BuildSchemaConfig_correct(2) [of "Some c" "Some u"] assms(1-4) pol sc by (simp add: spec_payload_def)
  from merged_tables_origin [OF this tb] obtain so
    where so: "glookup (csc_Schemas c) s = Some (Some so)" "so_Enabled so"
    and tabs: "as_tables sc = gview cr_table (so_Tables so)
      \<or> (\<exists>uts. as_tables sc = merged_tables (csc_SchemaChangeHandling c) uts (so_Tables so))" by blast
  have "gview cr_column (to_Columns to) = Map.empty" if "glookup (so_Tables so) t = Some (Some to)" for to
    using none [OF so that] by (simp add: glen_0_iff gview_def fun_eq_iff)
  moreover have "merged_columns p ut (to_Columns to) = Map.empty" if "glookup (so_Tables so) t = Some (Some to)" for p ut to
    using none [OF so that] by (simp add: merged_columns_def fun_eq_iff)
  ultimately show "at_columns tb = Map.empty" using tabs tb
    by (auto simp: merged_tables_def cr_table_def mk_table_def dest!: gview_SomeD split: option.split_asm if_split_asm)
qed

text \<open>C29: The second pass is run exactly when the first payload can be incomplete. Under a policy
  that manages columns, NeedsColumnSecondPass is false exactly when no table of an enabled
  schema of the resource lists a column, and then no table of the payload carries columns,
  whatever the server reports.\<close>

theorem NeedsColumnSecondPass_complete:
  assumes "config_wf c" and "config_named c" and "response_wf u" and "response_named u"
    and "csc_SchemaChangeHandling c \<notin> {policyAllowAll, []}"
  shows "(NeedsColumnSecondPass (Some c) \<longleftrightarrow>
      (\<exists>s so t to. glookup (csc_Schemas c) s = Some (Some so) \<and> so_Enabled so
         \<and> glookup (so_Tables so) t = Some (Some to) \<and> glen (to_Columns to) \<noteq> 0))
    \<and> (\<not> NeedsColumnSecondPass (Some c) \<longrightarrow>
        (\<forall>s sc t tb. payload (BuildSchemaConfig (Some c) (Some u)) s = Some sc \<longrightarrow> as_tables sc t = Some tb \<longrightarrow>
           at_columns tb = Map.empty))"
  using NeedsColumnSecondPass_iff [OF assms(1,5)] no_second_pass_no_columns [OF assms] by blast

theorem NeedsColumnSecondPass_complete_witness:
  "\<exists>sc tb. payload (BuildSchemaConfig (Some (demo_two [])) (Some demo_up)) ''s'' = Some sc \<and> as_tables sc ''t'' = Some tb
     \<and> at_columns tb = Map.empty"
proof -
  have ok: "config_wf (demo_two [])" "config_named (demo_two [])"
    and pol: "csc_SchemaChangeHandling (demo_two []) \<notin> {policyAllowAll, []}"
    and no: "\<not> NeedsColumnSecondPass (Some (demo_two []))"
    by (simp_all add: demo_two_def demo_cr_def config_wf_def schema_wf_def table_wf_def gall_def gwf_def
      config_named_def schema_named_def table_named_def gnamed_def policyAllowAll_def NeedsColumnSecondPass_def gexists_def glen_def)
  have p: "payload (BuildSchemaConfig (Some (demo_two [])) (Some demo_up)) = merged_schemas (demo_two []) demo_up"
    using BuildSchemaConfig_correct(2) [of "Some (demo_two [])" "Some demo_up"] demo_ok ok pol by (simp add: spec_payload_def)
  obtain sc tb where "payload (BuildSchemaConfig (Some (demo_two [])) (Some demo_up)) ''s'' = Some sc" "as_tables sc ''t'' = Some tb"
    unfolding p by (simp add: demo_two_def demo_defs merged_schemas_def merged_schema_def mk_schema_def merged_tables_def glookup_def)
  with NeedsColumnSecondPass_complete [OF ok demo_ok(3,4) pol] no show ?thesis by blast
qed

end
