(* ===== verification/Schema_Ops.thy ===== *)
theory Schema_Ops
  imports Connector_Ops Schema_Compare Schema_Locked
begin

text \<open>
  The file schema_ops.go of the controller: the reconciliation of the schema of a connection.
  The resource is read from the in-memory object at every use, as the source does: an update of
  the object replaces it by the answer of the server.
\<close>

subsection \<open>The operations\<close>

definition validationLevelNone :: string where "validationLevelNone = ''NONE''"
definition validationLevelTables :: string where "validationLevelTables = ''TABLES''"
definition SchemaNotFoundError :: string where "SchemaNotFoundError = ''NotFound_SchemaConfig''"

definition cr_schemas :: "FivetranConnector \<Rightarrow> ConnectorSchemaConfig option" where
  "cr_schemas connector = spec_ConnectorSchemas (fc_Spec connector)"

definition getValidationLevel :: "FivetranConnector \<Rightarrow> string" where
  "getValidationLevel connector =
     (case cr_schemas connector of
        None \<Rightarrow> validationLevelTables
      | Some c \<Rightarrow> if csc_ValidationLevel c = '''' then validationLevelTables else csc_ValidationLevel c)"

definition isConnectorSyncing :: "env \<Rightarrow> string \<Rightarrow> bool act" where
  "isConnectorSyncing E connectorID =
     bind (GetConnection E connectorID) (\<lambda>(resp, err).
       check err (Errorf_w ''isConnectorSyncing: '') (ret (conr_SyncState resp = ''syncing'')))"

definition reloadSchema :: "env \<Rightarrow> string \<Rightarrow> unit act" where
  "reloadSchema E connectorID =
     bind (ReloadSchema E connectorID ''PRESERVE'') (\<lambda>(_, err). check err (Errorf_w ''reloadSchema: '') (ret ()))"

definition validateCRAgainstUpstream :: "ConnectorSchemaConfig option \<Rightarrow> SchemaDetailsResponse \<Rightarrow> bool" where
  "validateCRAgainstUpstream crSchema upstream =
     (case crSchema of None \<Rightarrow> False
      | Some c \<Rightarrow>
        gexists (\<lambda>schemaName schemaObj.
          case schemaObj of None \<Rightarrow> False
          | Some so \<Rightarrow>
            (if \<not> so_Enabled so then False
             else case glookup (sdr_Schemas upstream) schemaName of
               Some (Some us) \<Rightarrow>
                 gexists (\<lambda>tableName tableObj.
                   case tableObj of None \<Rightarrow> False
                   | Some t \<Rightarrow> to_Enabled t \<and> glookup (schr_Tables us) tableName = None) (so_Tables so)
             | _ \<Rightarrow> True)) (csc_Schemas c))"

definition updateSchemaHash :: "env \<Rightarrow> unit act" where
  "updateSchemaHash E =
     bind get_obj (\<lambda>connector.
       case calculateSchemaHash E connector of
         Inl err \<Rightarrow> raise err
       | Inr hash \<Rightarrow>
         bind (modify_obj (\<lambda>c. c\<lparr>fc_Meta := SetAnnotation (fc_Meta c) annotationSchemaHash hash\<rparr>)) (\<lambda>_. kube_update E))"

definition applySchema :: "env \<Rightarrow> string \<Rightarrow> SchemaDetailsResponse \<Rightarrow> unit act" where
  "applySchema E connectorID upstream =
     bind get_obj (\<lambda>connector.
     bind (UpdateSchema E connectorID (BuildSchemaConfig (cr_schemas connector) (Some upstream))) (\<lambda>(_, err).
       check err (Errorf_w ''applySchema: '') (updateSchemaHash E)))"

definition createNewSchema :: "env \<Rightarrow> string \<Rightarrow> unit act" where
  "createNewSchema E connectorID =
     bind get_obj (\<lambda>connector.
     bind (CreateSchema E connectorID (BuildSchemaConfig (cr_schemas connector) None)) (\<lambda>(_, err).
       check err (Errorf_w ''createNewSchema: '')
         (wrap_err ''createNewSchema: failed to update schema hash: '' (updateSchemaHash E))))"

text \<open>
  populateColumnsForCR writes the fetched columns through the pointers of the response; the state
  of its loops is the response and whether anything was fetched.
\<close>

type_synonym fetch_state = "SchemaDetailsResponse \<times> bool"

definition upstream_table :: "SchemaDetailsResponse \<Rightarrow> string \<Rightarrow> string \<Rightarrow> TableResponse option" where
  "upstream_table up s t =
     (case glookup (sdr_Schemas up) s of
        Some (Some us) \<Rightarrow> (case glookup (schr_Tables us) t of Some ut \<Rightarrow> ut | None \<Rightarrow> None)
      | _ \<Rightarrow> None)"

definition set_columns :: "string \<Rightarrow> string \<Rightarrow> ColumnResponse option gomap \<Rightarrow> SchemaDetailsResponse \<Rightarrow> SchemaDetailsResponse" where
  "set_columns s t columns up =
     (case glookup (sdr_Schemas up) s of
        Some (Some us) \<Rightarrow>
          (case glookup (schr_Tables us) t of
             Some (Some ut) \<Rightarrow>
               up\<lparr>sdr_Schemas := ginsert s (Some (us\<lparr>schr_Tables :=
                    ginsert t (Some (ut\<lparr>tabr_Columns := columns\<rparr>)) (schr_Tables us)\<rparr>)) (sdr_Schemas up)\<rparr>
           | _ \<Rightarrow> up)
      | _ \<Rightarrow> up)"

definition needsFetch :: "TableResponse \<Rightarrow> TableObject \<Rightarrow> bool" where
  "needsFetch upstreamTable tableObj =
     (if glen (tabr_Columns upstreamTable) = 0 then True
      else gexists (\<lambda>colName _. glookup (tabr_Columns upstreamTable) colName = None) (to_Columns tableObj))"

definition populateTable_body ::
  "env \<Rightarrow> string \<Rightarrow> string \<Rightarrow> string \<Rightarrow> TableObject option \<Rightarrow> fetch_state \<Rightarrow> fetch_state act" where
  "populateTable_body E connectorID schemaName tableName tableObj st =
     (case tableObj of None \<Rightarrow> ret st
      | Some t \<Rightarrow>
        (if glen (to_Columns t) = 0 then ret st
         else case upstream_table (fst st) schemaName tableName of
           None \<Rightarrow> ret st
         | Some ut \<Rightarrow>
           (if needsFetch ut t
            then bind (wrap_err ''populateColumnsForCR: '' (GetColumnConfig E connectorID schemaName tableName)) (\<lambda>columns.
                   ret (set_columns schemaName tableName columns (fst st), True))
            else ret st)))"

fun for_entries :: "(string \<Rightarrow> 'v \<Rightarrow> 's \<Rightarrow> 's act) \<Rightarrow> (string \<times> 'v) list \<Rightarrow> 's \<Rightarrow> 's act" where
  "for_entries f [] st = ret st"
| "for_entries f ((k, v) # es) st = bind (f k v st) (for_entries f es)"

definition populateSchema_body :: "env \<Rightarrow> string \<Rightarrow> string \<Rightarrow> SchemaObject option \<Rightarrow> fetch_state \<Rightarrow> fetch_state act" where
  "populateSchema_body E connectorID schemaName schemaObj st =
     (case schemaObj of None \<Rightarrow> ret st
      | Some so \<Rightarrow>
        (if \<not> so_Enabled so then ret st
         else case glookup (sdr_Schemas (fst st)) schemaName of
           Some (Some _) \<Rightarrow> for_entries (populateTable_body E connectorID schemaName) (gentries (so_Tables so)) st
         | _ \<Rightarrow> ret st))"

definition populateColumnsForCR ::
  "env \<Rightarrow> string \<Rightarrow> ConnectorSchemaConfig option \<Rightarrow> SchemaDetailsResponse \<Rightarrow> fetch_state act" where
  "populateColumnsForCR E connectorID crSchema upstream =
     (case crSchema of None \<Rightarrow> ret (upstream, False)
      | Some c \<Rightarrow> for_entries (populateSchema_body E connectorID) (gentries (csc_Schemas c)) (upstream, False))"

definition reload_details :: "env \<Rightarrow> string \<Rightarrow> SchemaDetailsResponse act" where
  "reload_details E connectorID =
     bind (wrap_err ''reconcileSchema: '' (reloadSchema E connectorID)) (\<lambda>_.
     bind (GetSchemaDetails E connectorID) (\<lambda>(details, err).
       check err (Errorf_w ''reconcileSchema: failed to get schema details after reload: '') (ret details)))"

definition first_columns :: "env \<Rightarrow> string \<Rightarrow> SchemaDetailsResponse \<Rightarrow> fetch_state act" where
  "first_columns E connectorID schemaDetails =
     bind get_obj (\<lambda>connector.
       if NeedsColumnSecondPass (cr_schemas connector)
       then bind (wrap_err ''reconcileSchema: '' (populateColumnsForCR E connectorID (cr_schemas connector) schemaDetails)) (\<lambda>st.
              case ValidateLockedColumns (fst st) (cr_schemas connector) of
                Some err \<Rightarrow> raise (Wrapped (''reconcileSchema: '' @ sentinel_text ErrLockedColumns @ '': '' @ Error err)
                              [Sentinel ErrLockedColumns, err])
              | None \<Rightarrow> ret st)
       else ret (schemaDetails, False))"

definition second_pass :: "env \<Rightarrow> string \<Rightarrow> unit act" where
  "second_pass E connectorID =
     bind (GetSchemaDetails E connectorID) (\<lambda>(details, err).
       check err (Errorf_w ''reconcileSchema: failed to get schema details for second pass: '')
         (bind get_obj (\<lambda>connector.
          bind (wrap_err ''reconcileSchema: second pass populate: '' (populateColumnsForCR E connectorID (cr_schemas connector) details)) (\<lambda>st.
          wrap_err ''reconcileSchema: second pass: '' (applySchema E connectorID (fst st))))))"

definition verifySchema :: "env \<Rightarrow> string \<Rightarrow> unit act" where
  "verifySchema E connectorID =
     bind (GetSchemaDetails E connectorID) (\<lambda>(details, err).
       check err (Errorf_w ''reconcileSchema: failed to get schema details after apply: '')
         (bind get_obj (\<lambda>connector.
            let (matches, mismatchDetails) = CompareSchemaWithCR details (cr_schemas connector)
            in if \<not> matches
               then raise (Wrapped (''reconcileSchema: '' @ SchemaMismatch_String mismatchDetails @ '' - '' @ sentinel_text ErrSchemaMismatch)
                      [Sentinel ErrSchemaMismatch])
               else ret ())))"

definition schema_ready :: "env \<Rightarrow> unit act" where
  "schema_ready E = setCondition E conditionTypeSchemaReady ConditionTrue SchemaReasonReconciliationSuccess msgSchemaReady"

definition apply_and_verify :: "env \<Rightarrow> string \<Rightarrow> string \<Rightarrow> SchemaDetailsResponse \<Rightarrow> unit act" where
  "apply_and_verify E connectorID validationLevel schemaDetails =
     bind (first_columns E connectorID schemaDetails) (\<lambda>(details, columnsWereMissing).
     bind (wrap_err ''reconcileSchema: '' (applySchema E connectorID details)) (\<lambda>_.
     bind (if columnsWereMissing then second_pass E connectorID else ret ()) (\<lambda>_.
     bind (if validationLevel \<noteq> validationLevelNone then verifySchema E connectorID else ret ()) (\<lambda>_.
     schema_ready E))))"

definition reconcile_details ::
  "env \<Rightarrow> string \<Rightarrow> FivetranConnector \<Rightarrow> SchemaDetailsResponse \<Rightarrow> goerr option \<Rightarrow> unit act" where
  "reconcile_details E connectorID connector schemaDetails err =
     (let validationLevel = getValidationLevel connector
      in case err of
           Some e \<Rightarrow>
             if cr_Code (sdr_Common schemaDetails) \<noteq> SchemaNotFoundError
             then raise (Errorf_w ''reconcileSchema: failed to get schema details: '' e)
             else if validationLevel = validationLevelNone
             then bind (wrap_err ''reconcileSchema: '' (createNewSchema E connectorID)) (\<lambda>_. schema_ready E)
             else bind (reload_details E connectorID) (apply_and_verify E connectorID validationLevel)
         | None \<Rightarrow>
             if validationLevel \<noteq> validationLevelNone \<and> validateCRAgainstUpstream (cr_schemas connector) schemaDetails
             then bind (reload_details E connectorID) (apply_and_verify E connectorID validationLevel)
             else apply_and_verify E connectorID validationLevel schemaDetails)"

definition reconcileSchema :: "env \<Rightarrow> string \<Rightarrow> unit act" where
  "reconcileSchema E connectorID =
     bind get_obj (\<lambda>connector.
     bind (wrap_err ''reconcileSchema: '' (isConnectorSyncing E connectorID)) (\<lambda>syncing.
       if syncing then raise (Sentinel ErrConnectorSyncing)
       else bind (GetSchemaDetails E connectorID) (\<lambda>(schemaDetails, err).
              reconcile_details E connectorID connector schemaDetails err)))"

end
