(* ===== verification/Controller.thy ===== *)
theory Controller
  imports Schema_Ops
begin

text \<open>
  The file controller.go: the reconciliation of one resource and the deletion of its connection.
  The phases of the method Reconcile are definitions of their own; \<open>or_handle\<close> is the statement
  \<open>if err != nil { return r.handleError(...) }\<close> that follows each of them.
\<close>

subsection \<open>Deletion\<close>

definition handleDeletion :: "env \<Rightarrow> unit act" where
  "handleDeletion E =
     bind get_obj (\<lambda>connector.
       if \<not> ContainsFinalizer (fc_Meta connector) fivetranFinalizer then ret ()
       else
         bind (if st_ConnectorID (fc_Status connector) \<noteq> ''''
               then
                 (let allowDeletion = (GetAnnotation (fc_Meta connector) annotationAllowDeletion = ''true'')
                  in if allowDeletion
                     then bind (DeleteConnection E (st_ConnectorID (fc_Status connector))) (\<lambda>(_, err). check err id (ret ()))
                     else ret ())
               else ret ()) (\<lambda>_.
         bind (modify_obj (\<lambda>c. c\<lparr>fc_Meta := RemoveFinalizer (fc_Meta c) fivetranFinalizer\<rparr>)) (\<lambda>_.
         kube_update E)))"

subsection \<open>Reconciliation\<close>

definition or_handle ::
  "env \<Rightarrow> string \<Rightarrow> string \<Rightarrow> 'a act \<Rightarrow> ('a \<Rightarrow> (Result \<times> goerr option) act) \<Rightarrow> (Result \<times> goerr option) act" where
  "or_handle E conditionType reason a k =
     attempt a (\<lambda>r. case r of Inl err \<Rightarrow> handleError E conditionType reason err | Inr x \<Rightarrow> k x)"

text \<open>\<open>apierrors.IsNotFound\<close>: the reason of the first API status in the error tree.\<close>

fun status_reason :: "goerr \<Rightarrow> string option" where
  "status_reason (K8sStatus reason _) = Some reason"
| "status_reason (Wrapped _ es) = first_some status_reason es"
| "status_reason (Joined es) = first_some status_reason es"
| "status_reason _ = None"

definition IgnoreNotFound :: "goerr \<Rightarrow> goerr option" where
  "IgnoreNotFound err = (if status_reason err = Some ''NotFound'' then None else Some err)"

definition set_vault :: "VaultClient \<Rightarrow> unit act" where
  "set_vault vc w = (Ok (), w\<lparr>w_vault := Some vc\<rparr>)"

text \<open>\<open>r.VaultClient == nil || !vaultpkg.IsTokenValid(r.VaultClient, 300)\<close>, negated: the field is read twice.\<close>

definition token_valid :: "env \<Rightarrow> bool act" where
  "token_valid E w =
     (let w1 = others E w
      in case w_vault w1 of
           None \<Rightarrow> (Ok False, w1)
         | Some _ \<Rightarrow> (let w2 = others E w1 in IsTokenValid E (w_vault w2) 300 w2))"

definition ensure_vault :: "env \<Rightarrow> string \<Rightarrow> unit act" where
  "ensure_vault E namespace =
     bind (token_valid E) (\<lambda>valid.
       if valid then ret ()
       else
         (let fromEnv = e_getenv E envFivetranVaultSecretName;
              vaultSecretName = (if fromEnv = '''' then defaultVaultSecretName else fromEnv)
          in attempt (InitializeVaultClientFromSecret E namespace vaultSecretName) (\<lambda>r. case r of
               Inl err \<Rightarrow> raise (Wrapped (sentinel_text ErrVaultClientInitializationFailed @ '': '' @ Error err)
                            [Sentinel ErrVaultClientInitializationFailed, err])
             | Inr vaultClient \<Rightarrow> set_vault vaultClient)))"

definition finish :: "env \<Rightarrow> bool \<Rightarrow> string \<Rightarrow> RawExtension option \<Rightarrow> RawExtension option \<Rightarrow> (Result \<times> goerr option) act" where
  "finish E doConnector connectorID resolvedConfig resolvedAuth =
     or_handle E conditionTypeConnectorReady ConnectorReasonReconciliationFailed
       (if doConnector then updateConnector E connectorID resolvedConfig resolvedAuth else ret ()) (\<lambda>_.
     or_handle E conditionTypeConnectorReady ConnectorReasonReconciliationFailed (cleanupAnnotationsAndLabels E) (\<lambda>_.
     ret (result 0, None)))"

definition schema_phase ::
  "env \<Rightarrow> bool \<Rightarrow> bool \<Rightarrow> string \<Rightarrow> RawExtension option \<Rightarrow> RawExtension option \<Rightarrow> (Result \<times> goerr option) act" where
  "schema_phase E doConnector doSchema connectorID resolvedConfig resolvedAuth =
     bind get_obj (\<lambda>connector.
       if doSchema \<and> hasSchemaConfig connector
       then or_handle E conditionTypeSchemaReady SchemaReasonReconciliationFailed (reconcileSchema E connectorID)
              (\<lambda>_. finish E doConnector connectorID resolvedConfig resolvedAuth)
       else if \<not> hasSchemaConfig connector
       then or_handle E conditionTypeSchemaReady SchemaReasonSkipped
              (setCondition E conditionTypeSchemaReady ConditionTrue SchemaReasonSkipped msgSchemaSkipped)
              (\<lambda>_. finish E doConnector connectorID resolvedConfig resolvedAuth)
       else finish E doConnector connectorID resolvedConfig resolvedAuth)"

definition connector_phase ::
  "env \<Rightarrow> bool \<Rightarrow> bool \<Rightarrow> RawExtension option \<Rightarrow> RawExtension option \<Rightarrow> (Result \<times> goerr option) act" where
  "connector_phase E doConnector doSchema resolvedConfig resolvedAuth =
     bind get_obj (\<lambda>connector.
       if doConnector
       then or_handle E conditionTypeConnectorReady ConnectorReasonReconciliationFailed (reconcileConnector E resolvedConfig resolvedAuth) (\<lambda>connectorID.
            or_handle E conditionTypeSetupTestReady SetupTestsReasonReconciliationFailed (reconcileSetupTests E connectorID) (\<lambda>_.
            schema_phase E doConnector doSchema connectorID resolvedConfig resolvedAuth))
       else schema_phase E doConnector doSchema (st_ConnectorID (fc_Status connector)) resolvedConfig resolvedAuth)"

definition take_force_label :: "env \<Rightarrow> bool \<Rightarrow> unit act" where
  "take_force_label E forceReconcile =
     (if forceReconcile
      then bind (modify_obj (\<lambda>c. c\<lparr>fc_Meta := RemoveLabel (fc_Meta c) annotationForceReconcile\<rparr>)) (\<lambda>_. kube_update E)
      else ret ())"

definition reconcile_needs :: "env \<Rightarrow> bool \<Rightarrow> (Result \<times> goerr option) act" where
  "reconcile_needs E forceReconcile =
     bind get_obj (\<lambda>connector.
       case determineReconciliationNeeds E connector forceReconcile of
         Inl err \<Rightarrow> handleError E conditionTypeConnectorReady ConnectorReasonReconciliationFailed err
       | Inr (doConnector, doSchema) \<Rightarrow>
         (if \<not> doConnector \<and> \<not> doSchema then ret (result 0, None)
          else or_handle E conditionTypeConnectorReady ConnectorReasonVaultSecretsResolutionFailed (resolveSecrets E)
                 (\<lambda>(resolvedConfig, resolvedAuth). connector_phase E doConnector doSchema resolvedConfig resolvedAuth)))"

definition reconcile_live :: "env \<Rightarrow> (Result \<times> goerr option) act" where
  "reconcile_live E =
     or_handle E conditionTypeConnectorReady ConnectorReasonFinalizerUpdateFailed (ensureFinalizer E) (\<lambda>_.
     bind get_obj (\<lambda>connector.
       let forceReconcile = HasLabel (fc_Meta connector) annotationForceReconcile
       in or_handle E conditionTypeConnectorReady ConnectorReasonReconciliationFailed (take_force_label E forceReconcile) (\<lambda>_.
          reconcile_needs E forceReconcile)))"

definition Reconcile :: "env \<Rightarrow> bool \<Rightarrow> string \<Rightarrow> (Result \<times> goerr option) act" where
  "Reconcile E fivetranClient namespace =
     attempt (kube_get E) (\<lambda>r. case r of
       Inl err \<Rightarrow> ret (result 0, IgnoreNotFound err)
     | Inr _ \<Rightarrow>
       (if \<not> fivetranClient
        then handleError E conditionTypeConnectorReady ConnectorReasonFivetranClientNotInitialized (Sentinel ErrFivetranClientNotInitialized)
        else attempt (ensure_vault E namespace) (\<lambda>r. case r of
          Inl err \<Rightarrow> ret (result 0, Some err)
        | Inr _ \<Rightarrow>
          bind get_obj (\<lambda>connector.
            if om_DeletionTimestamp (fc_Meta connector) \<noteq> None
            then or_handle E conditionTypeConnectorReady ConnectorReasonDeletionFailed (handleDeletion E) (\<lambda>_. ret (result 0, None))
            else reconcile_live E))))"

subsection \<open>Frames\<close>

lemma emit_or_handle [frames]:
  assumes "emit.keeps P a" and "\<And>x. emit.keeps P (k x)" and "\<And>x. P (KubeStatusUpdate x)"
  shows "emit.keeps P (or_handle E ct r a k)"
  unfolding or_handle_def by (intro emit.keeps_rules frames assms)

lemma emit_for_entries [frames]:
  "(\<And>k v s. emit.keeps P (f k v s)) \<Longrightarrow> emit.keeps P (for_entries f es st)"
  by (induction f es st rule: for_entries.induct) (auto intro!: emit.keeps_rules)

lemma emit_token_valid: "P VaultLookupSelf \<Longrightarrow> emit.keeps P (token_valid E)"
  unfolding emit.keeps_def
proof
  fix w
  assume p: "P VaultLookupSelf"
  have "w_trace (snd (token_valid E w)) \<in> {w_trace w, w_trace w @ [VaultLookupSelf]}"
    by (auto simp: token_valid_def IsTokenValid_def log_event_def Let_def split: option.split sum.split json.split)
  then show "grows P w (snd (token_valid E w))"
    using p growsI [of _ w "[]" P] growsI [of _ w "[VaultLookupSelf]" P] by auto
qed

lemma emit_set_vault: "emit.keeps P (set_vault vc)"
  unfolding emit.keeps_def by (intro allI growsI [of _ _ "[]"]) (simp_all add: set_vault_def)

lemma emit_ensure_vault [frames]:
  assumes "P VaultLookupSelf" and "\<And>e. vault_init_event e \<Longrightarrow> P e"
  shows "emit.keeps P (ensure_vault E ns)"
  unfolding ensure_vault_def by (intro emit.keeps_rules emit_token_valid emit_Initialize emit_set_vault assms)

lemma emit_populate [frames]:
  assumes "\<And>s t. P (Sdk (ColumnConfigList i s t))"
  shows "emit.keeps P (populateColumnsForCR E i cr up)"
  unfolding populateColumnsForCR_def populateSchema_body_def populateTable_body_def
  by (auto intro!: emit.keeps_rules frames assms split: option.split)

text \<open>The calls of the phases, in terms of the calls they may make.\<close>

definition schema_write :: "event \<Rightarrow> bool" where
  "schema_write e = (case e of Sdk (SchemaCreate _ _) \<Rightarrow> True | Sdk (SchemaUpdate _ _) \<Rightarrow> True | _ \<Rightarrow> False)"

definition schema_event :: "string \<Rightarrow> event \<Rightarrow> bool" where
  "schema_event i e = (case e of
      Sdk (ConnectionDetails j) \<Rightarrow> j = i | Sdk (SchemaCreate j _) \<Rightarrow> j = i | Sdk (SchemaUpdate j _) \<Rightarrow> j = i
    | Sdk (SchemaDetails j) \<Rightarrow> j = i | Sdk (ColumnConfigList j _ _) \<Rightarrow> j = i | Sdk (SchemaReload j m) \<Rightarrow> j = i \<and> m = ''PRESERVE''
    | KubeUpdate _ \<Rightarrow> True | KubeStatusUpdate _ \<Rightarrow> True | _ \<Rightarrow> False)"

lemma emit_updateSchemaHash [frames]: "(\<And>x. P (KubeUpdate x)) \<Longrightarrow> emit.keeps P (updateSchemaHash E)"
  unfolding updateSchemaHash_def by (intro emit.keeps_rules frames)

lemma emit_applySchema [frames]:
  assumes "\<And>r. P (Sdk (SchemaUpdate i r))" and "\<And>x. P (KubeUpdate x)"
  shows "emit.keeps P (applySchema E i up)"
  unfolding applySchema_def service_defs by (intro emit.keeps_rules frames assms)

lemma emit_createNewSchema [frames]:
  assumes "\<And>r. P (Sdk (SchemaCreate i r))" and "\<And>x. P (KubeUpdate x)"
  shows "emit.keeps P (createNewSchema E i)"
  unfolding createNewSchema_def service_defs by (intro emit.keeps_rules frames assms)

lemma emit_reload_details [frames]:
  assumes "P (Sdk (SchemaReload i ''PRESERVE''))" and "P (Sdk (SchemaDetails i))"
  shows "emit.keeps P (reload_details E i)"
  unfolding reload_details_def reloadSchema_def service_defs by (intro emit.keeps_rules frames assms)

lemma emit_apply_and_verify [frames]:
  assumes "\<And>r. P (Sdk (SchemaUpdate i r))" and "P (Sdk (SchemaDetails i))" and "\<And>s t. P (Sdk (ColumnConfigList i s t))"
    and "\<And>x. P (KubeUpdate x)" and "\<And>x. P (KubeStatusUpdate x)"
  shows "emit.keeps P (apply_and_verify E i l d)"
  unfolding apply_and_verify_def first_columns_def second_pass_def verifySchema_def schema_ready_def service_defs
  by (intro emit.keeps_rules frames assms)

lemma emit_isConnectorSyncing [frames]: "P (Sdk (ConnectionDetails i)) \<Longrightarrow> emit.keeps P (isConnectorSyncing E i)"
  unfolding isConnectorSyncing_def service_defs by (intro emit.keeps_rules frames)

lemma emit_reconcileSchema [frames]:
  assumes "\<And>e. schema_event i e \<Longrightarrow> P e"
  shows "emit.keeps P (reconcileSchema E i)"
proof -
  have "emit.keeps (schema_event i) (reconcileSchema E i)"
    unfolding reconcileSchema_def reconcile_details_def schema_ready_def GetSchemaDetails_def
    by (intro emit.keeps_rules frames; simp add: schema_event_def)
  then show ?thesis by (rule emit_mono) (rule assms)
qed

lemma emit_finish [frames]:
  assumes "\<And>r. P (Sdk (ConnectionUpdate i r))" and "\<And>x. P (KubeUpdate x)" and "\<And>x. P (KubeStatusUpdate x)"
  shows "emit.keeps P (finish E dc i rc ra)"
  unfolding finish_def by (intro emit.keeps_rules frames assms)

text \<open>Neither a deletion nor a creation: what the phases after the identity of the connector do.\<close>

definition plain_event :: "event \<Rightarrow> bool" where
  "plain_event e = (case e of Sdk (ConnectionDelete _) \<Rightarrow> False | Sdk (ConnectionCreate _) \<Rightarrow> False | _ \<Rightarrow> True)"

lemma plain_simps [simp]:
  "plain_event (KubeUpdate x)" "plain_event (KubeStatusUpdate x)" "plain_event (Sdk (ConnectionUpdate i r))"
  "plain_event (Sdk (ConnectionDetails i))" "plain_event (Sdk (ConnectionSetupTests i c f))" "plain_event (VaultRead m p)"
  "plain_event KubeGet" "plain_event VaultLookupSelf"
  by (simp_all add: plain_event_def)

lemma schema_event_plain: "schema_event i e \<Longrightarrow> plain_event e"
  by (auto simp: schema_event_def plain_event_def split: event.split_asm sdk_call.split_asm)

lemma vault_init_plain: "vault_init_event e \<Longrightarrow> plain_event e"
  by (auto simp: vault_init_event_def plain_event_def split: event.split_asm)

lemma emit_schema_phase: "emit.keeps plain_event (schema_phase E dc ds i rc ra)"
  unfolding schema_phase_def by (intro emit.keeps_rules frames; simp add: schema_event_plain)

definition no_delete :: "event \<Rightarrow> bool" where
  "no_delete e = (case e of Sdk (ConnectionDelete _) \<Rightarrow> False | _ \<Rightarrow> True)"

lemma plain_no_delete: "plain_event e \<Longrightarrow> no_delete e"
  by (auto simp: plain_event_def no_delete_def split: event.split_asm sdk_call.split_asm)

lemma no_delete_create [simp]: "no_delete (Sdk (ConnectionCreate r))"
  by (simp add: no_delete_def)

lemma emit_connector_identity:
  "emit.keeps no_delete (connector_identity E rc ra)"
  unfolding connector_identity_def by (intro emit.keeps_rules frames; simp add: plain_no_delete)

lemma emit_connector_phase: "emit.keeps no_delete (connector_phase E dc ds rc ra)"
  unfolding connector_phase_def reconcileConnector_def
  by (intro emit.keeps_rules frames emit_connector_identity emit_mono [OF emit_schema_phase]; simp add: plain_no_delete)

lemma emit_reconcile_live: "emit.keeps no_delete (reconcile_live E)"
  unfolding reconcile_live_def reconcile_needs_def take_force_label_def
  by (intro emit.keeps_rules frames emit_connector_phase; simp add: plain_no_delete)

interpretation obj_kept: action_frame "\<lambda>w w'. w_obj w' = w_obj w"
  by unfold_locales simp_all

lemma obj_kept_ensure_vault: "obj_kept.keeps (ensure_vault E ns)"
proof -
  have "obj_kept.keeps (token_valid E)"
    by (auto simp: obj_kept.keeps_def token_valid_def IsTokenValid_def log_event_def Let_def
        split: option.split sum.split json.split)
  moreover have "obj_kept.keeps (get_secret E ns n)" for n
    by (auto simp: obj_kept.keeps_def get_secret_def log_event_def Let_def split: sum.split)
  moreover have "obj_kept.keeps (vault_NewClient E c)" for c
    by (auto simp: obj_kept.keeps_def vault_NewClient_def log_event_def Let_def split: sum.split option.split)
  moreover have "obj_kept.keeps (set_vault vc)" for vc by (simp add: obj_kept.keeps_def set_vault_def)
  ultimately show ?thesis unfolding ensure_vault_def InitializeVaultClientFromSecret_def by (intro obj_kept.keeps_rules)
qed

text \<open>
  What is added to the trace by a reconciliation: enough to look at the deletion and at the live
  branch, from a world that holds the object the server has just returned.
\<close>

lemma or_handle_grows:
  assumes "grows Q w (snd (a w))" and "\<And>x. Q (KubeStatusUpdate x)"
    and "\<And>x w'. a w = (Ok x, w') \<Longrightarrow> grows Q w' (snd (k x w'))"
  shows "grows Q w (snd (or_handle E ct r a k w))"
  unfolding or_handle_def using assms
  by (intro emit.step_attempt) (auto intro: emit.step_keeps [OF emit_handleError])

lemma get_obj_grows:
  "grows Q w (snd (f (w_obj w) w)) \<Longrightarrow> grows Q w (snd (bind get_obj f w))"
  by (simp add: bind_def get_obj_def)

lemma Reconcile_grows_from:
  assumes "Q KubeGet" and st: "\<And>x. Q (KubeStatusUpdate x)" and "Q VaultLookupSelf" and "\<And>e. vault_init_event e \<Longrightarrow> Q e"
    and del: "\<And>w1. e_get E (w_trace w) = Inr (w_obj w1) \<Longrightarrow> om_DeletionTimestamp (fc_Meta (w_obj w1)) \<noteq> None \<Longrightarrow>
      grows Q w1 (snd (handleDeletion E w1))"
    and live: "\<And>w0 u w1. kube_get E w = (Ok (), w0) \<Longrightarrow> ensure_vault E ns w0 = (Ok u, w1) \<Longrightarrow>
      e_get E (w_trace w) = Inr (w_obj w1) \<Longrightarrow> om_DeletionTimestamp (fc_Meta (w_obj w1)) = None \<Longrightarrow>
      grows Q w1 (snd (reconcile_live E w1))"
  shows "grows Q w (snd (Reconcile E cl ns w))"
  unfolding Reconcile_def
proof (rule emit.step_attempt)
  show "grows Q w (snd (kube_get E w))" by (intro emit.step_keeps emit_kube_get assms)
  fix e w1
  show "grows Q w1 (snd ((case Inl e of Inl err \<Rightarrow> ret (result 0, IgnoreNotFound err)
    | Inr x \<Rightarrow> k x) w1))" for k :: "unit \<Rightarrow> (Result \<times> goerr option) act"
    using emit.step_keeps [OF emit.keeps_ret] by simp
next
  fix r :: unit and w1
  assume g: "kube_get E w = (Ok r, w1)"
  then have o1: "e_get E (w_trace w) = Inr (w_obj w1)"
    by (auto simp: kube_get_def log_event_def Let_def split: sum.split_asm)
  have vault: "grows Q w1 (snd (ensure_vault E ns w1))" by (intro emit.step_keeps emit_ensure_vault assms)
  have branch: "grows Q w2 (snd (bind get_obj (\<lambda>connector. if om_DeletionTimestamp (fc_Meta connector) \<noteq> None
      then or_handle E conditionTypeConnectorReady ConnectorReasonDeletionFailed (handleDeletion E) (\<lambda>_. ret (result 0, None))
      else reconcile_live E) w2))" if v: "ensure_vault E ns w1 = (Ok x, w2)" for x w2
  proof -
    have "w_obj w2 = w_obj w1" by (rule obj_kept.keepsD [OF obj_kept_ensure_vault v])
    then have o2: "e_get E (w_trace w) = Inr (w_obj w2)" using o1 by simp
    then show ?thesis using del live [OF _ v] g
      by (auto intro!: get_obj_grows or_handle_grows st emit.step_keeps [OF emit.keeps_ret])
  qed
  show "grows Q w1 (snd ((case Inr r of Inl err \<Rightarrow> ret (result 0, IgnoreNotFound err)
      | Inr _ \<Rightarrow> if \<not> cl then handleError E conditionTypeConnectorReady ConnectorReasonFivetranClientNotInitialized (Sentinel ErrFivetranClientNotInitialized)
        else attempt (ensure_vault E ns) (\<lambda>r. case r of Inl err \<Rightarrow> ret (result 0, Some err)
          | Inr _ \<Rightarrow> bind get_obj (\<lambda>connector. if om_DeletionTimestamp (fc_Meta connector) \<noteq> None
              then or_handle E conditionTypeConnectorReady ConnectorReasonDeletionFailed (handleDeletion E) (\<lambda>_. ret (result 0, None))
              else reconcile_live E))) w1))"
    using emit.step_keeps [OF emit_handleError [of Q, OF st]] emit.step_keeps [OF emit.keeps_ret] branch
    by (auto intro!: emit.step_attempt vault)
qed

lemma Reconcile_grows:
  assumes "Q KubeGet" and "\<And>x. Q (KubeStatusUpdate x)" and "Q VaultLookupSelf" and "\<And>e. vault_init_event e \<Longrightarrow> Q e"
    and "\<And>w1. e_get E (w_trace w) = Inr (w_obj w1) \<Longrightarrow> om_DeletionTimestamp (fc_Meta (w_obj w1)) \<noteq> None \<Longrightarrow>
      grows Q w1 (snd (handleDeletion E w1))"
    and "\<And>w1. e_get E (w_trace w) = Inr (w_obj w1) \<Longrightarrow> om_DeletionTimestamp (fc_Meta (w_obj w1)) = None \<Longrightarrow>
      grows Q w1 (snd (reconcile_live E w1))"
  shows "grows Q w (snd (Reconcile E cl ns w))"
  by (rule Reconcile_grows_from) (rule assms; assumption)+

end
