(* ===== verification/Live_Frame.thy ===== *)
theory Live_Frame
  imports Controller
begin

text \<open>
  An interface for properties of whole reconciliations of a live resource. The locale
  \<open>live_frame\<close> asks that a relation between worlds is kept by the few kinds of steps of which the
  operations are made (the finalizer that is added, the force label that is taken off, the hash
  that is recorded, a condition that is put and sent, a request to Fivetran, a read from Vault, the step that settles the identity of the
  connection, and the two writes of a schema) and shows once that it is then kept by every
  operation up to \<open>reconcile_live\<close>. A relation may assume that the answers of Fivetran
  have a property \<open>G\<close>: it then holds of all worlds when they do not.
\<close>

subsection \<open>Shapes of changes\<close>

definition meta_only :: "(FivetranConnector \<Rightarrow> FivetranConnector) \<Rightarrow> bool" where
  "meta_only f \<longleftrightarrow> (\<forall>c. \<exists>m. f c = c\<lparr>fc_Meta := m\<rparr>)"

lemma meta_onlyI: "meta_only (\<lambda>c. c\<lparr>fc_Meta := g (fc_Meta c)\<rparr>)"
  by (auto simp: meta_only_def)

lemma meta_onlyD: "meta_only f \<Longrightarrow> fc_Spec (f c) = fc_Spec c \<and> fc_Status (f c) = fc_Status c"
  unfolding meta_only_def by (drule spec [of _ c]) auto

lemma with_condition_rest [simp]:
  "fc_Spec (with_condition cd c) = fc_Spec c" "fc_Meta (with_condition cd c) = fc_Meta c"
  "st_ConnectorID (fc_Status (with_condition cd c)) = st_ConnectorID (fc_Status c)"
  by (simp_all add: with_condition_def)

definition send_meta :: "env \<Rightarrow> (FivetranConnector \<Rightarrow> FivetranConnector) \<Rightarrow> unit act" where
  "send_meta E f = bind (modify_obj f) (\<lambda>_. kube_update E)"

definition send_status :: "env \<Rightarrow> (FivetranConnector \<Rightarrow> FivetranConnector) \<Rightarrow> unit act" where
  "send_status E f = bind (modify_obj f) (\<lambda>_. kube_status_update E)"

lemma setCondition_send:
  "setCondition E ct st r m w = send_status E (with_condition \<lparr>cond_Type = ct, cond_Status = st, cond_Reason = r,
     cond_Message = m, cond_LastTransitionTime = e_now E (w_trace w)\<rparr>) w"
  by (simp add: setCondition_eq send_status_def bind_def modify_obj_def)

text \<open>The calls to connections that neither create nor delete one.\<close>

definition tame_call :: "sdk_call \<Rightarrow> bool" where
  "tame_call c = (case c of ConnectionDetails _ \<Rightarrow> True | ConnectionUpdate _ _ \<Rightarrow> True | ConnectionSetupTests _ _ _ \<Rightarrow> True
     | _ \<Rightarrow> False)"

lemma tame_simps [simp]:
  "tame_call (ConnectionDetails i)" "tame_call (ConnectionUpdate i u)" "tame_call (ConnectionSetupTests i a b)"
  by (simp_all add: tame_call_def)

definition read_call :: "sdk_call \<Rightarrow> bool" where
  "read_call c = (case c of SchemaDetails _ \<Rightarrow> True | SchemaReload _ _ \<Rightarrow> True | _ \<Rightarrow> False)"

lemma read_simps [simp]: "read_call (SchemaDetails i)" "read_call (SchemaReload i m)"
  by (simp_all add: read_call_def)

subsection \<open>Responses\<close>

text \<open>
  A property \<open>G\<close> of schema responses that all answers of Fivetran have and that is kept when the
  columns that were fetched for one table are put into a response.
\<close>

definition responses :: "(SchemaDetailsResponse \<Rightarrow> bool) \<Rightarrow> env \<Rightarrow> bool" where
  "responses G E \<longleftrightarrow> (\<forall>h c. G (fst (e_schema E h c)))
     \<and> (\<forall>h i s t up. G up \<longrightarrow> G (set_columns s t (fst (e_columns E h (ColumnConfigList i s t))) up))"

lemma populateTable_good:
  assumes "responses G E" and "G (fst st)" and "populateTable_body E i s t to st w = (Ok st', w')"
  shows "G (fst st')"
proof -
  have "G (set_columns s t columns (fst st))" if "GetColumnConfig E i s t w = (Ok columns, w')" for columns
  proof -
    have "columns = fst (e_columns E (w_trace w) (ColumnConfigList i s t))"
      using that by (auto simp: GetColumnConfig_def Let_def split: prod.split_asm option.split_asm)
    then show ?thesis using assms(1,2) by (simp add: responses_def)
  qed
  then show ?thesis using assms(2,3)
    by (auto simp: populateTable_body_def ret_def bind_Ok wrap_err_Ok split: option.split_asm if_split_asm)
qed

lemma for_entries_good:
  assumes "\<And>k v s w s' w'. I s \<Longrightarrow> f k v s w = (Ok s', w') \<Longrightarrow> I s'"
  shows "I st \<Longrightarrow> for_entries f es st w = (Ok st', w') \<Longrightarrow> I st'"
proof (induction es arbitrary: st w)
  case (Cons e es)
  then show ?case using assms by (cases e) (simp add: bind_Ok, blast)
qed (simp add: ret_def)

lemma populateSchema_good:
  assumes "responses G E" and "G (fst st)" and "populateSchema_body E i s so st w = (Ok st', w')"
  shows "G (fst st')"
proof -
  have "G (fst st')" if "for_entries (populateTable_body E i s) es st w = (Ok st', w')" for es
    using for_entries_good [where I = "\<lambda>st. G (fst st)", OF populateTable_good [OF assms(1)] assms(2) that] by simp
  then show ?thesis using assms(2,3)
    by (auto simp: populateSchema_body_def ret_def split: option.split_asm if_split_asm)
qed

lemma populate_good:
  assumes "responses G E" and "G up" and "populateColumnsForCR E i cr up w = (Ok st', w')"
  shows "G (fst st')"
proof (cases cr)
  case None then show ?thesis using assms by (auto simp: populateColumnsForCR_def ret_def)
next
  case (Some c)
  then have "for_entries (populateSchema_body E i) (gentries (csc_Schemas c)) (up, False) w = (Ok st', w')"
    using assms(3) by (simp add: populateColumnsForCR_def)
  from for_entries_good [where I = "\<lambda>st. G (fst st)", OF populateSchema_good [OF assms(1)] _ this] assms(2)
  show ?thesis by simp
qed

lemma schema_call_good:
  assumes "responses G E" and "schema_call E c w = (Ok (d, err), w')"
  shows "G d"
proof -
  have "d = fst (e_schema E (w_trace w) c)" using assms(2) by (auto simp: schema_call_def split: prod.split_asm)
  then show ?thesis using assms(1) by (simp add: responses_def)
qed

lemma reload_details_good:
  assumes "responses G E" and "reload_details E i w = (Ok d, w')"
  shows "G d"
proof -
  from assms(2) obtain err w1 w2 where "GetSchemaDetails E i w1 = (Ok (d, err), w2)"
    by (auto simp: reload_details_def success ret_def)
  then show ?thesis using schema_call_good [OF assms(1)] by (simp add: GetSchemaDetails_def)
qed

lemma first_columns_good:
  assumes "responses G E" and "G d" and "first_columns E i d w = (Ok st, w')"
  shows "G (fst st)"
  using assms(2,3) populate_good [OF assms(1,2)]
  by (auto simp: first_columns_def success get_obj_def ret_def raise_def split: if_split_asm option.split_asm)

subsection \<open>The interface\<close>

named_theorems live \<open>the operations that keep a live frame\<close>

locale live_frame = action_frame R for R :: "world \<Rightarrow> world \<Rightarrow> bool" +
  fixes E :: env and G :: "SchemaDetailsResponse \<Rightarrow> bool"
  assumes answers: "\<not> responses G E \<Longrightarrow> R w w'"
    and finalizer_keeps: "keeps (send_meta E (\<lambda>c. c\<lparr>fc_Meta := AddFinalizer (fc_Meta c) fivetranFinalizer\<rparr>))"
    and label_keeps: "keeps (send_meta E (\<lambda>c. c\<lparr>fc_Meta := RemoveLabel (fc_Meta c) annotationForceReconcile\<rparr>))"
    and hash_keeps: "keeps (updateConnectorHash E)"
    and status_keeps: "keeps (send_status E (with_condition cd))"
    and connection_keeps: "tame_call c \<Longrightarrow> keeps (connection_call E c)"
    and details_keeps: "read_call c \<Longrightarrow> keeps (schema_call E c)"
    and columns_keeps: "keeps (GetColumnConfig E i s t)"
    and resolve_keeps: "keeps (resolve_raw E raw)"
    and identity_keeps: "keeps (connector_identity E rc ra)"
    and apply_keeps: "G d \<Longrightarrow> keeps (applySchema E i d)"
    and create_keeps: "keeps (createNewSchema E i)"
begin

lemma assume_answers: "(responses G E \<Longrightarrow> keeps a) \<Longrightarrow> keeps a"
  using answers by (auto simp: keeps_def)

lemma setCondition_keeps [live]: "keeps (setCondition E ct st r m)"
  using status_keeps by (simp add: keeps_def setCondition_send)

lemmas send_keeps = finalizer_keeps [unfolded send_meta_def] label_keeps [unfolded send_meta_def]

lemma handleError_keeps [live]: "keeps (handleError E ct r err)"
  unfolding handleError_def with_result_def by (intro keeps_rules live)

lemma or_handle_keeps [live]: "keeps a \<Longrightarrow> (\<And>x. keeps (k x)) \<Longrightarrow> keeps (or_handle E ct r a k)"
  unfolding or_handle_def by (intro keeps_rules live)

lemma ensureFinalizer_keeps [live]: "keeps (ensureFinalizer E)"
  unfolding ensureFinalizer_def by (intro keeps_bind [OF keeps_get] keeps_if send_keeps keeps_ret)

lemma cleanup_keeps [live]: "keeps (cleanupAnnotationsAndLabels E)"
  unfolding cleanupAnnotationsAndLabels_def by (intro keeps_bind [OF keeps_get] keeps_if send_keeps keeps_ret)

lemma take_force_label_keeps [live]: "keeps (take_force_label E b)"
  unfolding take_force_label_def by (intro keeps_if send_keeps keeps_ret)

lemma resolveSecrets_keeps [live]: "keeps (resolveSecrets E)"
  unfolding resolveSecrets_def resolve_part_def by (intro keeps_rules live resolve_keeps)

lemma updateConnector_keeps [live]: "keeps (updateConnector E i rc ra)"
  unfolding updateConnector_def UpdateConnection_def by (intro keeps_rules connection_keeps tame_simps)

lemma reconcileConnector_keeps [live]: "keeps (reconcileConnector E rc ra)"
  unfolding reconcileConnector_def by (intro keeps_rules live identity_keeps hash_keeps)

lemma reconcileSetupTests_keeps [live]: "keeps (reconcileSetupTests E i)"
  unfolding reconcileSetupTests_def updateSetupTestsCondition_def RunSetupTests_def
  by (intro keeps_rules live connection_keeps tame_simps)

lemma for_entries_keeps: "(\<And>k v s. keeps (f k v s)) \<Longrightarrow> keeps (for_entries f es st)"
  by (induction f es st rule: for_entries.induct) (auto intro!: keeps_rules)

lemma populate_keeps [live]: "keeps (populateColumnsForCR E i cr up)"
  unfolding populateColumnsForCR_def populateSchema_body_def populateTable_body_def
  by (auto intro!: keeps_rules for_entries_keeps columns_keeps split: option.split)

lemma first_columns_keeps [live]: "keeps (first_columns E i d)"
  unfolding first_columns_def by (intro keeps_rules live)

lemma reload_details_keeps [live]: "keeps (reload_details E i)"
  unfolding reload_details_def reloadSchema_def GetSchemaDetails_def ReloadSchema_def
  by (intro keeps_rules details_keeps read_simps)

lemma second_pass_keeps [live]: "keeps (second_pass E i)"
  unfolding second_pass_def GetSchemaDetails_def
proof (rule assume_answers, rule keeps_bind_Ok [OF details_keeps [OF read_simps(1)]])
  assume answers: "responses G E"
  fix x w w' assume "schema_call E (SchemaDetails i) w = (Ok x, w')"
  then have d: "G (fst x)" using schema_call_good [OF answers] by (cases x) auto
  have "keeps (bind (wrap_err p (populateColumnsForCR E i cr (fst x))) (\<lambda>st. wrap_err q (applySchema E i (fst st))))" for p q cr
  proof (intro keeps_bind_Ok keeps_wrap populate_keeps apply_keeps)
    fix st w w' assume "wrap_err p (populateColumnsForCR E i cr (fst x)) w = (Ok st, w')"
    then show "G (fst st)" using populate_good [OF answers d] by (simp add: wrap_err_Ok)
  qed
  then show "keeps (case x of (details, err) \<Rightarrow>
      check err (Errorf_w ''reconcileSchema: failed to get schema details for second pass: '')
        (bind get_obj (\<lambda>connector.
         bind (wrap_err ''reconcileSchema: second pass populate: '' (populateColumnsForCR E i (cr_schemas connector) details)) (\<lambda>st.
         wrap_err ''reconcileSchema: second pass: '' (applySchema E i (fst st))))))"
    by (cases x) (auto intro!: keeps_check keeps_bind [OF keeps_get])
qed

lemma apply_and_verify_keeps:
  assumes "G d"
  shows "keeps (apply_and_verify E i l d)"
  unfolding apply_and_verify_def
proof (rule assume_answers, rule keeps_bind_Ok [OF first_columns_keeps])
  assume answers: "responses G E"
  fix x w w' assume "first_columns E i d w = (Ok x, w')"
  then have "G (fst x)" by (rule first_columns_good [OF answers assms])
  then show "keeps (case x of (details, columnsWereMissing) \<Rightarrow>
     bind (wrap_err ''reconcileSchema: '' (applySchema E i details)) (\<lambda>_.
     bind (if columnsWereMissing then second_pass E i else ret ()) (\<lambda>_.
     bind (if l \<noteq> validationLevelNone then verifySchema E i else ret ()) (\<lambda>_.
     schema_ready E))))"
    unfolding verifySchema_def schema_ready_def GetSchemaDetails_def
    by (cases x) (auto intro!: keeps_rules live apply_keeps details_keeps)
qed

lemma reconcileSchema_keeps [live]: "keeps (reconcileSchema E i)"
proof (rule assume_answers)
  assume answers: "responses G E"
  have a: "keeps (bind (reload_details E i) (apply_and_verify E i l))" for l
    by (rule keeps_bind_Ok [OF reload_details_keeps apply_and_verify_keeps]) (rule reload_details_good [OF answers])
  have "keeps (reconcile_details E i obj d err)" if "G d" for obj d err
    unfolding reconcile_details_def schema_ready_def
    by (intro keeps_rules live a create_keeps apply_and_verify_keeps that)
  then have r: "keeps (bind (GetSchemaDetails E i) (\<lambda>(d, err). reconcile_details E i obj d err))" for obj
    unfolding GetSchemaDetails_def
    by (intro keeps_bind_Ok details_keeps read_simps) (auto dest: schema_call_good [OF answers])
  have s: "keeps (wrap_err p (isConnectorSyncing E i))" for p
    unfolding isConnectorSyncing_def GetConnection_def by (intro keeps_rules connection_keeps tame_simps)
  show "keeps (reconcileSchema E i)" unfolding reconcileSchema_def
    by (intro keeps_bind [OF keeps_get] keeps_bind [OF s] keeps_if keeps_raise r)
qed

lemma finish_keeps [live]: "keeps (finish E dc i rc ra)"
  unfolding finish_def by (intro keeps_rules live)

lemma schema_phase_keeps [live]: "keeps (schema_phase E dc ds i rc ra)"
  unfolding schema_phase_def by (intro keeps_rules live)

lemma connector_phase_keeps [live]: "keeps (connector_phase E dc ds rc ra)"
  unfolding connector_phase_def by (intro keeps_rules live)

lemma reconcile_needs_keeps [live]: "keeps (reconcile_needs E force)"
  unfolding reconcile_needs_def by (intro keeps_rules live)

lemma reconcile_live_keeps: "keeps (reconcile_live E)"
  unfolding reconcile_live_def by (intro keeps_rules live)

end

end
