(* ===== verification/Kube_Store.thy ===== *)
theory Kube_Store
  imports Live_Frame
begin

text \<open>
  A Kubernetes server that stores the resource. It keeps metadata and spec of an update, the status
  of a status update, and answers with what it has stored. A server that \<open>serves\<close> a resource accepts every
  write; one that \<open>stores\<close> it may reject any of them, for any reason. The objects carry a resource
  version, so a write that is accepted was made to the object that the operator has seen last:
  edits by others in the course of a run show up as rejected writes only.
\<close>

subsection \<open>A server that accepts every write\<close>

definition store_step :: "FivetranConnector \<Rightarrow> event \<Rightarrow> FivetranConnector" where
  "store_step x e = (case e of
      KubeUpdate y \<Rightarrow> y\<lparr>fc_Status := fc_Status x\<rparr>
    | KubeStatusUpdate y \<Rightarrow> x\<lparr>fc_Status := fc_Status y\<rparr>
    | _ \<Rightarrow> x)"

definition stored :: "FivetranConnector \<Rightarrow> event list \<Rightarrow> FivetranConnector" where
  "stored x es = foldl store_step x es"

text \<open>From history \<open>h\<close> on, \<open>E\<close> answers as a server that holds the object \<open>x\<close>.\<close>

definition serves :: "env \<Rightarrow> FivetranConnector \<Rightarrow> event list \<Rightarrow> bool" where
  "serves E x h \<longleftrightarrow> (\<forall>es y. e_get E (h @ es) = Inr (stored x es)
     \<and> e_update E (h @ es) y = Inr (store_step (stored x es) (KubeUpdate y))
     \<and> e_status E (h @ es) y = Inr (store_step (stored x es) (KubeStatusUpdate y)))"

lemma stored_Nil [simp]: "stored x [] = x"
  by (simp add: stored_def)

lemma stored_snoc [simp]: "stored x (es @ [e]) = store_step (stored x es) e"
  by (simp add: stored_def)

lemma store_step_other [simp]:
  "store_step x KubeGet = x" "store_step x (Sdk c) = x" "store_step x VaultLookupSelf = x" "store_step x (VaultRead m p) = x"
  "store_step x (KubeSecretGet a b) = x" "store_step x (VaultNewClient a) = x" "store_step x (VaultLogin cfg) = x"
  by (simp_all add: store_step_def)

text \<open>The environment \<open>E\<close> with such a server.\<close>

definition served :: "env \<Rightarrow> FivetranConnector \<Rightarrow> event list \<Rightarrow> env" where
  "served E x h = E\<lparr>e_get := \<lambda>h'. Inr (stored x (drop (length h) h')),
     e_update := \<lambda>h' y. Inr (store_step (stored x (drop (length h) h')) (KubeUpdate y)),
     e_status := \<lambda>h' y. Inr (store_step (stored x (drop (length h) h')) (KubeStatusUpdate y))\<rparr>"

lemma serves_served: "serves (served E x h) x h"
  by (simp add: serves_def served_def)

text \<open>The object in memory is the one the server holds.\<close>

definition in_sync :: "FivetranConnector \<Rightarrow> event list \<Rightarrow> world \<Rightarrow> bool" where
  "in_sync x h w \<longleftrightarrow> (\<exists>es. w_trace w = h @ es \<and> w_obj w = stored x es)"

lemma stored_append: "stored x (es @ fs) = stored (stored x es) fs"
  by (simp add: stored_def)

lemma in_sync_step:
  assumes "in_sync x h w" and "w_trace w' = w_trace w @ es" and "w_obj w' = stored (w_obj w) es"
  shows "in_sync x h w'"
proof -
  from assms(1) obtain fs where "w_trace w = h @ fs" "w_obj w = stored x fs" by (auto simp: in_sync_def)
  then have "w_trace w' = h @ (fs @ es) \<and> w_obj w' = stored x (fs @ es)" using assms(2,3) by (simp add: stored_append)
  then show ?thesis unfolding in_sync_def by blast
qed

definition quiet :: "event \<Rightarrow> bool" where
  "quiet e = (case e of KubeUpdate _ \<Rightarrow> False | KubeStatusUpdate _ \<Rightarrow> False | _ \<Rightarrow> True)"

lemma stored_quiet: "list_all quiet es \<Longrightarrow> stored x es = x"
  by (induction es arbitrary: x rule: rev_induct) (auto simp: quiet_def store_step_def split: event.split_asm)

definition sent :: "event \<Rightarrow> FivetranConnector \<Rightarrow> world \<Rightarrow> world" where
  "sent e obj w = w\<lparr>w_obj := obj, w_trace := w_trace w @ [e]\<rparr>"

lemma sent_simps [simp]: "w_obj (sent e obj w) = obj" "w_trace (sent e obj w) = w_trace w @ [e]"
  by (simp_all add: sent_def)

lemma serves_answers:
  assumes "serves E x h" and "in_sync x h w"
  shows "e_get E (w_trace w) = Inr (w_obj w)" "e_update E (w_trace w) y = Inr (store_step (w_obj w) (KubeUpdate y))"
    "e_status E (w_trace w) y = Inr (store_step (w_obj w) (KubeStatusUpdate y))"
  using assms by (auto simp: serves_def in_sync_def)

lemma send_meta_run:
  assumes "serves E x h" and "in_sync x h w" and "meta_only f"
  shows "send_meta E f w = (Ok (), sent (KubeUpdate (f (w_obj w))) (f (w_obj w)) w)
    \<and> in_sync x h (sent (KubeUpdate (f (w_obj w))) (f (w_obj w)) w)"
proof -
  let ?y = "f (w_obj w)"
  have y: "store_step (w_obj w) (KubeUpdate ?y) = ?y"
    using meta_onlyD [OF assms(3), of "w_obj w"] by (simp add: store_step_def)
  have "in_sync x h (sent (KubeUpdate ?y) ?y w)"
    by (rule in_sync_step [OF assms(2), of _ "[KubeUpdate ?y]"]) (simp_all add: stored_def y)
  then show ?thesis using serves_answers(2) [OF assms(1,2), of ?y] y
    by (simp add: send_meta_def bind_def modify_obj_def kube_update_def log_event_def sent_def)
qed

lemma send_status_run:
  assumes "serves E x h" and "in_sync x h w" and "f (w_obj w) = (w_obj w)\<lparr>fc_Status := st\<rparr>"
  shows "send_status E f w = (Ok (), sent (KubeStatusUpdate (f (w_obj w))) (f (w_obj w)) w)
    \<and> in_sync x h (sent (KubeStatusUpdate (f (w_obj w))) (f (w_obj w)) w)"
proof -
  let ?y = "f (w_obj w)"
  have y: "store_step (w_obj w) (KubeStatusUpdate ?y) = ?y" by (simp add: store_step_def assms(3))
  have "in_sync x h (sent (KubeStatusUpdate ?y) ?y w)"
    by (rule in_sync_step [OF assms(2), of _ "[KubeStatusUpdate ?y]"]) (simp_all add: stored_def y)
  then show ?thesis using serves_answers(3) [OF assms(1,2), of ?y] y
    by (simp add: send_status_def bind_def modify_obj_def kube_status_update_def log_event_def sent_def)
qed

subsection \<open>A server that may reject a write\<close>

definition rejected :: "env \<Rightarrow> event list \<Rightarrow> event \<Rightarrow> bool" where
  "rejected E h e = (case e of KubeUpdate y \<Rightarrow> isl (e_update E h y) | KubeStatusUpdate y \<Rightarrow> isl (e_status E h y) | _ \<Rightarrow> False)"

definition accept :: "env \<Rightarrow> event list \<Rightarrow> FivetranConnector \<Rightarrow> event \<Rightarrow> FivetranConnector" where
  "accept E h x e = (if rejected E h e then x else store_step x e)"

text \<open>The object on the server after the events \<open>es\<close>, if it was \<open>x\<close> after the history \<open>h\<close>.\<close>

fun held :: "env \<Rightarrow> event list \<Rightarrow> FivetranConnector \<Rightarrow> event list \<Rightarrow> FivetranConnector" where
  "held E h x [] = x"
| "held E h x (e # es) = held E (h @ [e]) (accept E h x e) es"

definition stores :: "env \<Rightarrow> FivetranConnector \<Rightarrow> event list \<Rightarrow> bool" where
  "stores E x h \<longleftrightarrow> (\<forall>es y z.
     (e_update E (h @ es) y = Inr z \<longrightarrow> z = store_step (held E h x es) (KubeUpdate y))
   \<and> (e_status E (h @ es) y = Inr z \<longrightarrow> z = store_step (held E h x es) (KubeStatusUpdate y)))"

lemma held_append: "held E h x (es @ fs) = held E (h @ es) (held E h x es) fs"
  by (induction es arbitrary: h x) simp_all

text \<open>The first kind of server is one of the second kind.\<close>

lemma serves_stores: "serves E x h \<Longrightarrow> stores E x h"
proof -
  assume s: "serves E x h"
  have "held E h x es = stored x es" for es
  proof (induction es rule: rev_induct)
    case (snoc e es)
    have "\<not> rejected E (h @ es) e" using s by (auto simp: rejected_def serves_def split: event.split)
    then show ?case using snoc by (simp add: held_append accept_def)
  qed simp
  then show ?thesis using s by (auto simp: stores_def serves_def)
qed

text \<open>While all status updates are rejected, the status on the server stays as it is, and only updates change the object.\<close>

lemma held_status:
  assumes "\<And>es y. isl (e_status E (h @ es) y)"
  shows "fc_Status (held E h x es) = fc_Status x"
  using assms
proof (induction es arbitrary: h x)
  case (Cons e es)
  have "fc_Status (accept E h x e) = fc_Status x"
    using Cons.prems [of "[]"] by (auto simp: accept_def rejected_def store_step_def split: event.split)
  moreover have "isl (e_status E ((h @ [e]) @ fs) y)" for fs y using Cons.prems [of "e # fs"] by simp
  ultimately show ?case using Cons.IH [of "h @ [e]"] by simp
qed simp

definition no_update :: "event \<Rightarrow> bool" where
  "no_update e = (case e of KubeUpdate _ \<Rightarrow> False | _ \<Rightarrow> True)"

lemma held_no_update:
  assumes "\<And>es y. isl (e_status E (h @ es) y)" and "list_all no_update es"
  shows "held E h x es = x"
  using assms
proof (induction es arbitrary: h)
  case (Cons e es)
  have "accept E h x e = x"
    using Cons.prems(1) [of "[]"] Cons.prems(2) by (auto simp: no_update_def accept_def rejected_def store_step_def split: event.split_asm)
  moreover have "isl (e_status E ((h @ [e]) @ fs) y)" for fs y using Cons.prems(1) [of "e # fs"] by simp
  ultimately show ?case using Cons.IH [of "h @ [e]"] Cons.prems(2) by simp
qed simp

text \<open>The object in memory is the one that the server holds; or at least its spec is.\<close>

definition synced :: "env \<Rightarrow> FivetranConnector \<Rightarrow> event list \<Rightarrow> world \<Rightarrow> bool" where
  "synced E x h w \<longleftrightarrow> (\<exists>es. w_trace w = h @ es \<and> w_obj w = held E h x es)"

definition spec_synced :: "env \<Rightarrow> FivetranConnector \<Rightarrow> event list \<Rightarrow> world \<Rightarrow> bool" where
  "spec_synced E x h w \<longleftrightarrow> fc_Spec (w_obj w) = fc_Spec x \<and> (\<exists>es. w_trace w = h @ es \<and> fc_Spec (held E h x es) = fc_Spec x)"

lemma held_quiet: "list_all quiet es \<Longrightarrow> held E h x es = x"
  by (induction es arbitrary: h x)
    (auto simp: quiet_def accept_def rejected_def store_step_def split: event.split_asm)

lemma synced_quiet:
  assumes "synced E x h w" and "w_obj w' = w_obj w" and "w_trace w' = w_trace w @ fs" and "list_all quiet fs"
  shows "synced E x h w'"
  using assms held_quiet [OF assms(4)] unfolding synced_def by (auto simp: held_append)

lemma synced_keeps:
  assumes "synced E x h w" and "obj_kept.keeps a" and "emit.keeps quiet a" and "a w = (r, w')"
  shows "synced E x h w'" and "w_obj w' = w_obj w"
proof -
  show o: "w_obj w' = w_obj w" by (rule obj_kept.keepsD [OF assms(2,4)])
  from emit.keepsD [OF assms(3,4)] obtain fs where "w_trace w' = w_trace w @ fs" "list_all quiet fs"
    by (auto simp: grows_def)
  then show "synced E x h w'" by (rule synced_quiet [OF assms(1) o])
qed

lemma spec_synced_quiet:
  assumes "spec_synced E x h w" and "fc_Spec (w_obj w') = fc_Spec (w_obj w)" and "w_trace w' = w_trace w @ fs" and "list_all quiet fs"
  shows "spec_synced E x h w'"
  using assms held_quiet [OF assms(4)] unfolding spec_synced_def by (auto simp: held_append)

text \<open>An update of the metadata that is accepted is what the server holds.\<close>

lemma send_meta_Ok:
  assumes "stores E x h" and "synced E x h w" and "meta_only f" and "send_meta E f w = (Ok u, w')"
  shows "synced E x h w'" and "w_obj w' = f (w_obj w)"
proof -
  let ?y = "f (w_obj w)"
  from assms(4) obtain z where z: "e_update E (w_trace w) ?y = Inr z" and w': "w_trace w' = w_trace w @ [KubeUpdate ?y]" "w_obj w' = z"
    by (auto simp: send_meta_def bind_Ok modify_obj_def kube_update_def log_event_def Let_def split: sum.split_asm)
  from assms(2) obtain es where es: "w_trace w = h @ es" "w_obj w = held E h x es" by (auto simp: synced_def)
  have st: "store_step (w_obj w) (KubeUpdate ?y) = ?y"
    using meta_onlyD [OF assms(3), of "w_obj w"] by (simp add: store_step_def)
  then have "z = ?y" using assms(1) z es by (auto simp: stores_def)
  then show o: "w_obj w' = ?y" using w' by simp
  have "held E h x (es @ [KubeUpdate ?y]) = ?y" using z es st by (simp add: held_append accept_def rejected_def)
  then show "synced E x h w'" using o w'(1) es(1) unfolding synced_def by (intro exI [of _ "es @ [KubeUpdate ?y]"]) simp
qed

text \<open>Whether it is accepted or not, a write changes no spec.\<close>

lemma spec_synced_update:
  assumes "stores E x h" and "spec_synced E x h w"
  shows "spec_synced E x h (snd (kube_update E w))" and "spec_synced E x h (snd (kube_status_update E w))"
proof -
  from assms(2) obtain es where es: "w_trace w = h @ es" and s: "fc_Spec (held E h x es) = fc_Spec x" "fc_Spec (w_obj w) = fc_Spec x"
    by (auto simp: spec_synced_def)
  have u: "fc_Spec z = fc_Spec x" if a: "e_update E (h @ es) (w_obj w) = Inr z \<or> e_status E (h @ es) (w_obj w) = Inr z" for z
  proof -
    have "z = store_step (held E h x es) (KubeUpdate (w_obj w)) \<or> z = store_step (held E h x es) (KubeStatusUpdate (w_obj w))"
      using assms(1) a unfolding stores_def by blast
    then show ?thesis using s by (auto simp: store_step_def)
  qed
  have k: "fc_Spec (held E h x (es @ [e])) = fc_Spec x" if "e = KubeUpdate (w_obj w) \<or> e = KubeStatusUpdate (w_obj w)" for e
    using that s by (auto simp: held_append accept_def store_step_def)
  have t: "w_trace (snd (kube_update E w)) = h @ (es @ [KubeUpdate (w_obj w)])"
    "w_trace (snd (kube_status_update E w)) = h @ (es @ [KubeStatusUpdate (w_obj w)])"
    by (simp_all add: kube_update_def kube_status_update_def log_event_def Let_def es split: sum.split)
  have "fc_Spec (w_obj (snd (kube_update E w))) = fc_Spec x" "fc_Spec (w_obj (snd (kube_status_update E w))) = fc_Spec x"
    using u es s by (auto simp: kube_update_def kube_status_update_def log_event_def Let_def split: sum.split)
  then show "spec_synced E x h (snd (kube_update E w))" "spec_synced E x h (snd (kube_status_update E w))"
    using t k unfolding spec_synced_def by blast+
qed

text \<open>The steps of a reconciliation that come before the connector, where they succeed.\<close>

lemma deletion_kept:
  "om_DeletionTimestamp (AddFinalizer m f) = om_DeletionTimestamp m" "om_DeletionTimestamp (RemoveLabel m l) = om_DeletionTimestamp m"
  by (simp_all add: AddFinalizer_def RemoveLabel_def split: option.split)

lemma synced_ensureFinalizer:
  assumes "stores E x h" and "synced E x h w" and "ensureFinalizer E w = (Ok u, w')"
  shows "synced E x h w'" and "fc_Spec (w_obj w') = fc_Spec (w_obj w)" and "fc_Status (w_obj w') = fc_Status (w_obj w)"
    and "\<And>k. GetAnnotation (fc_Meta (w_obj w')) k = GetAnnotation (fc_Meta (w_obj w)) k"
    and "om_DeletionTimestamp (fc_Meta (w_obj w')) = om_DeletionTimestamp (fc_Meta (w_obj w))"
  using assms(2,3) send_meta_Ok [OF assms(1,2) meta_onlyI]
  by (auto simp: ensureFinalizer_def bind_def [of get_obj] get_obj_def ret_def send_meta_def [symmetric] deletion_kept split: if_split_asm)

lemma synced_take_force_label:
  assumes "stores E x h" and "synced E x h w" and "take_force_label E b w = (Ok u, w')"
  shows "synced E x h w'" and "fc_Spec (w_obj w') = fc_Spec (w_obj w)" and "fc_Status (w_obj w') = fc_Status (w_obj w)"
    and "\<And>k. GetAnnotation (fc_Meta (w_obj w')) k = GetAnnotation (fc_Meta (w_obj w)) k"
    and "om_DeletionTimestamp (fc_Meta (w_obj w')) = om_DeletionTimestamp (fc_Meta (w_obj w))"
  using assms(2,3) send_meta_Ok [OF assms(1,2) meta_onlyI]
  by (auto simp: take_force_label_def ret_def send_meta_def [symmetric] deletion_kept split: if_split_asm)

lemma obj_kept_resolveSecrets: "obj_kept.keeps (resolveSecrets E)"
proof -
  have "obj_kept.keeps (resolve_raw E raw)" for raw
    by (auto simp: obj_kept.keeps_def resolve_raw_def Let_def split: option.split prod.split)
  then show ?thesis unfolding resolveSecrets_def resolve_part_def by (intro obj_kept.keeps_rules)
qed

lemma quiet_vault [simp]: "quiet (VaultRead m p)" "quiet VaultLookupSelf" "quiet KubeGet" "quiet (Sdk c)"
  by (simp_all add: quiet_def)

lemma quiet_vault_init: "vault_init_event e \<Longrightarrow> quiet e"
  by (auto simp: quiet_def vault_init_event_def split: event.split_asm)

lemma emit_quiet: "emit.keeps quiet (resolveSecrets E)" "emit.keeps quiet (ensure_vault E ns)"
  by (auto intro!: frames intro: quiet_vault_init)

lemmas synced_resolveSecrets = synced_keeps [OF _ obj_kept_resolveSecrets emit_quiet(1)]

lemmas synced_ensure_vault = synced_keeps [OF _ obj_kept_ensure_vault emit_quiet(2)]

lemma synced_get:
  assumes "e_get E (w_trace w) = Inr x" and "kube_get E w = (r, w1)"
  shows "synced E x (w_trace w) w1"
  using assms unfolding synced_def
  by (intro exI [of _ "[KubeGet]"]) (auto simp: kube_get_def log_event_def accept_def rejected_def)

text \<open>The live branch of a reconciliation starts with the resource that the server holds.\<close>

lemma live_synced:
  assumes "e_get E (w_trace w) = Inr x" and "kube_get E w = (Ok (), w0)" and "ensure_vault E ns w0 = (Ok u, w1)"
  shows "synced E x (w_trace w) w1"
  by (rule synced_ensure_vault(1) [OF synced_get [OF assms(1,2)] assms(3)])

end
