(* ===== verification/Reconcile_Safety.thy ===== *)
theory Reconcile_Safety
  imports Kube_Store
begin

text \<open>
  Which connections a reconciliation may delete and which it may create. Both are properties of
  the calls a whole run of Reconcile adds to the trace: the deletions in every environment, the
  creations on every server that stores the writes it accepts.
\<close>

subsection \<open>Deletion\<close>

text \<open>The calls handleDeletion makes for an object, given the answer to the deletion of its connection.\<close>

definition unfinalized :: "FivetranConnector \<Rightarrow> FivetranConnector" where
  "unfinalized c = c\<lparr>fc_Meta := RemoveFinalizer (fc_Meta c) fivetranFinalizer\<rparr>"

definition deletes :: "FivetranConnector \<Rightarrow> bool" where
  "deletes c \<longleftrightarrow> st_ConnectorID (fc_Status c) \<noteq> [] \<and> GetAnnotation (fc_Meta c) annotationAllowDeletion = ''true''"

definition deletion_calls :: "env \<Rightarrow> event list \<Rightarrow> FivetranConnector \<Rightarrow> event list" where
  "deletion_calls E h c =
     (if \<not> ContainsFinalizer (fc_Meta c) fivetranFinalizer then []
      else if \<not> deletes c then [KubeUpdate (unfinalized c)]
      else if snd (e_connection E h (ConnectionDelete (st_ConnectorID (fc_Status c)))) \<noteq> None
      then [Sdk (ConnectionDelete (st_ConnectorID (fc_Status c)))]
      else [Sdk (ConnectionDelete (st_ConnectorID (fc_Status c))), KubeUpdate (unfinalized c)])"

lemma handleDeletion_trace:
  "w_trace (snd (handleDeletion E w)) = w_trace w @ deletion_calls E (w_trace w) (w_obj w)"
proof -
  let ?c = "w_obj w"
  obtain resp err where d: "e_connection E (w_trace w) (ConnectionDelete (st_ConnectorID (fc_Status ?c))) = (resp, err)" by force
  show ?thesis
    by (auto simp: handleDeletion_def bind_def get_obj_def ret_def raise_def check_def DeleteConnection_def connection_call_def d
        deletion_calls_def deletes_def WrapFivetranError_None modify_obj_def kube_update_trace log_event_def unfinalized_def Let_def
        split: option.split)
qed

text \<open>C1: A Fivetran connection is deleted only on request. If a reconciliation, in any environment,
  asks Fivetran to delete a connection, then the resource it has just read is marked for deletion,
  still carries the finalizer, and carries the annotation that allows the deletion with value
  true, and the connection is the one in its status.\<close>

theorem Reconcile_deletes_only_when_allowed:
  assumes get: "e_get E (w_trace w) = Inr obj"
    and ev: "w_trace (snd (Reconcile E cl ns w)) = w_trace w @ es" "Sdk (ConnectionDelete i) \<in> set es"
  shows "om_DeletionTimestamp (fc_Meta obj) \<noteq> None \<and> ContainsFinalizer (fc_Meta obj) fivetranFinalizer
    \<and> GetAnnotation (fc_Meta obj) annotationAllowDeletion = ''true'' \<and> i = st_ConnectorID (fc_Status obj) \<and> i \<noteq> []"
proof -
  let ?Q = "\<lambda>e. \<forall>i. e = Sdk (ConnectionDelete i) \<longrightarrow> om_DeletionTimestamp (fc_Meta obj) \<noteq> None
    \<and> ContainsFinalizer (fc_Meta obj) fivetranFinalizer \<and> GetAnnotation (fc_Meta obj) annotationAllowDeletion = ''true''
    \<and> i = st_ConnectorID (fc_Status obj) \<and> i \<noteq> []"
  have nd: "?Q e" if "no_delete e" for e using that by (auto simp: no_delete_def)
  have del: "grows ?Q w' (snd (handleDeletion E w'))"
    if "w_obj w' = obj" "om_DeletionTimestamp (fc_Meta obj) \<noteq> None" for w'
    using that by (intro growsI [OF handleDeletion_trace]) (auto simp: deletion_calls_def deletes_def list_all_iff)
  have "grows ?Q w (snd (Reconcile E cl ns w))"
  proof (rule Reconcile_grows)
    show "grows ?Q w1 (snd (handleDeletion E w1))"
      if "e_get E (w_trace w) = Inr (w_obj w1)" "om_DeletionTimestamp (fc_Meta (w_obj w1)) \<noteq> None" for w1
      using that get by (intro del) auto
    show "grows ?Q w1 (snd (reconcile_live E w1))" for w1
      by (rule emit.step_keeps [OF emit_mono [OF emit_reconcile_live]]) (rule nd)
  qed (auto simp: vault_init_event_def)
  then show ?thesis using ev by (auto simp: grows_def list_all_iff)
qed

text \<open>The demo resource marked for deletion.\<close>

definition demo_deleting :: FivetranConnector where
  "demo_deleting = demo_obj\<lparr>fc_Meta := (fc_Meta demo_obj)\<lparr>om_Finalizers := [fivetranFinalizer],
       om_Annotations := Some [(annotationAllowDeletion, ''true'')], om_DeletionTimestamp := Some 7\<rparr>,
     fc_Status := (fc_Status demo_obj)\<lparr>st_ConnectorID := ''conn1''\<rparr>\<rparr>"

lemma demo_deletion_run:
  "w_trace (snd (Reconcile (demo_env\<lparr>e_get := \<lambda>_. Inr demo_deleting\<rparr>) True ''ns''
      (demo_world\<lparr>w_vault := Some \<lparr>vc_Client = True, vc_Config = \<lparr>cfg_Address = ''a'', cfg_RoleID = ''r'', cfg_SecretID = ''s'', cfg_MountPath = ''m''\<rparr>\<rparr>\<rparr>)))
   = [KubeGet, VaultLookupSelf, Sdk (ConnectionDelete ''conn1''), KubeUpdate (unfinalized demo_deleting)]"
proof -
  have p: "ParseInt64 ''3600'' = Some 3600"
    by (simp add: ParseInt64_def digits_value_def isDigit_def)
  show ?thesis
    by (simp add: Reconcile_def attempt_def kube_get_def demo_env_def demo_world_def log_event_def Let_def ensure_vault_def bind_def
        token_valid_def IsTokenValid_def glookup_def p get_obj_def ret_def or_handle_def handleDeletion_def
        demo_deleting_def ContainsFinalizer_def GetAnnotation_def gstring_def DeleteConnection_def connection_call_def check_def
        modify_obj_def kube_update_def unfinalized_def)
qed

theorem Reconcile_deletes_only_when_allowed_witness:
  "\<exists>es. w_trace (snd (Reconcile (demo_env\<lparr>e_get := \<lambda>_. Inr demo_deleting\<rparr>) True ''ns''
      (demo_world\<lparr>w_vault := Some \<lparr>vc_Client = True, vc_Config = \<lparr>cfg_Address = ''a'', cfg_RoleID = ''r'', cfg_SecretID = ''s'', cfg_MountPath = ''m''\<rparr>\<rparr>\<rparr>))) = es
     \<and> Sdk (ConnectionDelete ''conn1'') \<in> set es \<and> ContainsFinalizer (fc_Meta demo_deleting) fivetranFinalizer"
proof -
  let ?E = "demo_env\<lparr>e_get := \<lambda>_. Inr demo_deleting\<rparr>"
  let ?w = "demo_world\<lparr>w_vault := Some \<lparr>vc_Client = True, vc_Config = \<lparr>cfg_Address = ''a'', cfg_RoleID = ''r'', cfg_SecretID = ''s'', cfg_MountPath = ''m''\<rparr>\<rparr>\<rparr>"
  have g: "e_get ?E (w_trace ?w) = Inr demo_deleting" by simp
  have t: "w_trace (snd (Reconcile ?E True ''ns'' ?w)) = w_trace ?w @
      [KubeGet, VaultLookupSelf, Sdk (ConnectionDelete ''conn1''), KubeUpdate (unfinalized demo_deleting)]"
    unfolding demo_deletion_run by (simp add: demo_world_def)
  have m: "Sdk (ConnectionDelete ''conn1'') \<in>
      set [KubeGet, VaultLookupSelf, Sdk (ConnectionDelete ''conn1''), KubeUpdate (unfinalized demo_deleting)]" by simp
  from Reconcile_deletes_only_when_allowed [OF g t m] demo_deletion_run show ?thesis by simp
qed

text \<open>C12: A deletion is complete before the resource is released. handleDeletion makes exactly these
  calls: none without the finalizer; if the resource may not delete its connection (or has none),
  only the update that removes the finalizer; otherwise the deletion, and the update that removes
  the finalizer if and only if Fivetran reported no error, so that a failed deletion leaves the
  finalizer in place.\<close>

theorem handleDeletion_calls:
  "w_trace (snd (handleDeletion E w)) = w_trace w @ deletion_calls E (w_trace w) (w_obj w)
   \<and> \<not> ContainsFinalizer (fc_Meta (unfinalized (w_obj w))) fivetranFinalizer
   \<and> filter (\<lambda>f. f \<noteq> fivetranFinalizer) (om_Finalizers (fc_Meta (w_obj w))) = om_Finalizers (fc_Meta (unfinalized (w_obj w)))"
  by (simp add: handleDeletion_trace unfinalized_def ContainsFinalizer_def RemoveFinalizer_def list_ex_iff)

subsection \<open>Creation\<close>

text \<open>The identity of the connection of a resource: the connector ID of the status and of the annotation.\<close>

definition identity :: "FivetranConnector \<Rightarrow> string \<times> string" where
  "identity c = (st_ConnectorID (fc_Status c), GetAnnotation (fc_Meta c) annotationConnectorID)"

text \<open>The steps before the connector phase do not change it.\<close>

lemma identity_cong:
  "fc_Status x = fc_Status y \<Longrightarrow> (\<And>k. GetAnnotation (fc_Meta x) k = GetAnnotation (fc_Meta y) k) \<Longrightarrow> identity x = identity y"
  by (simp add: identity_def)

lemma reconcile_live_grows:
  assumes E: "stores E x h" and sync: "synced E x h w" and ku: "\<And>x. Q (KubeUpdate x)" and ks: "\<And>x. Q (KubeStatusUpdate x)" and vr: "\<And>m p. Q (VaultRead m p)"
    and phase: "\<And>w' dc ds rc ra. identity (w_obj w') = identity (w_obj w) \<Longrightarrow> grows Q w' (snd (connector_phase E dc ds rc ra w'))"
  shows "grows Q w (snd (reconcile_live E w))"
  unfolding reconcile_live_def reconcile_needs_def
proof (rule or_handle_grows)
  show "grows Q w (snd (ensureFinalizer E w))" by (intro emit.step_keeps emit_ensureFinalizer ku)
  fix x w1 assume w1: "ensureFinalizer E w = (Ok x, w1)"
  note f = synced_ensureFinalizer [OF E sync w1]
  let ?f = "HasLabel (fc_Meta (w_obj w1)) annotationForceReconcile"
  have rest: "grows Q w2 (snd ((case determineReconciliationNeeds E (w_obj w2) ?f of
      Inl err \<Rightarrow> handleError E conditionTypeConnectorReady ConnectorReasonReconciliationFailed err
    | Inr (doConnector, doSchema) \<Rightarrow>
        if \<not> doConnector \<and> \<not> doSchema then ret (result 0, None)
        else or_handle E conditionTypeConnectorReady ConnectorReasonVaultSecretsResolutionFailed (resolveSecrets E)
          (\<lambda>(resolvedConfig, resolvedAuth). connector_phase E doConnector doSchema resolvedConfig resolvedAuth)) w2))"
    if l: "take_force_label E ?f w1 = (Ok y, w2)" for y w2
  proof -
    note t = synced_take_force_label [OF E f(1) l]
    have i2: "identity (w_obj w2) = identity (w_obj w)" by (rule identity_cong) (simp_all add: f t)
    have cp: "grows Q w3 (snd (connector_phase E dc ds a b w3))"
      if "resolveSecrets E w2 = (Ok (a, b), w3)" for a b w3 dc ds
      using phase synced_resolveSecrets(2) [OF t(1) that] i2 by simp
    show ?thesis
      by (cases "determineReconciliationNeeds E (w_obj w2) ?f")
        (auto intro!: or_handle_grows cp emit.step_keeps [OF emit_handleError] emit.step_keeps [OF emit_resolveSecrets]
          emit.step_keeps [OF emit.keeps_ret] ks vr split: prod.split)
  qed
  show "grows Q w1 (snd (bind get_obj (\<lambda>connector.
       let forceReconcile = HasLabel (fc_Meta connector) annotationForceReconcile
       in or_handle E conditionTypeConnectorReady ConnectorReasonReconciliationFailed (take_force_label E forceReconcile) (\<lambda>_.
          bind get_obj (\<lambda>connector.
            case determineReconciliationNeeds E connector forceReconcile of
              Inl err \<Rightarrow> handleError E conditionTypeConnectorReady ConnectorReasonReconciliationFailed err
            | Inr (doConnector, doSchema) \<Rightarrow>
              (if \<not> doConnector \<and> \<not> doSchema then ret (result 0, None)
               else or_handle E conditionTypeConnectorReady ConnectorReasonVaultSecretsResolutionFailed (resolveSecrets E)
                      (\<lambda>(resolvedConfig, resolvedAuth). connector_phase E doConnector doSchema resolvedConfig resolvedAuth))))) w1))"
    unfolding Let_def
  proof (intro get_obj_grows or_handle_grows ks)
    have "emit.keeps Q (take_force_label E ?f)" unfolding take_force_label_def by (intro emit.keeps_rules frames ku)
    then show "grows Q w1 (snd (take_force_label E ?f w1))" by (rule emit.step_keeps)
  qed (rule rest)
qed (rule ks)

definition no_create :: "event \<Rightarrow> bool" where
  "no_create e = (case e of Sdk (ConnectionCreate _) \<Rightarrow> False | _ \<Rightarrow> True)"

lemma plain_no_create: "plain_event e \<Longrightarrow> no_create e"
  by (auto simp: plain_event_def no_create_def split: event.split_asm sdk_call.split_asm)

text \<open>A connector that is known, from the status or from the annotation, is not created.\<close>

lemma connector_identity_known:
  assumes "identity (w_obj w) \<noteq> ([], [])"
  shows "grows no_create w (snd (connector_identity E rc ra w))"
proof -
  have u: "emit.keeps no_create (updateConnector E i rc ra)" for i by (intro frames; simp add: plain_no_create)
  have a: "emit.keeps no_create (adopt E i)" for i by (intro frames; simp add: plain_no_create)
  show ?thesis unfolding connector_identity_def Let_def
  proof (rule get_obj_grows)
    consider "st_ConnectorID (fc_Status (w_obj w)) \<noteq> []"
      | "st_ConnectorID (fc_Status (w_obj w)) = []" "GetAnnotation (fc_Meta (w_obj w)) annotationConnectorID \<noteq> []"
      using assms by (auto simp: identity_def)
    then show "grows no_create w (snd ((if st_ConnectorID (fc_Status (w_obj w)) \<noteq> []
        then bind (updateConnector E (st_ConnectorID (fc_Status (w_obj w))) rc ra) (\<lambda>_. ret (st_ConnectorID (fc_Status (w_obj w))))
        else if GetAnnotation (fc_Meta (w_obj w)) annotationConnectorID \<noteq> []
        then bind (adopt E (GetAnnotation (fc_Meta (w_obj w)) annotationConnectorID)) (\<lambda>_.
             bind (updateConnector E (GetAnnotation (fc_Meta (w_obj w)) annotationConnectorID) rc ra)
               (\<lambda>_. ret (GetAnnotation (fc_Meta (w_obj w)) annotationConnectorID)))
        else bind (createConnector E rc ra) (\<lambda>connectorID. bind (setConnectorID E connectorID) (\<lambda>_. ret connectorID))) w))"
      by cases (auto intro!: emit.step_keeps [OF emit.keeps_bind] emit.keeps_bind emit.keeps_ret u a)
  qed
qed

lemma connector_phase_known:
  assumes "identity (w_obj w) \<noteq> ([], [])"
  shows "grows no_create w (snd (connector_phase E dc ds rc ra w))"
proof -
  have s: "emit.keeps no_create (schema_phase E d ds i rc ra)" for d i
    by (rule emit_mono [OF emit_schema_phase plain_no_create])
  have k: "no_create (KubeStatusUpdate x)" for x by (simp add: no_create_def)
  have r: "grows no_create w (snd (reconcileConnector E rc ra w))"
    unfolding reconcileConnector_def
    by (rule emit.step_bind, rule connector_identity_known [OF assms],
        intro emit.step_keeps emit.keeps_rules frames; simp add: no_create_def)
  have t: "emit.keeps no_create (reconcileSetupTests E i)" for i by (intro frames; simp add: no_create_def)
  have "grows no_create w (snd ((if dc
       then or_handle E conditionTypeConnectorReady ConnectorReasonReconciliationFailed (reconcileConnector E rc ra) (\<lambda>connectorID.
            or_handle E conditionTypeSetupTestReady SetupTestsReasonReconciliationFailed (reconcileSetupTests E connectorID) (\<lambda>_.
            schema_phase E dc ds connectorID rc ra))
       else schema_phase E dc ds (st_ConnectorID (fc_Status (w_obj w))) rc ra) w))"
    using s by (auto intro!: or_handle_grows r k emit.step_keeps [OF t] emit.step_keeps [OF s])
  then show ?thesis unfolding connector_phase_def by (intro get_obj_grows) simp
qed

text \<open>Every creation is paused and without setup tests.\<close>

definition safe_create :: "event \<Rightarrow> bool" where
  "safe_create e = (case e of Sdk (ConnectionCreate r) \<Rightarrow> crq_paused r = Some True \<and> crq_runSetupTests r = Some False | _ \<Rightarrow> True)"

lemma no_create_safe: "no_create e \<Longrightarrow> safe_create e"
  by (auto simp: no_create_def safe_create_def split: event.split_asm sdk_call.split_asm)

lemma emit_connector_phase_safe: "emit.keeps safe_create (connector_phase E dc ds rc ra)"
  unfolding connector_phase_def reconcileConnector_def connector_identity_def
  by (intro emit.keeps_rules frames emit_mono [OF emit_schema_phase]; simp add: safe_create_def no_create_safe [OF plain_no_create, unfolded safe_create_def])

text \<open>C2: A Fivetran connection is created only for a resource that has none, and never starts to
  sync by itself. If a reconciliation asks Fivetran to create a connection, then the resource it
  has read is not marked for deletion and has no connector ID, neither in its status nor in the
  annotation that backs it up, and the request is paused and asks for no setup tests. Kubernetes may
  reject any write; the only assumption is that a write it accepts is stored, on the resource that was
  read: metadata and spec by an update, the status by a status update.\<close>

theorem Reconcile_creates_only_unknown:
  assumes get: "e_get E (w_trace w) = Inr obj" and kept: "stores E obj (w_trace w)"
    and ev: "w_trace (snd (Reconcile E cl ns w)) = w_trace w @ es" "Sdk (ConnectionCreate r) \<in> set es"
  shows "om_DeletionTimestamp (fc_Meta obj) = None \<and> st_ConnectorID (fc_Status obj) = []
    \<and> GetAnnotation (fc_Meta obj) annotationConnectorID = [] \<and> crq_paused r = Some True \<and> crq_runSetupTests r = Some False"
proof -
  let ?new = "om_DeletionTimestamp (fc_Meta obj) = None \<and> identity obj = ([], [])"
  let ?Q = "\<lambda>e. safe_create e \<and> (\<not> ?new \<longrightarrow> no_create e)"
  have Q: "?Q e" if "no_create e" for e using that no_create_safe by blast
  have "grows ?Q w (snd (Reconcile E cl ns w))"
  proof (rule Reconcile_grows_from)
    fix w1 :: world
    show "grows ?Q w1 (snd (handleDeletion E w1))"
      using Q by (intro growsI [OF handleDeletion_trace]) (auto simp: deletion_calls_def no_create_def)
    fix w0 u assume run: "kube_get E w = (Ok (), w0)" "ensure_vault E ns w0 = (Ok u, w1)" and "e_get E (w_trace w) = Inr (w_obj w1)"
      and live: "om_DeletionTimestamp (fc_Meta (w_obj w1)) = None"
    then have o2: "w_obj w1 = obj" using get by simp
    show "grows ?Q w1 (snd (reconcile_live E w1))"
    proof (rule reconcile_live_grows [OF kept live_synced [OF get run]])
      fix w' :: world and dc ds rc ra assume same: "identity (w_obj w') = identity (w_obj w1)"
      show "grows ?Q w' (snd (connector_phase E dc ds rc ra w'))"
      proof (cases "identity obj = ([], [])")
        case True
        then show ?thesis using live o2
          by (intro emit.step_keeps emit_mono [OF emit_connector_phase_safe]) auto
      next
        case False
        have "grows no_create w' (snd (connector_phase E dc ds rc ra w'))"
          using connector_phase_known same o2 False by simp
        then show ?thesis using Q by (auto simp: grows_def list_all_iff)
      qed
    qed (simp_all add: Q no_create_def)
  qed (use Q in \<open>auto simp: no_create_def vault_init_event_def split: event.split_asm\<close>)
  then have "?Q (Sdk (ConnectionCreate r))" using ev by (auto simp: grows_def list_all_iff)
  then show ?thesis by (auto simp: safe_create_def no_create_def identity_def)
qed

text \<open>A run that creates a connection and then finds the status endpoint down.\<close>

definition demo_new :: FivetranConnector where
  "demo_new = demo_obj\<lparr>fc_Meta := (fc_Meta demo_obj)\<lparr>om_Finalizers := [fivetranFinalizer]\<rparr>\<rparr>"

definition demo_down :: env where
  "demo_down = demo_env\<lparr>e_get := \<lambda>_. Inr demo_new, e_update := \<lambda>_ y. Inr (y\<lparr>fc_Status := fc_Status demo_new\<rparr>),
     e_status := \<lambda>_ _. Inl (Text ''down'')\<rparr>"

lemma demo_down_stores: "stores demo_down demo_new h"
  using held_status [of demo_down] by (simp add: stores_def store_step_def demo_down_def)

definition demo_ready :: world where
  "demo_ready = demo_world\<lparr>w_vault := Some \<lparr>vc_Client = True, vc_Config =
     \<lparr>cfg_Address = ''a'', cfg_RoleID = ''r'', cfg_SecretID = ''s'', cfg_MountPath = ''m''\<rparr>\<rparr>\<rparr>"

text \<open>The definitions by which a run on the demo resource is evaluated.\<close>

lemmas run_defs = Reconcile_def attempt_def kube_get_def log_event_def Let_def ensure_vault_def bind_def token_valid_def IsTokenValid_def
  glookup_def get_obj_def ret_def raise_def or_handle_def ContainsFinalizer_def reconcile_live_def reconcile_needs_def ensureFinalizer_def
  take_force_label_def HasLabel_def determineReconciliationNeeds_def hasFailedConditions_def hasConnectorHashChanged_def
  hasSchemaHashChanged_def hasSchemaConfig_def resolveSecrets_def resolve_part_def connector_phase_def reconcileConnector_def
  connector_identity_def GetAnnotation_def createConnector_def toFivetranConnector_def decode_raw_def CreateConnection_def
  connection_call_def check_def setConnectorID_def modify_obj_def kube_status_update_def kube_update_def handleError_def with_result_def
  setCondition_def

lemmas demo_world_defs = demo_env_def demo_ready_def demo_world_def demo_new_def demo_obj_def demo_spec_def demo_connection_def

lemma demo_create_run:
  "Sdk (ConnectionCreate (CreateConnection_request \<lparr>f_Service = ''postgres'', f_Config = Some None, f_Auth = Some None, f_Paused = Some True,
      f_GroupID = ''g'', f_SyncFrequency = 60, f_DailySyncTime = [], f_RunSetupTests = Some True, f_ScheduleType = ''auto'',
      f_PauseAfterTrial = None, f_TrustCertificates = None, f_TrustFingerprints = None, f_DataDelaySensitivity = [],
      f_DataDelayThreshold = 0, f_NetworkingMethod = [], f_ProxyAgentID = [], f_PrivateLinkID = [], f_HybridDeploymentAgentID = []\<rparr>))
    \<in> set (w_trace (snd (Reconcile demo_down True ''ns'' demo_ready)))"
proof -
  have p: "ParseInt64 ''3600'' = Some 3600" by (simp add: ParseInt64_def digits_value_def isDigit_def)
  show ?thesis
    by (simp add: run_defs demo_world_defs p demo_down_def)
qed

theorem Reconcile_creates_only_unknown_witness:
  "\<exists>r. Sdk (ConnectionCreate r) \<in> set (w_trace (snd (Reconcile demo_down True ''ns'' demo_ready)))
     \<and> crq_paused r = Some True \<and> st_ConnectorID (fc_Status demo_new) = []"
proof -
  obtain r where r: "Sdk (ConnectionCreate r) \<in> set (w_trace (snd (Reconcile demo_down True ''ns'' demo_ready)))"
    using demo_create_run by blast
  have g: "e_get demo_down (w_trace demo_ready) = Inr demo_new" "stores demo_down demo_new (w_trace demo_ready)"
    and t: "w_trace (snd (Reconcile demo_down True ''ns'' demo_ready)) =
      w_trace demo_ready @ w_trace (snd (Reconcile demo_down True ''ns'' demo_ready))"
    using demo_down_stores by (simp_all add: demo_down_def demo_ready_def demo_world_def)
  from Reconcile_creates_only_unknown [OF g t r] r show ?thesis by blast
qed

end
