(* ===== verification/Reconcile_Schema.thy ===== *)
theory Reconcile_Schema
  imports Controller
begin

text \<open>
  The reconciliation of the schema: it waits for a running sync, and its success means that the
  schema was read back and compared.
\<close>

subsection \<open>Schemas\<close>

text \<open>C30: No schema is changed while the connection is syncing. If Fivetran reports that the
  connection is syncing, reconcileSchema makes that one call and nothing else, neither to the
  schema of the connection nor to the resource, and returns the error that handleError turns into
  a condition and another attempt after two minutes.\<close>

theorem reconcileSchema_waits_for_sync:
  assumes "e_connection E (w_trace w) (ConnectionDetails i) = (resp, None)" and "conr_SyncState resp = ''syncing''"
  shows "reconcileSchema E i w = (Err (Sentinel ErrConnectorSyncing), log_event (Sdk (ConnectionDetails i)) w)
    \<and> disposition (Sentinel ErrConnectorSyncing) = (120, None)"
  using assms
  by (simp add: reconcileSchema_def bind_def get_obj_def Let_def wrap_err_def attempt_def isConnectorSyncing_def GetConnection_def
      connection_call_def check_def ret_def raise_def disposition_def)

theorem reconcileSchema_waits_for_sync_witness:
  "fst (reconcileSchema (demo_env\<lparr>e_connection := \<lambda>h c. (demo_connection\<lparr>conr_SyncState := ''syncing''\<rparr>, None)\<rparr>) ''conn1'' demo_world)
     = Err (Sentinel ErrConnectorSyncing)"
proof -
  let ?E = "demo_env\<lparr>e_connection := \<lambda>h c. (demo_connection\<lparr>conr_SyncState := ''syncing''\<rparr>, None)\<rparr>"
  have "e_connection ?E (w_trace demo_world) (ConnectionDetails ''conn1'') = (demo_connection\<lparr>conr_SyncState := ''syncing''\<rparr>, None)"
    and "conr_SyncState (demo_connection\<lparr>conr_SyncState := ''syncing''\<rparr>) = ''syncing''" by simp_all
  from reconcileSchema_waits_for_sync [OF this] show ?thesis by simp
qed

definition verified :: "env \<Rightarrow> string \<Rightarrow> world \<Rightarrow> bool" where
  "verified E i w \<longleftrightarrow> (\<exists>h obj details. w_trace w = h @ [Sdk (SchemaDetails i), KubeStatusUpdate obj]
     \<and> e_schema E h (SchemaDetails i) = (details, None)
     \<and> fst (CompareSchemaWithCR details (cr_schemas obj))
     \<and> (\<exists>c. condition_of conditionTypeSchemaReady (conditions obj) = Some c \<and> cond_Status c = ConditionTrue))"

lemma apply_and_verify_verified:
  assumes "apply_and_verify E i l d w = (Ok x, w')" and "l \<noteq> validationLevelNone"
  shows "verified E i w'"
proof -
  from assms obtain w1 w2 u where v: "verifySchema E i w1 = (Ok u, w2)" and r: "schema_ready E w2 = (Ok x, w')"
    by (auto simp: apply_and_verify_def success split: prod.split_asm)
  from v obtain details where t: "e_schema E (w_trace w1) (SchemaDetails i) = (details, None)"
    and c: "fst (CompareSchemaWithCR details (cr_schemas (w_obj w1)))"
    and w2: "w2 = log_event (Sdk (SchemaDetails i)) w1"
    by (cases "e_schema E (w_trace w1) (SchemaDetails i)")
      (auto simp: verifySchema_def success GetSchemaDetails_def schema_call_def get_obj_def Let_def ret_def raise_def
        WrapFivetranError_None log_event_def split: prod.split_asm if_split_asm)
  obtain cd where cd: "cond_Type cd = conditionTypeSchemaReady" "cond_Status cd = ConditionTrue"
    and tr: "w_trace w' = w_trace w2 @ [KubeStatusUpdate (with_condition cd (w_obj w2))]"
    using setCondition_trace [of conditionTypeSchemaReady ConditionTrue SchemaReasonReconciliationSuccess msgSchemaReady E w2] r
    by (auto simp: schema_ready_def)
  have s: "cr_schemas (with_condition cd (w_obj w2)) = cr_schemas (w_obj w1)"
    by (simp add: cr_schemas_def with_condition_def w2 log_event_def)
  show ?thesis unfolding verified_def
    using t c tr cd s by (intro exI [of _ "w_trace w1"] exI [of _ "with_condition cd (w_obj w2)"] exI [of _ details])
      (auto simp: w2 log_event_def condition_of_put)
qed

lemma reconcile_details_applies:
  assumes r: "reconcile_details E i obj d err w = (Ok x, w')" and l: "getValidationLevel obj \<noteq> validationLevelNone"
  shows "\<exists>d w1. apply_and_verify E i (getValidationLevel obj) d w1 = (Ok x, w')"
proof -
  have b: "bind (reload_details E i) (apply_and_verify E i (getValidationLevel obj)) w = (Ok x, w') \<Longrightarrow> ?thesis"
    by (auto simp only: bind_Ok)
  show ?thesis
  proof (cases err)
    case None then show ?thesis using r b by (auto simp: reconcile_details_def Let_def split: if_split_asm)
  next
    case (Some e) then show ?thesis using r b l by (auto simp: reconcile_details_def Let_def raise_def split: if_split_asm)
  qed
qed

lemma reconcileSchema_details:
  assumes "reconcileSchema E i w = (Ok x, w')"
  shows "\<exists>d err w1. reconcile_details E i (w_obj w) d err w1 = (Ok x, w')"
  using assms by (auto simp: reconcileSchema_def success get_obj_def raise_def split: if_split_asm)

text \<open>C8: Success is verified, not assumed. With validation on (any level but NONE), reconcileSchema
  succeeds only if its last two calls are a fresh read of the schema, which has no mismatch with
  the schema of the resource, and the status update that reports the condition SchemaReady as
  true.\<close>

theorem reconcileSchema_verified:
  assumes ok: "reconcileSchema E i w = (Ok x, w')" and level: "getValidationLevel (w_obj w) \<noteq> validationLevelNone"
  shows "verified E i w'"
  using reconcileSchema_details [OF ok] reconcile_details_applies [OF _ level] apply_and_verify_verified [OF _ level] by blast

text \<open>A server that takes over the schema of the demo resource with the first write.\<close>

definition demo_listed :: FivetranConnector where
  "demo_listed = demo_obj\<lparr>fc_Spec := \<lparr>spec_Connector = demo_spec, spec_ConnectorSchemas = Some demo_cr\<rparr>\<rparr>"

definition demo_server :: env where
  "demo_server = demo_env\<lparr>e_schema := \<lambda>h c. (if list_ex schema_write h then demo_applied else demo_up, None)\<rparr>"

theorem reconcileSchema_verified_witness:
  "verified demo_server ''conn1'' (snd (reconcileSchema demo_server ''conn1'' (demo_world\<lparr>w_obj := demo_listed\<rparr>)))"
proof -
  let ?w = "demo_world\<lparr>w_obj := demo_listed\<rparr>"
  have "fst (reconcileSchema demo_server ''conn1'' ?w) = Ok ()" by code_simp
  then have "reconcileSchema demo_server ''conn1'' ?w = (Ok (), snd (reconcileSchema demo_server ''conn1'' ?w))"
    by (metis prod.collapse)
  moreover have "getValidationLevel (w_obj ?w) \<noteq> validationLevelNone" by code_simp
  ultimately show ?thesis by (rule reconcileSchema_verified)
qed

end
