(* ===== verification/Reconcile_Connector.thy ===== *)
theory Reconcile_Connector
  imports Controller
begin

text \<open>
  Adoption of an existing connection: which connections the operator takes over from the
  annotation, and what it does with all others.
\<close>

subsection \<open>Adoption\<close>

text \<open>
  The connection that Fivetran reports belongs to the resource: same service, same group, and the
  schema name that the configuration leads to expect, if it leads to expect one.
\<close>

definition raw_bytes :: "RawExtension \<Rightarrow> string" where
  "raw_bytes config = (case Raw config of None \<Rightarrow> [] | Some bytes \<Rightarrow> bytes)"

definition schema_fits :: "env \<Rightarrow> FivetranConnector \<Rightarrow> ConnectionResponse \<Rightarrow> bool" where
  "schema_fits E obj existing \<longleftrightarrow>
     (\<forall>config. sp_Config (spec_Connector (fc_Spec obj)) = Some config \<longrightarrow>
        (\<exists>m expected. UnmarshalMap (e_codec E) (raw_bytes config) = Inr m \<and> expectedSchema m = Ok expected
           \<and> expected \<in> {[], conr_Schema existing}))"

definition adoptable :: "env \<Rightarrow> FivetranConnector \<Rightarrow> ConnectionResponse \<Rightarrow> bool" where
  "adoptable E obj existing \<longleftrightarrow>
     conr_Service existing = sp_Service (spec_Connector (fc_Spec obj))
   \<and> conr_GroupID existing = sp_GroupID (spec_Connector (fc_Spec obj))
   \<and> schema_fits E obj existing"

lemma expectedSchema_no_Err: "expectedSchema m \<noteq> Err e"
  by (auto simp: expectedSchema_def schema_with_suffix_def Let_def split: option.split json.split)

lemma validateSchema_fits:
  "if schema_fits E obj existing then validateSchema E obj existing w = (Ok (), w)
   else snd (validateSchema E obj existing w) = w \<and> (\<forall>x. fst (validateSchema E obj existing w) \<noteq> Ok x)"
proof (cases "sp_Config (spec_Connector (fc_Spec obj))")
  case None
  then show ?thesis by (simp add: schema_fits_def validateSchema_def ret_def)
next
  case config: (Some config)
  show ?thesis
  proof (cases "UnmarshalMap (e_codec E) (raw_bytes config)")
    case (Inl e)
    then show ?thesis using config by (simp add: schema_fits_def validateSchema_def raise_def raw_bytes_def)
  next
    case (Inr m)
    then show ?thesis using config expectedSchema_no_Err [of m]
      by (cases "expectedSchema m") (auto simp: schema_fits_def validateSchema_def raise_def panic_def ret_def raw_bytes_def)
  qed
qed

text \<open>
  The one panic of the adoption. The expected schema name is computed without a panic exactly
  unless the configuration has no schema_prefix, has a schema, and has an entry table_group_name
  that is not a string: null, a number, a boolean, an array or an object.
\<close>

definition bad_group_name :: "json gomap \<Rightarrow> bool" where
  "bad_group_name config \<longleftrightarrow> text_at config ''schema_prefix'' = None \<and> text_at config ''schema'' \<noteq> None
     \<and> (\<exists>v. glookup config ''table_group_name'' = Some v \<and> \<not> (\<exists>s. v = JString s))"

lemma expectedSchema_panics: "(\<exists>m. expectedSchema config = Panic m) \<longleftrightarrow> bad_group_name config"
  by (auto simp: bad_group_name_def expectedSchema_def schema_with_suffix_def Let_def split: option.splits json.splits)

definition schema_panics :: "env \<Rightarrow> FivetranConnector \<Rightarrow> bool" where
  "schema_panics E obj \<longleftrightarrow> (\<exists>raw config. sp_Config (spec_Connector (fc_Spec obj)) = Some raw
     \<and> UnmarshalMap (e_codec E) (raw_bytes raw) = Inr config \<and> bad_group_name config)"

lemma validateSchema_panics: "(\<exists>m. fst (validateSchema E obj existing w) = Panic m) \<longleftrightarrow> schema_panics E obj"
  unfolding schema_panics_def expectedSchema_panics [symmetric]
  by (auto simp: validateSchema_def raise_def ret_def panic_def raw_bytes_def split: option.split sum.split res.split)

text \<open>The adoption reaches the comparison of the schemas, and panics there.\<close>

definition adoption_bug :: "env \<Rightarrow> FivetranConnector \<Rightarrow> ConnectionResponse \<Rightarrow> goerr option \<Rightarrow> bool" where
  "adoption_bug E obj existing err \<longleftrightarrow> err = None \<and> conr_Service existing = sp_Service (spec_Connector (fc_Spec obj))
     \<and> conr_GroupID existing = sp_GroupID (spec_Connector (fc_Spec obj)) \<and> schema_panics E obj"

lemma refused_adoption:
  assumes resp: "e_connection E (w_trace w) (ConnectionDetails i) = (existing, err)"
    and bad: "\<not> (err = None \<and> adoptable E (w_obj w) existing)"
  shows "snd (handleConnectorFromAnnotation E i w) = log_event (Sdk (ConnectionDetails i)) w
    \<and> (\<forall>x. fst (handleConnectorFromAnnotation E i w) \<noteq> Ok x)
    \<and> ((\<exists>m. fst (handleConnectorFromAnnotation E i w) = Panic m) \<longleftrightarrow> adoption_bug E (w_obj w) existing err)"
proof -
  let ?w = "log_event (Sdk (ConnectionDetails i)) w"
  have obj: "w_obj ?w = w_obj w" by (simp add: log_event_def)
  have call: "GetConnection E i w = (Ok (existing, WrapFivetranError (JsonValue (conr_Common existing)) err), ?w)"
    by (simp add: GetConnection_def connection_call_def resp)
  consider e where "err = Some e" | "err = None" "\<not> adoptable E (w_obj w) existing" using bad by (cases err) auto
  then show ?thesis
  proof cases
    case 1
    then obtain e' where "WrapFivetranError (JsonValue (conr_Common existing)) err = Some e'"
      using WrapFivetranError_None by (metis not_None_eq)
    then show ?thesis using 1
      by (simp add: handleConnectorFromAnnotation_def bind_def get_obj_def call check_def raise_def adoption_bug_def)
  next
    case 2
    have n: "WrapFivetranError (JsonValue (conr_Common existing)) None = None" by (simp add: WrapFivetranError_None)
    show ?thesis using 2 validateSchema_fits [of E "w_obj w" existing ?w] validateSchema_panics [of E "w_obj w" existing ?w]
      by (cases "validateSchema E (w_obj w) existing ?w"; cases "fst (validateSchema E (w_obj w) existing ?w)")
        (auto simp: handleConnectorFromAnnotation_def validateExisting_def bind_def get_obj_def call check_def raise_def n adoptable_def adoption_bug_def)
  qed
qed

text \<open>C19: Only a connection that matches the resource is taken over. If the status has no connector ID
  and the annotation names one, but Fivetran does not report a connection of the same service,
  group and expected schema for it, then reconcileConnector makes that one request and nothing
  else: no update of the connection, of the resource or of its status. It panics exactly if the
  request succeeded, service and group match, and the configuration can be read, has no
  schema_prefix, has a schema, and has a table_group_name that is not a string. In every other case, a failed request of any kind
  included, it returns an error that is reported and not tried again.\<close>

theorem adoption_refused:
  assumes "st_ConnectorID (fc_Status (w_obj w)) = []"
    and i: "GetAnnotation (fc_Meta (w_obj w)) annotationConnectorID = i" "i \<noteq> []"
    and "e_connection E (w_trace w) (ConnectionDetails i) = (existing, err)"
    and "\<not> (err = None \<and> adoptable E (w_obj w) existing)"
  shows "snd (reconcileConnector E rc ra w) = log_event (Sdk (ConnectionDetails i)) w
    \<and> (if adoption_bug E (w_obj w) existing err
       then \<exists>m. fst (reconcileConnector E rc ra w) = Panic m
       else \<exists>e. fst (reconcileConnector E rc ra w) = Err e \<and> disposition e = (0, None))"
proof -
  obtain r w' where h: "handleConnectorFromAnnotation E i w = (r, w')" by fastforce
  then have "w' = log_event (Sdk (ConnectionDetails i)) w" and "\<forall>x. r \<noteq> Ok x"
    and "(\<exists>m. r = Panic m) \<longleftrightarrow> adoption_bug E (w_obj w) existing err"
    using refused_adoption [OF assms(4,5)] by auto
  then show ?thesis using h assms(1) i
    by (cases r) (auto simp: reconcileConnector_def connector_identity_def bind_def get_obj_def adopt_def attempt_def
        raise_def disposition_def Let_def)
qed

text \<open>The demo connection is of another group than the one asked for.\<close>

definition demo_adopting :: world where
  "demo_adopting = demo_world\<lparr>w_obj := demo_obj\<lparr>
     fc_Meta := (fc_Meta demo_obj)\<lparr>om_Annotations := Some [(annotationConnectorID, ''conn1'')]\<rparr>,
     fc_Spec := (fc_Spec demo_obj)\<lparr>spec_Connector := demo_spec\<lparr>sp_GroupID := ''other''\<rparr>\<rparr>\<rparr>\<rparr>"

theorem adoption_refused_witness:
  "w_trace (snd (reconcileConnector demo_env None None demo_adopting)) = [Sdk (ConnectionDetails ''conn1'')]
    \<and> (\<exists>e. fst (reconcileConnector demo_env None None demo_adopting) = Err e \<and> disposition e = (0, None))"
proof -
  have h: "st_ConnectorID (fc_Status (w_obj demo_adopting)) = []"
    "GetAnnotation (fc_Meta (w_obj demo_adopting)) annotationConnectorID = ''conn1''" "''conn1'' \<noteq> []"
    "e_connection demo_env (w_trace demo_adopting) (ConnectionDetails ''conn1'') = (demo_connection, None)"
    "\<not> (None = None \<and> adoptable demo_env (w_obj demo_adopting) demo_connection)"
    and b: "\<not> adoption_bug demo_env (w_obj demo_adopting) demo_connection None"
    by (simp_all add: demo_adopting_def demo_obj_def GetAnnotation_def gstring_def glookup_def demo_env_def
        adoptable_def adoption_bug_def demo_connection_def)
  from adoption_refused [OF h, of None None] b show ?thesis by (simp add: log_event_def demo_adopting_def demo_world_def)
qed

end
