(* ===== verification/Reconcile_Needs.thy ===== *)
theory Reconcile_Needs
  imports Reconcile_Safety
begin

text \<open>
  What a reconciliation does when nothing has to be done, and what it leaves undone while a
  condition of the resource reports a failure.
\<close>

subsection \<open>The steady state\<close>

text \<open>
  The resource is live, carries the finalizer and no force label, reports no failure, has a
  connection, and both hashes are those of its spec.
\<close>

definition untouched :: "FivetranConnector \<Rightarrow> bool" where
  "untouched obj \<longleftrightarrow> om_DeletionTimestamp (fc_Meta obj) = None \<and> ContainsFinalizer (fc_Meta obj) fivetranFinalizer
     \<and> \<not> HasLabel (fc_Meta obj) annotationForceReconcile"

definition settled :: "env \<Rightarrow> FivetranConnector \<Rightarrow> bool" where
  "settled E obj \<longleftrightarrow> untouched obj \<and> \<not> hasFailedConditions obj \<and> st_ConnectorID (fc_Status obj) \<noteq> []
     \<and> calculateConnectorHash E obj = Inr (GetAnnotation (fc_Meta obj) annotationConnectorHash)
     \<and> (hasSchemaConfig obj \<longrightarrow> calculateSchemaHash E obj = Inr (GetAnnotation (fc_Meta obj) annotationSchemaHash))"

lemma reconcile_live_untouched:
  assumes "untouched (w_obj w)"
  shows "reconcile_live E w =
    (case determineReconciliationNeeds E (w_obj w) False of
       Inl err \<Rightarrow> handleError E conditionTypeConnectorReady ConnectorReasonReconciliationFailed err
     | Inr (doConnector, doSchema) \<Rightarrow>
       (if \<not> doConnector \<and> \<not> doSchema then ret (result 0, None)
        else or_handle E conditionTypeConnectorReady ConnectorReasonVaultSecretsResolutionFailed (resolveSecrets E)
               (\<lambda>(resolvedConfig, resolvedAuth). connector_phase E doConnector doSchema resolvedConfig resolvedAuth))) w"
  using assms
  by (simp add: reconcile_live_def reconcile_needs_def or_handle_def attempt_def ensureFinalizer_def bind_def get_obj_def ret_def untouched_def
      take_force_label_def Let_def)

lemma settled_needs: "settled E obj \<Longrightarrow> determineReconciliationNeeds E obj False = Inr (False, False)"
  by (simp add: settled_def determineReconciliationNeeds_def hasConnectorHashChanged_def hasSchemaHashChanged_def)

text \<open>
  With a valid token a reconciliation goes on with the live branch. The token is that of the client
  which is in the shared field when this run reads it.
\<close>

definition after_get :: "world \<Rightarrow> FivetranConnector \<Rightarrow> world" where
  "after_get w obj = w\<lparr>w_obj := obj, w_trace := w_trace w @ [KubeGet]\<rparr>"

lemma after_get_simps [simp]: "w_obj (after_get w obj) = obj" "w_trace (after_get w obj) = w_trace w @ [KubeGet]"
  by (simp_all add: after_get_def)

lemma token_valid_world:
  "token_valid E w = (Ok True, w1) \<Longrightarrow> w_obj w1 = w_obj w \<and> w_trace w1 = w_trace w @ [VaultLookupSelf]"
  by (auto simp: token_valid_def IsTokenValid_def log_event_def Let_def split: option.split_asm sum.split_asm json.split_asm if_split_asm)

lemma Reconcile_valid_token:
  assumes get: "e_get E (w_trace w) = Inr obj" and live: "om_DeletionTimestamp (fc_Meta obj) = None"
    and token: "token_valid E (after_get w obj) = (Ok True, w1)"
  shows "Reconcile E True ns w = reconcile_live E w1 \<and> w_obj w1 = obj \<and> w_trace w1 = w_trace w @ [KubeGet, VaultLookupSelf]"
proof -
  have w1: "w_obj w1 = obj" "w_trace w1 = w_trace w @ [KubeGet, VaultLookupSelf]" using token_valid_world [OF token] by simp_all
  have "kube_get E w = (Ok (), after_get w obj)" by (simp add: kube_get_def get log_event_def after_get_def)
  moreover have "ensure_vault E ns (after_get w obj) = (Ok (), w1)"
    using token by (simp add: ensure_vault_def bind_def ret_def)
  ultimately have "Reconcile E True ns w = reconcile_live E w1"
    using live by (simp add: Reconcile_def attempt_def bind_def get_obj_def w1)
  then show ?thesis using w1 by simp
qed

lemma settled_run:
  assumes get: "e_get E (w_trace w) = Inr obj" and obj: "settled E obj"
    and token: "token_valid E (after_get w obj) = (Ok True, w1)"
  shows "Reconcile E True ns w = (Ok (result 0, None), w1)
    \<and> w_obj w1 = obj \<and> w_trace w1 = w_trace w @ [KubeGet, VaultLookupSelf]"
proof -
  have r: "Reconcile E True ns w = reconcile_live E w1" and w1: "w_obj w1 = obj" "w_trace w1 = w_trace w @ [KubeGet, VaultLookupSelf]"
    using Reconcile_valid_token [OF get _ token] obj by (auto simp: settled_def untouched_def)
  have "reconcile_live E w1 = (Ok (result 0, None), w1)"
    using obj by (simp add: w1 reconcile_live_untouched settled_def settled_needs [OF obj] ret_def)
  then show ?thesis using r w1 by simp
qed

text \<open>C18: A settled resource is left alone. If the resource is not marked for deletion, carries the finalizer and no force label,
  reports no failure, has a connection and bears the hashes of its spec, and the Vault token is
  valid for long enough, then a reconciliation reads the resource, looks up the token and does
  nothing else: no request to Fivetran, no read of a secret, no update, and no requeue.\<close>

theorem Reconcile_settled:
  assumes get: "e_get E (w_trace w) = Inr obj" and obj: "settled E obj"
    and token: "token_valid E (after_get w obj) = (Ok True, w1)"
  shows "Reconcile E True ns w = (Ok (result 0, None), w1)
    \<and> w_obj w1 = obj \<and> w_trace w1 = w_trace w @ [KubeGet, VaultLookupSelf]"
  using settled_run [OF assms] .

definition demo_settled :: FivetranConnector where
  "demo_settled = demo_new\<lparr>
     fc_Meta := SetAnnotation (fc_Meta demo_new) annotationConnectorHash (hex_string ''postgres''),
     fc_Status := (fc_Status demo_new)\<lparr>st_ConnectorID := ''conn1''\<rparr>\<rparr>"

theorem Reconcile_settled_witness:
  "w_trace (snd (Reconcile (demo_env\<lparr>e_get := \<lambda>_. Inr demo_settled\<rparr>) True ''ns'' demo_ready)) = [KubeGet, VaultLookupSelf]"
proof -
  let ?E = "demo_env\<lparr>e_get := \<lambda>_. Inr demo_settled\<rparr>"
  let ?w = "after_get demo_ready demo_settled"
  have g: "e_get ?E (w_trace demo_ready) = Inr demo_settled" by simp
  have "untouched demo_settled" "\<not> hasFailedConditions demo_settled" "st_ConnectorID (fc_Status demo_settled) \<noteq> []"
    "\<not> hasSchemaConfig demo_settled"
    by (simp_all add: demo_settled_def demo_new_def demo_obj_def untouched_def ContainsFinalizer_def SetAnnotation_def
        HasLabel_def hasFailedConditions_def hasSchemaConfig_def)
  moreover have "calculateConnectorHash ?E demo_settled = Inr (GetAnnotation (fc_Meta demo_settled) annotationConnectorHash)"
    by (simp add: demo_settled_def demo_new_def demo_obj_def calculateConnectorHash_def demo_env_def demo_spec_def GetAnnotation_def
        SetAnnotation_def gstring_def glookup_ginsert)
  ultimately have s: "settled ?E demo_settled" by (simp add: settled_def)
  have "fst (token_valid ?E ?w) = Ok True"
    by (simp add: token_valid_def IsTokenValid_def demo_env_def demo_ready_def demo_world_def after_get_def Let_def glookup_def ParseInt64_def
        digits_value_def isDigit_def)
  then have t: "token_valid ?E ?w = (Ok True, snd (token_valid ?E ?w))" by (metis prod.collapse)
  have "w_trace (snd (Reconcile ?E True ''ns'' demo_ready)) = w_trace demo_ready @ [KubeGet, VaultLookupSelf]"
    using Reconcile_settled [OF g s t, of "''ns''"] by (metis snd_conv)
  then show ?thesis by (simp add: demo_ready_def demo_world_def)
qed

subsection \<open>Failures and changes\<close>

definition schema_free :: "event \<Rightarrow> bool" where
  "schema_free e \<longleftrightarrow> \<not> schema_write e"

lemma schema_free_simps [simp]:
  "schema_free (KubeUpdate x)" "schema_free (KubeStatusUpdate x)" "schema_free (Sdk (ConnectionUpdate i r))"
  "schema_free (Sdk (ConnectionDetails i))" "schema_free (Sdk (ConnectionSetupTests i c f))" "schema_free (VaultRead m p)"
  "schema_free (Sdk (ConnectionCreate q))" "schema_free (Sdk (ConnectionDelete i))" "schema_free KubeGet" "schema_free VaultLookupSelf"
  by (simp_all add: schema_free_def schema_write_def)

lemma vault_init_schema_free: "vault_init_event e \<Longrightarrow> schema_free e"
  by (auto simp: vault_init_event_def schema_free_def schema_write_def split: event.split_asm)

lemma emit_connector_phase_schema_free: "emit.keeps schema_free (connector_phase E dc False rc ra)"
  unfolding connector_phase_def schema_phase_def reconcileConnector_def connector_identity_def
  by (intro emit.keeps_rules frames; simp)

lemma masked_needs:
  assumes "hasFailedConditions obj" and "\<not> isConditionFalse obj conditionTypeSchemaReady"
  shows "\<exists>dc. determineReconciliationNeeds E obj False = Inr (dc, False)"
  using assms by (simp add: determineReconciliationNeeds_def Let_def)

text \<open>C25: A failure elsewhere keeps the schema from being applied. If the resource is not marked for
  deletion and carries the finalizer, any of its conditions is
  false but SchemaReady is not (a new connection whose setup tests failed, for example), and the
  force label is not set, then a reconciliation writes no schema, however the schema of the
  resource compares with what was applied last. It still updates and so activates the connection.\<close>

theorem failure_masks_schema_change:
  assumes get: "e_get E (w_trace w) = Inr obj" and obj: "untouched obj"
    and failed: "hasFailedConditions obj" "\<not> isConditionFalse obj conditionTypeSchemaReady"
    and ev: "w_trace (snd (Reconcile E cl ns w)) = w_trace w @ es" "e \<in> set es"
  shows "\<not> schema_write e"
proof -
  have "grows schema_free w (snd (Reconcile E cl ns w))"
  proof (rule Reconcile_grows)
    fix w1 :: world assume "e_get E (w_trace w) = Inr (w_obj w1)"
    then have o1: "w_obj w1 = obj" using get by simp
    show "grows schema_free w1 (snd (handleDeletion E w1))"
      by (intro growsI [OF handleDeletion_trace]) (auto simp: deletion_calls_def)
    obtain dc where n: "determineReconciliationNeeds E (w_obj w1) False = Inr (dc, False)"
      using masked_needs [OF failed] o1 by blast
    have "grows schema_free w1 (snd (or_handle E conditionTypeConnectorReady ConnectorReasonVaultSecretsResolutionFailed (resolveSecrets E)
        (\<lambda>(resolvedConfig, resolvedAuth). connector_phase E dc False resolvedConfig resolvedAuth) w1))"
      by (intro emit.step_keeps frames emit.keeps_rules emit_connector_phase_schema_free) simp_all
    then show "grows schema_free w1 (snd (reconcile_live E w1))"
      using obj emit.step_keeps [OF emit.keeps_ret, of schema_free] n by (cases dc) (simp_all add: reconcile_live_untouched o1)
  qed (simp_all add: vault_init_schema_free)
  then show ?thesis using ev by (auto simp: grows_def list_all_iff schema_free_def)
qed

text \<open>
  The demo resource with a schema that was never applied, after its setup tests failed.
\<close>

definition demo_failed :: FivetranConnector where
  "demo_failed = demo_settled\<lparr>
     fc_Spec := \<lparr>spec_Connector = demo_spec, spec_ConnectorSchemas = Some demo_cr\<rparr>,
     fc_Status := (fc_Status demo_settled)\<lparr>st_Conditions := Some
       [\<lparr>cond_Type = conditionTypeSetupTestReady, cond_Status = ConditionFalse,
         cond_Reason = SetupTestsReasonReconciliationFailed, cond_Message = [], cond_LastTransitionTime = 0\<rparr>]\<rparr>\<rparr>"

theorem failure_masks_schema_change_witness:
  "let E = demo_env\<lparr>e_get := \<lambda>_. Inr demo_failed\<rparr>
   in hasSchemaHashChanged E demo_failed = Inr True
      \<and> (\<forall>e \<in> set (w_trace (snd (Reconcile E True ''ns'' demo_ready))). \<not> schema_write e)"
proof -
  let ?E = "demo_env\<lparr>e_get := \<lambda>_. Inr demo_failed\<rparr>"
  let ?r = "Reconcile ?E True ''ns'' demo_ready"
  have g: "e_get ?E (w_trace demo_ready) = Inr demo_failed" by simp
  have f: "untouched demo_failed" "hasFailedConditions demo_failed" "\<not> isConditionFalse demo_failed conditionTypeSchemaReady"
    and c: "hasSchemaHashChanged ?E demo_failed = Inr True"
    by (simp_all add: demo_failed_def demo_settled_def demo_new_def demo_obj_def untouched_def ContainsFinalizer_def SetAnnotation_def
        HasLabel_def hasFailedConditions_def isConditionFalse_def conditionTypeSetupTestReady_def conditionTypeSchemaReady_def
        hasSchemaHashChanged_def hasSchemaConfig_def demo_cr_def calculateSchemaHash_def demo_env_def GetAnnotation_def gstring_def
        glookup_def ginsert_def gmake_def hex_string_def annotationSchemaHash_def annotationConnectorHash_def)
  have t: "w_trace (snd ?r) = w_trace demo_ready @ w_trace (snd ?r)" by (simp add: demo_ready_def demo_world_def)
  show ?thesis using failure_masks_schema_change [OF g f t] c by (simp add: Let_def)
qed

end
