(* ===== verification/Schema_Writes.thy ===== *)
theory Schema_Writes
  imports Reconcile_Needs Reconcile_Schema
begin

text \<open>
  What a reconciliation writes to the schema of a connection, end to end: from the resource that
  was read to the body of the request that the SDK sends.
\<close>

subsection \<open>Responses\<close>

text \<open>
  The answers of Fivetran are decoded JSON objects, so no key occurs twice, and no schema, table
  or column has the empty name. Columns fetched one table at a time are put into the response.
\<close>

definition good_response :: "SchemaDetailsResponse \<Rightarrow> bool" where
  "good_response r \<longleftrightarrow> response_wf r \<and> response_named r"

definition answers_ok :: "env \<Rightarrow> bool" where
  "answers_ok E \<longleftrightarrow> (\<forall>h c. good_response (fst (e_schema E h c)) \<and> gwf (fst (e_columns E h c))
     \<and> gkeys_named (\<lambda>_. True) (fst (e_columns E h c)))"

lemma set_update_subset: "set (AList.update k v l) \<subseteq> insert (k, v) (set l)"
  by (induction l) auto

lemma gall_ginsert: "gall P m \<Longrightarrow> pred_option P v \<Longrightarrow> gall P (ginsert k v m)"
  using set_update_subset [of k v "gentries m"] by (auto simp: gall_def ginsert_def gwf_def distinct_update)

lemma gkeys_named_ginsert: "gkeys_named P m \<Longrightarrow> k \<noteq> [] \<Longrightarrow> pred_option P v \<Longrightarrow> gkeys_named P (ginsert k v m)"
  using set_update_subset [of k v "gentries m"] by (auto simp: gkeys_named_def ginsert_def list_all_iff)

lemma gkeys_named_lookup: "gkeys_named P m \<Longrightarrow> glookup m k = Some v \<Longrightarrow> k \<noteq> [] \<and> pred_option P v"
  by (fastforce simp: gkeys_named_def list_all_iff dest: glookup_in)

lemma set_columns_good:
  assumes "good_response up" and "gwf columns" and "gkeys_named (\<lambda>_. True) columns"
  shows "good_response (set_columns s t columns up)"
proof (cases "upstream_table up s t")
  case None
  then have "set_columns s t columns up = up"
    by (auto simp: upstream_table_def set_columns_def split: option.split option.split_asm)
  then show ?thesis using assms by simp
next
  case (Some ut)
  then obtain us where us: "glookup (sdr_Schemas up) s = Some (Some us)" and ut: "glookup (schr_Tables us) t = Some (Some ut)"
    by (auto simp: upstream_table_def split: option.split_asm)
  have wf: "schr_wf us" using assms(1) gallD [OF _ us] by (auto simp: good_response_def response_wf_def)
  have named: "s \<noteq> []" "schr_named us" using assms(1) gkeys_named_lookup [OF _ us] by (auto simp: good_response_def response_named_def)
  then have "t \<noteq> []" using gkeys_named_lookup [OF _ ut] by (auto simp: schr_named_def)
  then show ?thesis using assms us ut wf named
    by (auto simp: set_columns_def good_response_def response_wf_def response_named_def schr_wf_def tabr_wf_def schr_named_def tabr_named_def
        intro!: gall_ginsert gkeys_named_ginsert)
qed

lemma answers_responses: "answers_ok E \<Longrightarrow> responses good_response E"
  using set_columns_good by (auto simp: answers_ok_def responses_def)

subsection \<open>Writes\<close>

text \<open>The body of a schema request, and when it is what the schema \<open>c\<close> of a resource asks for.\<close>

definition written :: "event \<Rightarrow> SchemaRequest option" where
  "written e = (case e of Sdk (SchemaCreate _ r) \<Rightarrow> Some r | Sdk (SchemaUpdate _ r) \<Rightarrow> Some r | _ \<Rightarrow> None)"

definition asks_for :: "ConnectorSchemaConfig \<Rightarrow> SchemaRequest \<Rightarrow> bool" where
  "asks_for c r \<longleftrightarrow>
     (\<exists>up. \<forall>s. view_request r s = spec_payload (Some c) up s)
   \<and> srq_SchemaChangeHandling r = (if csc_SchemaChangeHandling c = [] then None else Some (csc_SchemaChangeHandling c))
   \<and> (\<forall>s sc. view_request r s = Some sc \<longrightarrow> enabled_by c s sc)"

definition honest_write :: "ConnectorSchemaConfig \<Rightarrow> event \<Rightarrow> bool" where
  "honest_write c e \<longleftrightarrow> pred_option (asks_for c) (written e)"

lemma honest_simps [simp]:
  "honest_write c (KubeUpdate x)" "honest_write c (KubeStatusUpdate x)" "honest_write c KubeGet" "honest_write c VaultLookupSelf"
  "honest_write c (VaultRead m p)" "honest_write c (Sdk (ColumnConfigList i s t))"
  "honest_write c (Sdk (ConnectionCreate q))" "honest_write c (Sdk (ConnectionDelete i))"
  by (simp_all add: honest_write_def written_def)

text \<open>
  What the operator relies on: the answers of Fivetran are well-formed, and the schema of the
  resource has no duplicate and no empty names.
\<close>

definition write_hyps :: "env \<Rightarrow> ConnectorSchemaConfig \<Rightarrow> bool" where
  "write_hyps E c \<longleftrightarrow> answers_ok E \<and> config_wf c \<and> config_named c"

lemma request_asks:
  assumes "config_wf c" "config_named c" "pred_option good_response up"
    and "schema_request (BuildSchemaConfig (Some c) up) = Inr r"
  shows "asks_for c r"
proof -
  have "pred_option response_wf up" "pred_option response_named up" using assms(3) by (cases up; simp add: good_response_def)+
  from schema_request_specified [OF assms(1,2) this] assms(4)
  have r: "\<forall>s. view_request r s = spec_payload (Some c) up s"
    "srq_SchemaChangeHandling r = (if csc_SchemaChangeHandling c = [] then None else Some (csc_SchemaChangeHandling c))" by auto
  then show ?thesis using spec_payload_listed unfolding asks_for_def by metis
qed

subsection \<open>The frame\<close>

text \<open>
  From a resource \<open>x\<close> with the schema \<open>c\<close> on, memory and server agree on the spec, whether the server
  accepts the writes or not, and the writes are honest.
\<close>

definition writes_honestly :: "env \<Rightarrow> FivetranConnector \<Rightarrow> event list \<Rightarrow> ConnectorSchemaConfig \<Rightarrow> world \<Rightarrow> world \<Rightarrow> bool" where
  "writes_honestly E x h c w w' \<longleftrightarrow> (write_hyps E c \<longrightarrow> stores E x h \<longrightarrow> cr_schemas x = Some c \<longrightarrow> spec_synced E x h w \<longrightarrow>
     spec_synced E x h w' \<and> grows (honest_write c) w w')"

interpretation honest: action_frame "writes_honestly E x h c" for E x h c
proof unfold_locales
  show "writes_honestly E x h c w w" for w using emit.R_refl by (simp add: writes_honestly_def)
  show "writes_honestly E x h c w w''" if "writes_honestly E x h c w w'" "writes_honestly E x h c w' w''" for w w' w''
    using that emit.R_trans unfolding writes_honestly_def by blast
qed

lemma honestI:
  assumes "emit.keeps (honest_write c) a" and "\<And>w. stores E x h \<Longrightarrow> spec_synced E x h w \<Longrightarrow> spec_synced E x h (snd (a w))"
  shows "honest.keeps E x h c a"
  using assms by (simp add: honest.keeps_def emit.keeps_def writes_honestly_def)

text \<open>A step that sends nothing to Kubernetes and changes no spec.\<close>

lemma honest_quiet:
  assumes "emit.keeps (\<lambda>e. honest_write c e \<and> quiet e) a" and "\<And>w. fc_Spec (w_obj (snd (a w))) = fc_Spec (w_obj w)"
  shows "honest.keeps E x h c a"
proof (rule honestI)
  show "emit.keeps (honest_write c) a" by (rule emit_mono [OF assms(1)]) simp
  fix w assume "spec_synced E x h w"
  moreover obtain fs where "w_trace (snd (a w)) = w_trace w @ fs" "list_all quiet fs"
    using emit.step_keeps [OF assms(1), of w] by (auto simp: grows_def list_all_iff)
  ultimately show "spec_synced E x h (snd (a w))" by (metis spec_synced_quiet assms(2))
qed

lemma honest_updates:
  "honest.keeps E x h c (kube_update E)" "honest.keeps E x h c (kube_status_update E)"
  by (rule honestI; simp add: spec_synced_update emit_kube_update emit_kube_status)+

lemma honest_modify: "(\<And>x. fc_Spec (f x) = fc_Spec x) \<Longrightarrow> honest.keeps E x h c (modify_obj f)"
  by (rule honest_quiet [OF emit_modify]) (simp add: modify_obj_def)

lemma honest_connection: "written (Sdk k) = None \<Longrightarrow> honest.keeps E x h c (connection_call E k)"
  by (rule honest_quiet [OF emit_connection_call]) (simp_all add: honest_write_def connection_call_def log_event_def split: prod.split)

lemma honest_schema_call: "pred_option (asks_for c) (written (Sdk k)) \<Longrightarrow> honest.keeps E x h c (schema_call E k)"
  by (rule honest_quiet [OF emit_schema_call]) (simp_all add: honest_write_def schema_call_def log_event_def split: prod.split)

lemma honest_request:
  assumes "pred_option good_response up"
  shows "honest.keeps E x h c (UpdateSchema E i (BuildSchemaConfig (Some c) up))"
    and "honest.keeps E x h c (CreateSchema E i (BuildSchemaConfig (Some c) up))"
proof -
  have "honest.keeps E x h c (case schema_request (BuildSchemaConfig (Some c) up) of
      Inl err \<Rightarrow> ret (empty_details, Some err) | Inr req \<Rightarrow> schema_call E (k req))"
    if "\<And>r. written (Sdk (k r)) = Some r" for k
  proof (cases "write_hyps E c")
    case True
    then show ?thesis using request_asks [OF _ _ assms] that
      by (auto simp: write_hyps_def intro: honest.keeps_ret honest_schema_call split: sum.split)
  qed (simp add: honest.keeps_def writes_honestly_def)
  from this [of "SchemaUpdate i"] this [of "SchemaCreate i"]
  show "honest.keeps E x h c (UpdateSchema E i (BuildSchemaConfig (Some c) up))"
    and "honest.keeps E x h c (CreateSchema E i (BuildSchemaConfig (Some c) up))"
    by (simp_all add: UpdateSchema_def CreateSchema_def written_def)
qed

text \<open>An action that starts by reading the object may take it to hold the schema \<open>c\<close>.\<close>

lemma honest_get:
  assumes "\<And>y. cr_schemas y = Some c \<Longrightarrow> honest.keeps E x h c (f y)"
  shows "honest.keeps E x h c (bind get_obj f)"
  using assms by (auto simp: honest.keeps_def writes_honestly_def bind_def get_obj_def cr_schemas_def spec_synced_def)

lemma honest_hash: "honest.keeps E x h c (updateSchemaHash E)"
  unfolding updateSchemaHash_def by (intro honest.keeps_rules honest_modify honest_updates) simp

lemma honest_setConnectorID: "honest.keeps E x h c (setConnectorID E i)"
  unfolding setConnectorID_def by (intro honest.keeps_rules honest_modify honest_updates) simp_all

lemma honest_updateConnector: "honest.keeps E x h c (updateConnector E i rc ra)"
  unfolding updateConnector_def UpdateConnection_def
  by (intro honest.keeps_rules honest_connection) (simp add: written_def)

lemma honest_createConnector: "honest.keeps E x h c (createConnector E rc ra)"
  unfolding createConnector_def CreateConnection_def
  by (intro honest.keeps_rules honest_connection) (simp add: written_def)

lemma honest_adopt: "honest.keeps E x h c (adopt E i)"
proof -
  have "honest.keeps E x h c (validateExisting E obj ex)" for obj ex
    by (simp add: honest.keeps_def validateExisting_world honest.R_refl)
  moreover have "honest.keeps E x h c (GetConnection E i)"
    unfolding GetConnection_def by (rule honest_connection) (simp add: written_def)
  ultimately show ?thesis
    unfolding adopt_def handleConnectorFromAnnotation_def by (intro honest.keeps_rules honest_setConnectorID)
qed

lemma honest_identity: "honest.keeps E x h c (connector_identity E rc ra)"
  unfolding connector_identity_def
  by (intro honest.keeps_rules honest_setConnectorID honest_updateConnector honest_createConnector honest_adopt)

interpretation honest: live_frame "writes_honestly E x h c" E good_response for E x h c
proof unfold_locales
  show "writes_honestly E x h c w w'" if "\<not> responses good_response E" for w w'
    using that answers_responses by (auto simp: writes_honestly_def write_hyps_def)
  have m: "honest.keeps E x h c (send_meta E (\<lambda>c. c\<lparr>fc_Meta := g (fc_Meta c)\<rparr>))" for g
    unfolding send_meta_def by (intro honest.keeps_rules honest_modify honest_updates) simp
  show "honest.keeps E x h c (send_meta E (\<lambda>c. c\<lparr>fc_Meta := AddFinalizer (fc_Meta c) fivetranFinalizer\<rparr>))"
    and "honest.keeps E x h c (send_meta E (\<lambda>c. c\<lparr>fc_Meta := RemoveLabel (fc_Meta c) annotationForceReconcile\<rparr>))" by (rule m)+
  show "honest.keeps E x h c (updateConnectorHash E)"
    unfolding updateConnectorHash_def by (intro honest.keeps_rules honest_modify honest_updates) simp
  show "honest.keeps E x h c (send_status E (with_condition cd))" for cd
    unfolding send_status_def by (intro honest.keeps_rules honest_modify honest_updates) simp
  show "honest.keeps E x h c (connection_call E k)" if "tame_call k" for k
    using that by (intro honest_connection) (auto simp: written_def tame_call_def split: sdk_call.split_asm)
  show "honest.keeps E x h c (schema_call E k)" if "read_call k" for k
    using that by (intro honest_schema_call) (auto simp: written_def read_call_def split: sdk_call.split)
  show "honest.keeps E x h c (GetColumnConfig E i s t)" for i s t
    by (rule honest_quiet [OF emit_GetColumnConfig]) (auto simp: GetColumnConfig_def log_event_def Let_def split: prod.split option.split)
  show "honest.keeps E x h c (resolve_raw E raw)" for raw
    by (rule honest_quiet [OF emit_resolve_raw]) (auto simp: resolve_raw_def Let_def split: prod.split option.split)
  show "honest.keeps E x h c (connector_identity E rc ra)" for rc ra by (rule honest_identity)
  show "honest.keeps E x h c (applySchema E i d)" if "good_response d" for i d
    unfolding applySchema_def using that
    by (intro honest_get honest.keeps_bind honest.keeps_prod honest.keeps_check honest_hash) (auto intro: honest_request)
  show "honest.keeps E x h c (createNewSchema E i)" for i
    unfolding createNewSchema_def
    by (intro honest_get honest.keeps_bind honest.keeps_prod honest.keeps_check honest.keeps_wrap honest_hash) (auto intro: honest_request)
qed

subsection \<open>The run of a reconciliation\<close>

text \<open>C6: Whatever is written to the schema of a connection is what the resource asks for. Let
  Kubernetes store the writes it accepts on the resource that was read, and possibly reject others;
  let the answers of Fivetran be well-formed, and let the schema of the resource have no empty and no
  repeated names. Then in every run of Reconcile each request that creates or updates a schema, the second pass included, carries the
  policy of the resource and exactly the payload specified for the resource and some schema of the
  server, or none; in particular it enables no schema and no table that the resource does not list
  as enabled.\<close>

theorem Reconcile_writes_schema:
  assumes get: "e_get E (w_trace w) = Inr obj" and kept: "stores E obj (w_trace w)" and "answers_ok E"
    and obj: "spec_ConnectorSchemas (fc_Spec obj) = Some c" and c: "config_wf c" "config_named c"
    and ev: "w_trace (snd (Reconcile E cl ns w)) = w_trace w @ es" "e \<in> set es" "written e = Some r"
  shows "asks_for c r"
proof -
  have hyps: "write_hyps E c" using assms(3) c by (simp add: write_hyps_def)
  have "grows (honest_write c) w (snd (Reconcile E cl ns w))"
  proof (rule Reconcile_grows_from)
    fix w1 :: world
    show "grows (honest_write c) w1 (snd (handleDeletion E w1))"
      by (intro growsI [OF handleDeletion_trace]) (auto simp: deletion_calls_def)
    fix w0 u assume run: "kube_get E w = (Ok (), w0)" "ensure_vault E ns w0 = (Ok u, w1)" and "e_get E (w_trace w) = Inr (w_obj w1)"
    then have "w_obj w1 = obj" using get by simp
    then have "spec_synced E obj (w_trace w) w1"
      using live_synced [OF get run] unfolding synced_def spec_synced_def by metis
    then show "grows (honest_write c) w1 (snd (reconcile_live E w1))"
      using honest.step_keeps [OF honest.reconcile_live_keeps, of E obj "w_trace w" c w1] hyps kept obj
      by (simp add: writes_honestly_def cr_schemas_def)
  qed (auto simp: honest_write_def written_def vault_init_event_def split: event.split)
  then show ?thesis using ev by (auto simp: grows_def list_all_iff honest_write_def)
qed

text \<open>The demo resource after a failed reconciliation of its schema, against a server that takes writes.\<close>

definition demo_pending :: FivetranConnector where
  "demo_pending = demo_failed\<lparr>fc_Status := (fc_Status demo_failed)\<lparr>st_Conditions := Some
     [\<lparr>cond_Type = conditionTypeSchemaReady, cond_Status = ConditionFalse,
       cond_Reason = SchemaReasonReconciliationFailed, cond_Message = [], cond_LastTransitionTime = 0\<rparr>]\<rparr>\<rparr>"

definition demo_live :: env where
  "demo_live = served demo_server demo_pending []"

definition demo_start :: world where
  "demo_start = demo_ready\<lparr>w_obj := demo_pending, w_trace := [KubeGet, VaultLookupSelf]\<rparr>"

lemma demo_pending_facts:
  "untouched demo_pending" "determineReconciliationNeeds demo_live demo_pending False = Inr (False, True)"
  "sp_Config (spec_Connector (fc_Spec demo_pending)) = None" "sp_Auth (spec_Connector (fc_Spec demo_pending)) = None"
  "hasSchemaConfig demo_pending" "st_ConnectorID (fc_Status demo_pending) = ''conn1''"
  "spec_ConnectorSchemas (fc_Spec demo_pending) = Some demo_cr"
  by (simp_all add: demo_pending_def demo_failed_def demo_settled_def demo_new_def demo_obj_def demo_spec_def untouched_def
      ContainsFinalizer_def SetAnnotation_def HasLabel_def determineReconciliationNeeds_def hasFailedConditions_def isConditionFalse_def
      conditionTypeSetupTestReady_def conditionTypeSchemaReady_def conditionTypeConnectorReady_def hasSchemaConfig_def demo_cr_def Let_def)

lemma demo_live_run:
  "Reconcile demo_live True ''ns'' demo_ready =
     or_handle demo_live conditionTypeSchemaReady SchemaReasonReconciliationFailed (reconcileSchema demo_live ''conn1'')
       (\<lambda>_. finish demo_live False ''conn1'' None None) demo_start"
proof -
  have "token_valid demo_live (after_get demo_ready demo_pending) = (Ok True, demo_start)"
    by (simp add: token_valid_def others_def IsTokenValid_def demo_live_def served_def demo_server_def demo_env_def demo_ready_def demo_world_def demo_start_def after_get_def
        log_event_def Let_def glookup_def ParseInt64_def digits_value_def isDigit_def)
  then have "Reconcile demo_live True ''ns'' demo_ready = reconcile_live demo_live demo_start"
    using Reconcile_valid_token [of demo_live demo_ready demo_pending demo_start] demo_pending_facts(1)
    by (simp add: untouched_def demo_live_def served_def demo_ready_def demo_world_def)
  also have "\<dots> = or_handle demo_live conditionTypeSchemaReady SchemaReasonReconciliationFailed (reconcileSchema demo_live ''conn1'')
       (\<lambda>_. finish demo_live False ''conn1'' None None) demo_start"
    using demo_pending_facts
    by (simp add: reconcile_live_untouched demo_start_def)
      (simp add: or_handle_def attempt_def resolveSecrets_def resolve_part_def bind_def get_obj_def ret_def connector_phase_def schema_phase_def)
  finally show ?thesis .
qed

lemma demo_live_write:
  "\<exists>e r. e \<in> set (w_trace (snd (Reconcile demo_live True ''ns'' demo_ready))) \<and> written e = Some r"
proof -
  have "list_ex (\<lambda>e. written e \<noteq> None) (w_trace (snd (reconcileSchema demo_live ''conn1'' demo_start)))" by code_simp
  then obtain e where e: "e \<in> set (w_trace (snd (reconcileSchema demo_live ''conn1'' demo_start)))" "written e \<noteq> None"
    by (auto simp: list_ex_iff)
  have sub: "set (w_trace w') \<subseteq> set (w_trace w'')" if "grows (\<lambda>_. True) w' w''" for w' w'' using that by (auto simp: grows_def)
  have "set (w_trace w') \<subseteq> set (w_trace (snd (finish demo_live False ''conn1'' None None w')))" for w'
    by (intro sub emit.step_keeps frames TrueI)
  moreover have "set (w_trace w') \<subseteq> set (w_trace (snd (handleError demo_live ct r err w')))" for w' ct r err
    by (intro sub emit.step_keeps frames TrueI)
  ultimately have "e \<in> set (w_trace (snd (Reconcile demo_live True ''ns'' demo_ready)))"
    using e(1) unfolding demo_live_run or_handle_def attempt_def
    by (cases "reconcileSchema demo_live ''conn1'' demo_start") (auto split: res.split; blast)
  then show ?thesis using e(2) by blast
qed

lemma demo_live_hyps: "stores demo_live demo_pending []" "answers_ok demo_live"
proof -
  have "good_response demo_up" using demo_ok by (simp add: good_response_def)
  moreover have "good_response demo_applied"
    by (simp add: good_response_def demo_applied_def demo_defs response_wf_def schr_wf_def tabr_wf_def gall_def gwf_def response_named_def
      schr_named_def tabr_named_def gkeys_named_def)
  ultimately show "answers_ok demo_live"
    by (simp add: answers_ok_def demo_live_def served_def demo_server_def demo_env_def gkeys_named_def)
  show "stores demo_live demo_pending []" by (simp add: demo_live_def serves_stores serves_served)
qed

theorem Reconcile_writes_schema_witness:
  "\<exists>e r. e \<in> set (w_trace (snd (Reconcile demo_live True ''ns'' demo_ready))) \<and> written e = Some r \<and> asks_for demo_cr r"
proof -
  obtain e r where e: "e \<in> set (w_trace (snd (Reconcile demo_live True ''ns'' demo_ready)))" "written e = Some r"
    using demo_live_write by blast
  have "w_trace (snd (Reconcile demo_live True ''ns'' demo_ready)) =
      w_trace demo_ready @ w_trace (snd (Reconcile demo_live True ''ns'' demo_ready))"
    and g: "e_get demo_live (w_trace demo_ready) = Inr demo_pending" "stores demo_live demo_pending (w_trace demo_ready)"
    using demo_live_hyps(1) by (simp_all add: demo_ready_def demo_world_def demo_live_def served_def)
  from Reconcile_writes_schema [OF g demo_live_hyps(2) demo_pending_facts(7) demo_ok(1,2) this(1) e] e show ?thesis by blast
qed

end
