(* ===== verification/Cluster.thy ===== *)
theory Cluster
  imports Reconcile_Safety
begin

text \<open>
  The operator and a Kubernetes server that stores the resource. Between two reconciliations users
  edit the resource; its status belongs to the operator. The server accepts every write. The states of the
  whole system are those reachable by edits and reconciliations, and the properties here are
  invariants of these states.
\<close>

subsection \<open>Connections of a resource\<close>

text \<open>The connections that Fivetran has created in the course of a history, given its answers \<open>F\<close>.\<close>

type_synonym fivetran = "event list \<Rightarrow> sdk_call \<Rightarrow> ConnectionResponse \<times> goerr option"

definition creates :: "fivetran \<Rightarrow> event list \<Rightarrow> event \<Rightarrow> bool" where
  "creates F h e = (case e of Sdk c \<Rightarrow> (case c of ConnectionCreate _ \<Rightarrow> snd (F h c) = None | _ \<Rightarrow> False) | _ \<Rightarrow> False)"

fun created_rev :: "fivetran \<Rightarrow> event list \<Rightarrow> nat" where
  "created_rev F [] = 0"
| "created_rev F (e # h) = (if creates F (rev h) e then 1 else 0) + created_rev F h"

definition created :: "fivetran \<Rightarrow> event list \<Rightarrow> nat" where
  "created F h = created_rev F (rev h)"

lemma created_Nil [simp]: "created F [] = 0"
  by (simp add: created_def)

lemma created_snoc: "created F (h @ [e]) = (if creates F h e then 1 else 0) + created F h"
  by (simp add: created_def)

definition creation_free :: "event \<Rightarrow> bool" where
  "creation_free e \<longleftrightarrow> (\<forall>r. e \<noteq> Sdk (ConnectionCreate r))"

lemma created_free: "list_all creation_free es \<Longrightarrow> created F (h @ es) = created F h"
proof (induction es rule: rev_induct)
  case (snoc e es)
  then have "\<not> creates F (h @ es) e" by (auto simp: creation_free_def creates_def split: event.split_asm sdk_call.split_asm)
  then show ?case using snoc by (simp add: created_snoc flip: append_assoc)
qed simp

definition one_connection :: "fivetran \<Rightarrow> world \<Rightarrow> bool" where
  "one_connection F w \<longleftrightarrow> created F (w_trace w) \<le> (if st_ConnectorID (fc_Status (w_obj w)) = [] then 0 else 1)"

text \<open>A connection that was created has an identifier.\<close>

definition real_ids :: "fivetran \<Rightarrow> bool" where
  "real_ids F \<longleftrightarrow> (\<forall>h r resp. F h (ConnectionCreate r) = (resp, None) \<longrightarrow> conr_ID resp \<noteq> [])"

definition tracks :: "env \<Rightarrow> FivetranConnector \<Rightarrow> event list \<Rightarrow> world \<Rightarrow> world \<Rightarrow> bool" where
  "tracks E x h w w' \<longleftrightarrow> (serves E x h \<longrightarrow> real_ids (e_connection E) \<longrightarrow> in_sync x h w \<longrightarrow> one_connection (e_connection E) w \<longrightarrow>
     in_sync x h w' \<and> one_connection (e_connection E) w'
   \<and> (st_ConnectorID (fc_Status (w_obj w)) \<noteq> [] \<longrightarrow> st_ConnectorID (fc_Status (w_obj w')) = st_ConnectorID (fc_Status (w_obj w)))
   \<and> (distinct (map cond_Type (conditions (w_obj w))) \<longrightarrow> distinct (map cond_Type (conditions (w_obj w')))))"

interpretation track: action_frame "tracks E x h" for E x h
  by unfold_locales (auto simp: tracks_def)

text \<open>Steps that neither write to Kubernetes nor create a connection.\<close>

lemma track_quiet:
  assumes "\<And>w. w_obj (snd (a w)) = w_obj w" and "emit.keeps (\<lambda>e. quiet e \<and> creation_free e) a"
  shows "track.keeps E x h a"
  unfolding track.keeps_def
proof
  fix w
  obtain es where es: "w_trace (snd (a w)) = w_trace w @ es" and q: "list_all (\<lambda>e. quiet e \<and> creation_free e) es"
    using assms(2) by (auto simp: emit.keeps_def grows_def)
  have "list_all quiet es" "list_all creation_free es" using q by (simp_all add: list_all_iff)
  then show "tracks E x h w (snd (a w))" using assms(1) es created_free [of es] stored_quiet [of es]
    by (auto simp: tracks_def one_connection_def intro: in_sync_step)
qed

lemma track_meta: "meta_only f \<Longrightarrow> track.keeps E x h (send_meta E f)"
  using send_meta_run [of E x h _ f] meta_onlyD [of f] created_free [of "[KubeUpdate y]" for y]
  by (auto simp: track.keeps_def tracks_def one_connection_def conditions_def creation_free_def)

lemma track_status: "track.keeps E x h (send_status E (with_condition cd))"
  using send_status_run [of E x h _ "with_condition cd", OF _ _ with_condition_def] created_free [of "[KubeStatusUpdate y]" for y]
  by (auto simp: track.keeps_def tracks_def one_connection_def creation_free_def put_condition_types)

lemma track_connection: "tame_call c \<Longrightarrow> track.keeps E x h (connection_call E c)"
  by (rule track_quiet [OF _ emit_connection_call])
    (auto simp: connection_call_def log_event_def quiet_def creation_free_def tame_call_def split: prod.split)

lemma track_schema_call:
  assumes "\<And>r. c \<noteq> ConnectionCreate r"
  shows "track.keeps E x h (schema_call E c)"
  by (rule track_quiet [OF _ emit_schema_call])
    (use assms in \<open>auto simp: schema_call_def log_event_def quiet_def creation_free_def split: prod.split\<close>)

lemma bind_assoc: "bind (bind a f) g = bind a (\<lambda>x. bind (f x) g)"
  by (auto simp: bind_def fun_eq_iff split: prod.split res.split)

lemma setConnectorID_send:
  "setConnectorID E i = bind (send_status E (\<lambda>c. c\<lparr>fc_Status := (fc_Status c)\<lparr>st_ConnectorID := i,
      st_ConnectorURL := fivetranConnectorURL i\<rparr>\<rparr>))
    (\<lambda>_. send_meta E (\<lambda>c. c\<lparr>fc_Meta := SetAnnotation (fc_Meta c) annotationConnectorID i\<rparr>))"
  by (simp add: setConnectorID_def send_status_def send_meta_def bind_assoc)

lemma setConnectorID_run:
  assumes "serves E x h" and "in_sync x h w"
  shows "\<exists>w'. setConnectorID E i w = (Ok (), w') \<and> in_sync x h w' \<and> st_ConnectorID (fc_Status (w_obj w')) = i
    \<and> created F (w_trace w') = created F (w_trace w) \<and> conditions (w_obj w') = conditions (w_obj w)
    \<and> GetAnnotation (fc_Meta (w_obj w')) annotationConnectorID = i \<and> fc_Spec (w_obj w') = fc_Spec (w_obj w)"
proof -
  let ?f = "\<lambda>c. c\<lparr>fc_Status := (fc_Status c)\<lparr>st_ConnectorID := i, st_ConnectorURL := fivetranConnectorURL i\<rparr>\<rparr>"
  let ?g = "\<lambda>c. c\<lparr>fc_Meta := SetAnnotation (fc_Meta c) annotationConnectorID i\<rparr>"
  let ?w1 = "sent (KubeStatusUpdate (?f (w_obj w))) (?f (w_obj w)) w"
  have s1: "send_status E ?f w = (Ok (), ?w1)" and i1: "in_sync x h ?w1"
    using send_status_run [OF assms, of ?f, OF refl] by auto
  have s2: "send_meta E ?g ?w1 = (Ok (), sent (KubeUpdate (?g (w_obj ?w1))) (?g (w_obj ?w1)) ?w1)"
    and i2: "in_sync x h (sent (KubeUpdate (?g (w_obj ?w1))) (?g (w_obj ?w1)) ?w1)"
    using send_meta_run [OF assms(1) i1 meta_onlyI, of "\<lambda>m. SetAnnotation m annotationConnectorID i"] by auto
  have "created F (w_trace w @ [KubeStatusUpdate a, KubeUpdate b]) = created F (w_trace w)" for a b
    by (rule created_free) (simp add: creation_free_def)
  then show ?thesis using s1 s2 i2
    by (auto simp: setConnectorID_send bind_def conditions_def annotation.get_put)
qed

lemma createConnector_run:
  "(\<exists>q resp. e_connection E (w_trace w) (ConnectionCreate q) = (resp, None)
      \<and> createConnector E rc ra w = (Ok (conr_ID resp), log_event (Sdk (ConnectionCreate q)) w))
   \<or> (\<exists>e. createConnector E rc ra w = (Err e, w))
   \<or> (\<exists>e q. snd (e_connection E (w_trace w) (ConnectionCreate q)) \<noteq> None
      \<and> createConnector E rc ra w = (Err e, log_event (Sdk (ConnectionCreate q)) w))"
proof (cases "toFivetranConnector E (w_obj w) rc ra")
  case (Inr fc)
  let ?q = "CreateConnection_request (fc\<lparr>f_Paused := Some True\<rparr>)"
  obtain resp err where a: "e_connection E (w_trace w) (ConnectionCreate ?q) = (resp, err)" by force
  show ?thesis
  proof (cases err)
    case None
    then show ?thesis using Inr a WrapFivetranError_None [of "JsonValue (conr_Common resp)" None]
      by (auto simp: createConnector_def bind_def get_obj_def CreateConnection_def connection_call_def check_def ret_def)
  next
    case (Some e)
    then obtain e' where "WrapFivetranError (JsonValue (conr_Common resp)) err = Some e'"
      using WrapFivetranError_None by (metis not_None_eq)
    then have "createConnector E rc ra w = (Err e', log_event (Sdk (ConnectionCreate ?q)) w)"
      using Inr a by (simp add: createConnector_def bind_def get_obj_def CreateConnection_def connection_call_def check_def raise_def)
    then show ?thesis using a Some by (metis option.discI snd_conv)
  qed
qed (simp add: createConnector_def bind_def get_obj_def raise_def)

text \<open>The creation of a connection and the record of its identifier, from a status without one.\<close>

lemma track_create:
  assumes "st_ConnectorID (fc_Status (w_obj w)) = []"
  shows "tracks E x h w (snd (bind (createConnector E rc ra) (\<lambda>i. bind (setConnectorID E i) (\<lambda>_. ret i)) w))"
proof -
  have "in_sync x h w' \<and> one_connection (e_connection E) w'
     \<and> (distinct (map cond_Type (conditions (w_obj w))) \<longrightarrow> distinct (map cond_Type (conditions (w_obj w'))))"
    if hyps: "serves E x h" "real_ids (e_connection E)" "in_sync x h w" "one_connection (e_connection E) w"
      and w': "w' = snd (bind (createConnector E rc ra) (\<lambda>i. bind (setConnectorID E i) (\<lambda>_. ret i)) w)" for w'
  proof -
    let ?F = "e_connection E"
    have c0: "created ?F (w_trace w) = 0" using hyps(4) assms by (simp add: one_connection_def)
    have sync: "in_sync x h (log_event (Sdk c) w)" for c
      by (rule in_sync_step [OF hyps(3), of _ "[Sdk c]"]) (simp_all add: log_event_def stored_def)
    from createConnector_run [of E w rc ra] show ?thesis
    proof (elim disjE exE conjE)
      fix q resp
      let ?w1 = "log_event (Sdk (ConnectionCreate q)) w"
      assume a: "?F (w_trace w) (ConnectionCreate q) = (resp, None)" and r: "createConnector E rc ra w = (Ok (conr_ID resp), ?w1)"
      have id: "conr_ID resp \<noteq> []" using hyps(2) a by (auto simp: real_ids_def)
      have c1: "created ?F (w_trace ?w1) = 1" using a c0 by (simp add: log_event_def created_snoc creates_def)
      obtain w2 where s: "setConnectorID E (conr_ID resp) ?w1 = (Ok (), w2)" "in_sync x h w2"
        "st_ConnectorID (fc_Status (w_obj w2)) = conr_ID resp" "created ?F (w_trace w2) = created ?F (w_trace ?w1)"
        "conditions (w_obj w2) = conditions (w_obj ?w1)"
        using setConnectorID_run [OF hyps(1) sync] by blast
      have "w' = w2" using w' r s(1) by (simp add: bind_def ret_def)
      moreover have "w_obj ?w1 = w_obj w" by (simp add: log_event_def)
      ultimately show ?thesis using s c1 id by (simp add: one_connection_def)
    next
      fix e assume "createConnector E rc ra w = (Err e, w)"
      then show ?thesis using w' hyps(3,4) by (simp add: bind_def)
    next
      fix e q
      assume a: "snd (?F (w_trace w) (ConnectionCreate q)) \<noteq> None"
        and "createConnector E rc ra w = (Err e, log_event (Sdk (ConnectionCreate q)) w)"
      then have "w' = log_event (Sdk (ConnectionCreate q)) w" using w' by (simp add: bind_def)
      then show ?thesis using a c0 sync [of "ConnectionCreate q"] by (auto simp: one_connection_def log_event_def created_snoc creates_def)
    qed
  qed
  then show ?thesis using assms by (simp add: tracks_def)
qed

text \<open>The record of an identifier where there was none.\<close>

lemma track_setID:
  assumes "st_ConnectorID (fc_Status (w_obj w)) = []" and "i \<noteq> []"
  shows "tracks E x h w (snd (setConnectorID E i w))"
  using assms setConnectorID_run [of E x h w i "e_connection E"] by (auto simp: tracks_def one_connection_def)

lemma track_updateConnector: "track.keeps E x h (updateConnector E i rc ra)"
  unfolding updateConnector_def UpdateConnection_def by (intro track.keeps_rules track_connection) simp

lemma track_adopt:
  assumes "st_ConnectorID (fc_Status (w_obj w)) = []" and "i \<noteq> []"
  shows "tracks E x h w (snd (adopt E i w))"
proof -
  have v: "tracks E x h w1 (snd (bind (validateExisting E c ex) (\<lambda>_. setConnectorID E i) w1))" if "w_obj w1 = w_obj w" for w1 c ex
  proof (rule track.step_bind)
    show "tracks E x h w1 (snd (validateExisting E c ex w1))" by (simp add: validateExisting_world track.R_refl)
    fix u w2 assume "validateExisting E c ex w1 = (Ok u, w2)"
    then have "w2 = w1" using validateExisting_world by (metis snd_conv)
    then show "tracks E x h w2 (snd (setConnectorID E i w2))" using track_setID assms that by simp
  qed
  have g: "tracks E x h w (snd (GetConnection E i w))" "w_obj (snd (GetConnection E i w)) = w_obj w"
    unfolding GetConnection_def using track.step_keeps [OF track_connection]
    by (auto simp: connection_call_def log_event_def split: prod.split)
  have "tracks E x h w (snd (bind (GetConnection E i) (\<lambda>(ex, err). check err f (bind (validateExisting E c ex) (\<lambda>_. setConnectorID E i))) w))" for c f
  proof (rule track.step_bind, rule g(1))
    fix r w1 assume "GetConnection E i w = (Ok r, w1)"
    then have "w_obj w1 = w_obj w" using g(2) by simp
    then show "tracks E x h w1 (snd ((case r of (ex, err) \<Rightarrow> check err f (bind (validateExisting E c ex) (\<lambda>_. setConnectorID E i))) w1))"
      using v track.step_keeps [OF track.keeps_raise] by (auto simp: check_def split: prod.split option.split)
  qed
  then have "tracks E x h w (snd (handleConnectorFromAnnotation E i w))"
    by (simp add: handleConnectorFromAnnotation_def bind_def get_obj_def)
  then show ?thesis unfolding adopt_def
    by (intro track.step_attempt) (auto intro: track.step_keeps [OF track.keeps_raise] track.step_keeps [OF track.keeps_ret])
qed

lemma track_identity: "track.keeps E x h (connector_identity E rc ra)"
  unfolding track.keeps_def
proof
  fix w :: world
  let ?i = "st_ConnectorID (fc_Status (w_obj w))" and ?a = "GetAnnotation (fc_Meta (w_obj w)) annotationConnectorID"
  have u: "track.keeps E x h (bind (updateConnector E i rc ra) (\<lambda>_. ret i))" for i
    by (intro track.keeps_rules track_updateConnector)
  consider "?i \<noteq> []" | "?i = []" "?a \<noteq> []" | "?i = []" "?a = []" by blast
  then show "tracks E x h w (snd (connector_identity E rc ra w))"
  proof cases
    case 1
    then show ?thesis using track.step_keeps [OF u [of ?i], of w] by (simp add: connector_identity_def bind_def get_obj_def Let_def)
  next
    case 2
    have "tracks E x h w (snd (bind (adopt E ?a) (\<lambda>_. bind (updateConnector E ?a rc ra) (\<lambda>_. ret ?a)) w))"
      by (rule track.step_bind, rule track_adopt [OF 2], rule track.step_keeps [OF u])
    then show ?thesis using 2 by (simp add: connector_identity_def bind_def get_obj_def Let_def)
  next
    case 3
    then show ?thesis using track_create [OF 3(1), of E x h rc ra] by (simp add: connector_identity_def bind_def get_obj_def Let_def)
  qed
qed

lemma track_hash: "track.keeps E x h (updateSchemaHash E)"
  unfolding updateSchemaHash_def
  by (intro track.keeps_rules track_meta [unfolded send_meta_def] meta_onlyI)

lemma track_requests:
  "track.keeps E x h (UpdateSchema E i b)" "track.keeps E x h (CreateSchema E i b)"
  unfolding UpdateSchema_def CreateSchema_def by (intro track.keeps_rules track_schema_call; simp)+

interpretation track: live_frame "tracks E x h" E "\<lambda>_. True" for E x h
proof unfold_locales
  show "tracks E x h w w'" if "\<not> responses (\<lambda>_. True) E" for w w' using that by (simp add: responses_def)
  show "track.keeps E x h (schema_call E c)" if "read_call c" for c
    using that by (intro track_schema_call) (auto simp: read_call_def)
  show "track.keeps E x h (GetColumnConfig E i s t)" for i s t
    by (rule track_quiet [OF _ emit_GetColumnConfig])
      (auto simp: GetColumnConfig_def log_event_def Let_def quiet_def creation_free_def split: prod.split option.split)
  show "track.keeps E x h (resolve_raw E raw)" for raw
    by (rule track_quiet [OF _ emit_resolve_raw])
      (auto simp: resolve_raw_def Let_def quiet_def creation_free_def split: prod.split option.split)
  show "track.keeps E x h (applySchema E i d)" for i d
    unfolding applySchema_def by (intro track.keeps_rules track_requests track_hash)
  show "track.keeps E x h (createNewSchema E i)" for i
    unfolding createNewSchema_def by (intro track.keeps_rules track_requests track_hash)
  show "track.keeps E x h (send_meta E (\<lambda>c. c\<lparr>fc_Meta := AddFinalizer (fc_Meta c) fivetranFinalizer\<rparr>))"
    and "track.keeps E x h (send_meta E (\<lambda>c. c\<lparr>fc_Meta := RemoveLabel (fc_Meta c) annotationForceReconcile\<rparr>))"
    by (intro track_meta meta_onlyI)+
  show "track.keeps E x h (updateConnectorHash E)"
    unfolding updateConnectorHash_def by (intro track.keeps_rules track_meta [unfolded send_meta_def] meta_onlyI)
qed (simp_all add: track_status track_connection track_identity)

lemma track_ensure_vault: "track.keeps E x h (ensure_vault E ns)"
proof (rule track_quiet)
  show "w_obj (snd (ensure_vault E ns w)) = w_obj w" for w
    using obj_kept_ensure_vault by (simp add: obj_kept.keeps_def)
  show "emit.keeps (\<lambda>e. quiet e \<and> creation_free e) (ensure_vault E ns)"
    by (rule emit_ensure_vault) (auto simp: quiet_def creation_free_def vault_init_event_def split: event.split_asm)
qed

lemma track_handleDeletion: "track.keeps E x h (handleDeletion E)"
proof -
  have d: "track.keeps E x h (DeleteConnection E i)" for i
    unfolding DeleteConnection_def
    by (rule track_quiet [OF _ emit_connection_call]) (auto simp: connection_call_def log_event_def quiet_def creation_free_def split: prod.split)
  show ?thesis unfolding handleDeletion_def
    by (intro track.keeps_rules d track_meta [unfolded send_meta_def] meta_onlyI)
qed

lemma Reconcile_tracks:
  assumes E: "serves E x h" "real_ids (e_connection E)" and w: "w_trace w = h"
    and inv: "created (e_connection E) h \<le> (if st_ConnectorID (fc_Status x) = [] then 0 else 1)"
  shows "in_sync x h (snd (Reconcile E cl ns w)) \<and> one_connection (e_connection E) (snd (Reconcile E cl ns w))
    \<and> (st_ConnectorID (fc_Status x) \<noteq> [] \<longrightarrow>
        st_ConnectorID (fc_Status (w_obj (snd (Reconcile E cl ns w)))) = st_ConnectorID (fc_Status x))
    \<and> (distinct (map cond_Type (conditions x)) \<longrightarrow> distinct (map cond_Type (conditions (w_obj (snd (Reconcile E cl ns w))))))"
proof -
  let ?w = "sent KubeGet x w"
  have "e_get E h = Inr x" using E(1) unfolding serves_def by (metis append_Nil2 stored_Nil)
  then have g: "kube_get E w = (Ok (), ?w)" using w by (simp add: kube_get_def log_event_def sent_def)
  have s: "in_sync x h ?w" unfolding in_sync_def by (intro exI [of _ "[KubeGet]"]) (simp add: w stored_def)
  have c: "created (e_connection E) (h @ [KubeGet]) = created (e_connection E) h"
    by (rule created_free) (simp add: creation_free_def)
  have "track.keeps E x h (attempt (ensure_vault E ns) (\<lambda>r. case r of
          Inl err \<Rightarrow> ret (result 0, Some err)
        | Inr _ \<Rightarrow> bind get_obj (\<lambda>connector.
            if om_DeletionTimestamp (fc_Meta connector) \<noteq> None
            then or_handle E conditionTypeConnectorReady ConnectorReasonDeletionFailed (handleDeletion E) (\<lambda>_. ret (result 0, None))
            else reconcile_live E)))"
    by (intro track.keeps_rules track_ensure_vault track.or_handle_keeps track_handleDeletion track.reconcile_live_keeps)
  then have "tracks E x h ?w (snd (Reconcile E cl ns w))"
    using track.step_keeps [OF track.handleError_keeps]
    by (auto simp: Reconcile_def attempt_def [of "kube_get E"] g track.keeps_def)
  then show ?thesis using E s c inv w by (auto simp: tracks_def one_connection_def)
qed

subsection \<open>The system\<close>

text \<open>
  The state of the system: the resource on the server, the vault client of the process and all
  calls made so far. A step is an edit of the resource by its users, a restart of the operator, or
  a whole reconciliation in an environment that serves the stored resource and answers requests
  for connections as \<open>F\<close> does; everything else about the environment may change from run to run.
\<close>

record system =
  sys_obj :: FivetranConnector
  sys_vault :: "VaultClient option"
  sys_history :: "event list"

inductive step :: "fivetran \<Rightarrow> system \<Rightarrow> system \<Rightarrow> bool" for F where
  edit: "fc_Status obj = fc_Status (sys_obj s) \<Longrightarrow> step F s (s\<lparr>sys_obj := obj\<rparr>)"
| restart: "step F s (s\<lparr>sys_vault := None\<rparr>)"
| reconcile: "serves E (sys_obj s) (sys_history s) \<Longrightarrow> e_connection E = F \<Longrightarrow>
    w_trace w = sys_history s \<Longrightarrow> w_vault w = sys_vault s \<Longrightarrow> Reconcile E cl ns w = (r, w') \<Longrightarrow>
    step F s \<lparr>sys_obj = stored (sys_obj s) (drop (length (sys_history s)) (w_trace w')),
              sys_vault = w_vault w', sys_history = w_trace w'\<rparr>"

definition new_resource :: "system \<Rightarrow> bool" where
  "new_resource s \<longleftrightarrow> st_ConnectorID (fc_Status (sys_obj s)) = [] \<and> st_Conditions (fc_Status (sys_obj s)) = None
     \<and> sys_history s = []"

definition reachable :: "fivetran \<Rightarrow> system \<Rightarrow> bool" where
  "reachable F s \<longleftrightarrow> (\<exists>s0. new_resource s0 \<and> (step F)\<^sup>*\<^sup>* s0 s)"

definition system_inv :: "fivetran \<Rightarrow> system \<Rightarrow> bool" where
  "system_inv F s \<longleftrightarrow> created F (sys_history s) \<le> (if st_ConnectorID (fc_Status (sys_obj s)) = [] then 0 else 1)
     \<and> distinct (map cond_Type (conditions (sys_obj s)))"

lemma step_inv:
  assumes "step F s s'" and "real_ids F" and "system_inv F s"
  shows "system_inv F s' \<and> (st_ConnectorID (fc_Status (sys_obj s)) \<noteq> [] \<longrightarrow>
    st_ConnectorID (fc_Status (sys_obj s')) = st_ConnectorID (fc_Status (sys_obj s)))"
  using assms(1)
proof cases
  case (edit obj)
  then show ?thesis using assms(3) by (simp add: system_inv_def conditions_def)
next
  case restart
  then show ?thesis using assms(3) by (simp add: system_inv_def)
next
  case (reconcile E w cl ns r w')
  have t: "in_sync (sys_obj s) (sys_history s) w'" "one_connection F w'"
    "st_ConnectorID (fc_Status (sys_obj s)) \<noteq> [] \<longrightarrow> st_ConnectorID (fc_Status (w_obj w')) = st_ConnectorID (fc_Status (sys_obj s))"
    "distinct (map cond_Type (conditions (sys_obj s))) \<longrightarrow> distinct (map cond_Type (conditions (w_obj w')))"
    using Reconcile_tracks [of E "sys_obj s" "sys_history s" w cl ns] reconcile assms(2,3) by (auto simp: system_inv_def)
  then have "sys_obj s' = w_obj w'" using reconcile(1) by (auto simp: in_sync_def)
  then show ?thesis using t assms(3) reconcile(1) by (simp add: system_inv_def one_connection_def)
qed

lemma steps_inv:
  assumes "(step F)\<^sup>*\<^sup>* s s'" and "real_ids F" and "system_inv F s"
  shows "system_inv F s' \<and> (st_ConnectorID (fc_Status (sys_obj s)) \<noteq> [] \<longrightarrow>
    st_ConnectorID (fc_Status (sys_obj s')) = st_ConnectorID (fc_Status (sys_obj s)))"
  using assms
proof (induction rule: rtranclp_induct)
  case (step y z)
  then show ?case using step_inv [of F y z] by auto
qed simp

lemma reachable_inv: "reachable F s \<Longrightarrow> real_ids F \<Longrightarrow> system_inv F s"
  using steps_inv by (fastforce simp: reachable_def new_resource_def system_inv_def conditions_def)

text \<open>C5: A resource never gets two connections. In every state that is reachable by edits, restarts
  and reconciliations against a Kubernetes server that accepts and stores everything it is sent, and if
  Fivetran gives every connection it creates an identifier, Fivetran has
  created at most one connection for the resource, and none as long as the status names none; and
  the status has at most one condition of each type.\<close>

theorem at_most_one_connection:
  assumes "reachable F s" and "real_ids F"
  shows "created F (sys_history s) \<le> (if st_ConnectorID (fc_Status (sys_obj s)) = [] then 0 else 1)
    \<and> distinct (map cond_Type (conditions (sys_obj s)))"
  using reachable_inv [OF assms] by (simp add: system_inv_def)

text \<open>C20: The identity of a connection is for life. Once the status of a resource names a connection,
  no edit of metadata or spec (the annotation with the connector ID included), no restart and no
  reconciliation changes the name.\<close>

theorem connection_is_kept:
  assumes "reachable F s" and "real_ids F" and "st_ConnectorID (fc_Status (sys_obj s)) \<noteq> []" and "(step F)\<^sup>*\<^sup>* s s'"
  shows "st_ConnectorID (fc_Status (sys_obj s')) = st_ConnectorID (fc_Status (sys_obj s))"
  using steps_inv [OF assms(4,2) reachable_inv [OF assms(1,2)]] assms(3) by simp

text \<open>A run that creates a connection, records it and then fails to compute the hash.\<close>

definition demo_unhashed :: env where
  "demo_unhashed = served (demo_env\<lparr>e_marshal_connector := \<lambda>_. Inl (Text ''no hash'')\<rparr>) demo_new []"

definition demo_sys :: system where
  "demo_sys = \<lparr>sys_obj = demo_new, sys_vault = w_vault demo_ready, sys_history = []\<rparr>"

definition demo_sys' :: system where
  "demo_sys' = (let w' = snd (Reconcile demo_unhashed True ''ns'' demo_ready)
     in \<lparr>sys_obj = stored demo_new (w_trace w'), sys_vault = w_vault w', sys_history = w_trace w'\<rparr>)"

abbreviation demo_fivetran :: fivetran where
  "demo_fivetran \<equiv> e_connection demo_env"

lemma demo_reachable: "reachable demo_fivetran demo_sys'" "real_ids demo_fivetran"
proof -
  have n: "new_resource demo_sys" by (simp add: new_resource_def demo_sys_def demo_new_def demo_obj_def)
  obtain r w' where r: "Reconcile demo_unhashed True ''ns'' demo_ready = (r, w')" by fastforce
  have "step demo_fivetran demo_sys \<lparr>sys_obj = stored (sys_obj demo_sys) (drop (length (sys_history demo_sys)) (w_trace w')),
      sys_vault = w_vault w', sys_history = w_trace w'\<rparr>"
  proof (rule step.reconcile [OF _ _ _ _ r])
    show "serves demo_unhashed (sys_obj demo_sys) (sys_history demo_sys)" by (simp add: demo_unhashed_def demo_sys_def serves_served)
    show "e_connection demo_unhashed = demo_fivetran" by (simp add: demo_unhashed_def served_def)
  qed (simp_all add: demo_sys_def demo_ready_def demo_world_def)
  then have "step demo_fivetran demo_sys demo_sys'" by (simp add: demo_sys'_def demo_sys_def r)
  then show "reachable demo_fivetran demo_sys'" using n unfolding reachable_def by blast
  show "real_ids demo_fivetran" by (simp add: real_ids_def demo_env_def demo_connection_def)
qed

lemma demo_created: "st_ConnectorID (fc_Status (sys_obj demo_sys')) = ''conn1''"
proof -
  have p: "ParseInt64 ''3600'' = Some 3600" by (simp add: ParseInt64_def digits_value_def isDigit_def)
  show ?thesis
    by (simp add: demo_sys'_def run_defs demo_world_defs p demo_unhashed_def served_def stored_def store_step_def updateConnectorHash_def
        calculateConnectorHash_def)
qed

theorem at_most_one_connection_witness:
  "created demo_fivetran (sys_history demo_sys') \<le> 1 \<and> distinct (map cond_Type (conditions (sys_obj demo_sys')))"
  using at_most_one_connection [OF demo_reachable] demo_created by simp

theorem connection_is_kept_witness:
  "st_ConnectorID (fc_Status (sys_obj (demo_sys'\<lparr>sys_obj := (sys_obj demo_sys')\<lparr>fc_Spec := fc_Spec demo_obj\<rparr>\<rparr>))) = ''conn1''"
proof -
  have s: "(step demo_fivetran)\<^sup>*\<^sup>* demo_sys' (demo_sys'\<lparr>sys_obj := (sys_obj demo_sys')\<lparr>fc_Spec := fc_Spec demo_obj\<rparr>\<rparr>)"
    by (rule r_into_rtranclp, rule step.edit) simp
  have "st_ConnectorID (fc_Status (sys_obj demo_sys')) \<noteq> []" by (simp add: demo_created)
  from connection_is_kept [OF demo_reachable this s] show ?thesis by (simp only: demo_created)
qed

end
