(* ===== verification/Convergence.thy ===== *)
theory Convergence
  imports Cluster Reconcile_Needs
begin

text \<open>
  Reconciliation converges: after a run that succeeds, the resource is settled, so that the next
  run finds nothing to do. The frame \<open>settle\<close> says what no step of the operator undoes: the
  finalizer, the removal of the force label, the identifier of the connection, and hashes that
  agree with the spec.
\<close>

subsection \<open>What the operator never undoes\<close>

definition hash_ok :: "env \<Rightarrow> FivetranConnector \<Rightarrow> bool" where
  "hash_ok E c \<longleftrightarrow> calculateConnectorHash E c = Inr (GetAnnotation (fc_Meta c) annotationConnectorHash)"

definition schema_hash_ok :: "env \<Rightarrow> FivetranConnector \<Rightarrow> bool" where
  "schema_hash_ok E c \<longleftrightarrow> calculateSchemaHash E c = Inr (GetAnnotation (fc_Meta c) annotationSchemaHash)"

definition later :: "env \<Rightarrow> FivetranConnector \<Rightarrow> FivetranConnector \<Rightarrow> bool" where
  "later E c c' \<longleftrightarrow> fc_Spec c' = fc_Spec c
     \<and> om_DeletionTimestamp (fc_Meta c') = om_DeletionTimestamp (fc_Meta c)
     \<and> (ContainsFinalizer (fc_Meta c) fivetranFinalizer \<longrightarrow> ContainsFinalizer (fc_Meta c') fivetranFinalizer)
     \<and> (\<not> HasLabel (fc_Meta c) annotationForceReconcile \<longrightarrow> \<not> HasLabel (fc_Meta c') annotationForceReconcile)
     \<and> (st_ConnectorID (fc_Status c) \<noteq> [] \<longrightarrow> st_ConnectorID (fc_Status c') \<noteq> [])
     \<and> (hash_ok E c \<longrightarrow> hash_ok E c') \<and> (schema_hash_ok E c \<longrightarrow> schema_hash_ok E c')"

lemma later_refl: "later E c c"
  by (simp add: later_def)

lemma annotation_keys:
  "annotationConnectorHash \<noteq> annotationSchemaHash" "annotationConnectorID \<noteq> annotationConnectorHash"
  "annotationConnectorID \<noteq> annotationSchemaHash"
  by (simp_all add: annotationConnectorHash_def annotationSchemaHash_def annotationConnectorID_def)

lemma SetAnnotation_rest [simp]:
  "om_DeletionTimestamp (SetAnnotation m k v) = om_DeletionTimestamp m" "om_Finalizers (SetAnnotation m k v) = om_Finalizers m"
  "om_Labels (SetAnnotation m k v) = om_Labels m"
  by (simp_all add: SetAnnotation_def Let_def)

lemmas hash_defs = calculateConnectorHash_def calculateSchemaHash_def

lemma later_annotation:
  assumes "(k \<noteq> annotationConnectorHash \<or> calculateConnectorHash E c = Inr v)" "(k \<noteq> annotationSchemaHash \<or> calculateSchemaHash E c = Inr v)"
  shows "later E c (c\<lparr>fc_Meta := SetAnnotation (fc_Meta c) k v\<rparr>)"
  using assms
  by (auto simp: later_def hash_ok_def schema_hash_ok_def hash_defs annotation.get_put ContainsFinalizer_def HasLabel_def)

lemma later_status:
  "fc_Meta c' = fc_Meta c \<Longrightarrow> fc_Spec c' = fc_Spec c \<Longrightarrow>
     (st_ConnectorID (fc_Status c) \<noteq> [] \<longrightarrow> st_ConnectorID (fc_Status c') \<noteq> []) \<Longrightarrow> later E c c'"
  by (simp add: later_def hash_ok_def schema_hash_ok_def hash_defs)

lemma later_finalizer: "later E c (c\<lparr>fc_Meta := AddFinalizer (fc_Meta c) f\<rparr>)"
  by (auto simp: later_def hash_ok_def schema_hash_ok_def hash_defs ContainsFinalizer_def AddFinalizer_def HasLabel_def GetAnnotation_def)

lemma later_label: "later E c (c\<lparr>fc_Meta := RemoveLabel (fc_Meta c) l\<rparr>)"
  by (auto simp: later_def hash_ok_def schema_hash_ok_def hash_defs ContainsFinalizer_def GetAnnotation_def
      RemoveLabel_def HasLabel_def Let_def gomap split: option.split)

subsection \<open>The frame\<close>

definition started :: "FivetranConnector \<Rightarrow> event list \<Rightarrow> world \<Rightarrow> bool" where
  "started x h w \<longleftrightarrow> in_sync x h w \<and> length h < length (w_trace w)"

definition settles :: "env \<Rightarrow> FivetranConnector \<Rightarrow> event list \<Rightarrow> world \<Rightarrow> world \<Rightarrow> bool" where
  "settles E x h w w' \<longleftrightarrow> (serves E x h \<longrightarrow> real_ids (e_connection E) \<longrightarrow> started x h w \<longrightarrow>
     started x h w' \<and> later E (w_obj w) (w_obj w'))"

interpretation settle: action_frame "settles E x h" for E x h
proof unfold_locales
  show "settles E x h w w" for w by (simp add: settles_def later_refl)
  show "settles E x h w w''" if "settles E x h w w'" "settles E x h w' w''" for w w' w''
    using that by (auto simp: settles_def later_def)
qed

lemma settle_quiet:
  assumes "\<And>w. w_obj (snd (a w)) = w_obj w" and "emit.keeps quiet a"
  shows "settle.keeps E x h a"
  unfolding settle.keeps_def
proof
  fix w :: world
  obtain es where es: "w_trace (snd (a w)) = w_trace w @ es" "list_all quiet es"
    using assms(2) by (auto simp: emit.keeps_def grows_def)
  then show "settles E x h w (snd (a w))" using assms(1) stored_quiet [of es]
    by (auto simp: settles_def started_def later_refl intro: in_sync_step)
qed

lemma settle_meta:
  assumes "meta_only f" and "\<And>c. later E c (f c)"
  shows "settle.keeps E x h (send_meta E f)"
  using send_meta_run [of E x h _ f] assms by (auto simp: settle.keeps_def settles_def started_def)

lemma settle_status:
  assumes "\<And>c. \<exists>st. f c = c\<lparr>fc_Status := st\<rparr> \<and> (st_ConnectorID (fc_Status c) \<noteq> [] \<longrightarrow> st_ConnectorID st \<noteq> [])"
  shows "settle.keeps E x h (send_status E f)"
  unfolding settle.keeps_def
proof
  fix w :: world
  obtain st where "f (w_obj w) = (w_obj w)\<lparr>fc_Status := st\<rparr>" "st_ConnectorID (fc_Status (w_obj w)) \<noteq> [] \<longrightarrow> st_ConnectorID st \<noteq> []"
    using assms by blast
  then show "settles E x h w (snd (send_status E f w))"
    using send_status_run [of E x h w f st] by (auto simp: settles_def started_def intro: later_status)
qed

lemma settle_connection: "settle.keeps E x h (connection_call E c)"
  by (rule settle_quiet [OF _ emit_connection_call]) (auto simp: connection_call_def log_event_def quiet_def split: prod.split)

lemma settle_schema_call: "settle.keeps E x h (schema_call E c)"
  by (rule settle_quiet [OF _ emit_schema_call]) (auto simp: schema_call_def log_event_def quiet_def split: prod.split)

lemma settle_setConnectorID:
  assumes "i \<noteq> []"
  shows "settle.keeps E x h (setConnectorID E i)"
  unfolding setConnectorID_send
  by (intro settle.keeps_bind settle_status settle_meta meta_onlyI later_annotation) (auto simp: assms annotation_keys)

lemma settle_assume: "(real_ids (e_connection E) \<Longrightarrow> settle.keeps E x h a) \<Longrightarrow> settle.keeps E x h a"
  by (auto simp: settle.keeps_def settles_def)

lemma settle_updateConnector: "settle.keeps E x h (updateConnector E i rc ra)"
  unfolding updateConnector_def UpdateConnection_def by (intro settle.keeps_rules settle_connection)

lemma settle_validateExisting: "settle.keeps E x h (validateExisting E c ex)"
  by (simp add: settle.keeps_def validateExisting_world settle.R_refl)

lemma settle_adopt: "i \<noteq> [] \<Longrightarrow> settle.keeps E x h (adopt E i)"
  unfolding adopt_def handleConnectorFromAnnotation_def GetConnection_def
  by (intro settle.keeps_rules settle_connection settle_validateExisting settle_setConnectorID)

lemma createConnector_id:
  assumes "real_ids (e_connection E)" and "createConnector E rc ra w = (Ok i, w')"
  shows "i \<noteq> []"
  using createConnector_run [of E w rc ra] assms by (auto simp: real_ids_def)

lemma settle_create: "settle.keeps E x h (createConnector E rc ra)"
  unfolding createConnector_def CreateConnection_def by (intro settle.keeps_rules settle_connection)

lemma settle_identity: "settle.keeps E x h (connector_identity E rc ra)"
proof (rule settle_assume)
  assume ids: "real_ids (e_connection E)"
  from settle_create have c: "settle.keeps E x h (bind (createConnector E rc ra) (\<lambda>i. bind (setConnectorID E i) (\<lambda>_. ret i)))"
    by (rule settle.keeps_bind_Ok) (auto intro!: settle.keeps_rules settle_setConnectorID dest: createConnector_id [OF ids])
  show "settle.keeps E x h (connector_identity E rc ra)" unfolding connector_identity_def
    by (intro settle.keeps_bind [OF settle.keeps_get] settle.keeps_let settle.keeps_if c settle.keeps_bind [OF settle_updateConnector]
        settle.keeps_bind [OF settle_adopt] settle.keeps_ret)
qed

text \<open>The two hashes: recorded as they are computed, and correct afterwards.\<close>

lemma settle_hash:
  "settle.keeps E x h (updateConnectorHash E)" "settle.keeps E x h (updateSchemaHash E)"
proof -
  have s: "settles E x h w (snd (bind (modify_obj (\<lambda>c. c\<lparr>fc_Meta := SetAnnotation (fc_Meta c) k v\<rparr>)) (\<lambda>_. kube_update E) w))"
    if "k \<noteq> annotationConnectorHash \<or> calculateConnectorHash E (w_obj w) = Inr v"
      "k \<noteq> annotationSchemaHash \<or> calculateSchemaHash E (w_obj w) = Inr v" for w k v
    using send_meta_run [of E x h w, OF _ _ meta_onlyI, of "\<lambda>m. SetAnnotation m k v"] later_annotation [OF that]
    by (auto simp: settles_def started_def send_meta_def)
  show "settle.keeps E x h (updateConnectorHash E)" using s annotation_keys(1)
    by (simp add: settle.keeps_def updateConnectorHash_def bind_def [of get_obj] get_obj_def raise_def settle.R_refl split: sum.split)
  show "settle.keeps E x h (updateSchemaHash E)" using s annotation_keys(1) [symmetric]
    by (simp add: settle.keeps_def updateSchemaHash_def bind_def [of get_obj] get_obj_def raise_def settle.R_refl split: sum.split)
qed

lemma settle_requests:
  "settle.keeps E x h (UpdateSchema E i b)" "settle.keeps E x h (CreateSchema E i b)"
  unfolding UpdateSchema_def CreateSchema_def by (intro settle.keeps_rules settle_schema_call)+

interpretation settle: live_frame "settles E x h" E "\<lambda>_. True" for E x h
proof unfold_locales
  show "settles E x h w w'" if "\<not> responses (\<lambda>_. True) E" for w w' using that by (simp add: responses_def)
  show "settle.keeps E x h (GetColumnConfig E i s t)" for i s t
    by (rule settle_quiet [OF _ emit_GetColumnConfig])
      (auto simp: GetColumnConfig_def log_event_def Let_def quiet_def split: prod.split option.split)
  show "settle.keeps E x h (resolve_raw E raw)" for raw
    by (rule settle_quiet [OF _ emit_resolve_raw]) (auto simp: resolve_raw_def Let_def quiet_def split: prod.split option.split)
  show "settle.keeps E x h (applySchema E i d)" for i d
    unfolding applySchema_def by (intro settle.keeps_rules settle_requests settle_hash)
  show "settle.keeps E x h (createNewSchema E i)" for i
    unfolding createNewSchema_def by (intro settle.keeps_rules settle_requests settle_hash)
  show "settle.keeps E x h (send_status E (with_condition cd))" for cd
    by (rule settle_status) (auto simp: with_condition_def)
  show "settle.keeps E x h (send_meta E (\<lambda>c. c\<lparr>fc_Meta := AddFinalizer (fc_Meta c) fivetranFinalizer\<rparr>))"
    and "settle.keeps E x h (send_meta E (\<lambda>c. c\<lparr>fc_Meta := RemoveLabel (fc_Meta c) annotationForceReconcile\<rparr>))"
    by (intro settle_meta meta_onlyI later_finalizer later_label)+
qed (simp_all add: settle_connection settle_schema_call settle_identity settle_hash)

subsection \<open>What success establishes\<close>

definition ready :: "env \<Rightarrow> FivetranConnector \<Rightarrow> event list \<Rightarrow> world \<Rightarrow> bool" where
  "ready E x h w \<longleftrightarrow> serves E x h \<and> real_ids (e_connection E) \<and> started x h w"

lemma ready_step:
  assumes "settle.keeps E x h a" and "ready E x h w" and "a w = (r, w')"
  shows "ready E x h w'" and "later E (w_obj w) (w_obj w')"
  using settle.keepsD [OF assms(1,3)] assms(2) by (auto simp: ready_def settles_def)

lemma hash_set:
  assumes "ready E x h w" and "updateConnectorHash E w = (Ok u, w')"
  shows "hash_ok E (w_obj w')"
  using assms send_meta_run [of E x h w, OF _ _ meta_onlyI, of "\<lambda>m. SetAnnotation m annotationConnectorHash v" for v]
  by (auto simp: updateConnectorHash_def bind_def [of get_obj] get_obj_def raise_def ready_def started_def hash_ok_def send_meta_def
      annotation.get_put hash_defs split: sum.split_asm)

lemma schema_hash_set:
  assumes "ready E x h w" and "updateSchemaHash E w = (Ok u, w')"
  shows "schema_hash_ok E (w_obj w')"
  using assms send_meta_run [of E x h w, OF _ _ meta_onlyI, of "\<lambda>m. SetAnnotation m annotationSchemaHash v" for v]
  by (auto simp: updateSchemaHash_def bind_def [of get_obj] get_obj_def raise_def ready_def started_def schema_hash_ok_def send_meta_def
      annotation.get_put calculateSchemaHash_def split: sum.split_asm option.split_asm)

lemma written_set:
  assumes w: "ready E x h w"
  shows "applySchema E i d w = (Ok u, w') \<Longrightarrow> schema_hash_ok E (w_obj w')"
    and "createNewSchema E i w = (Ok u, w') \<Longrightarrow> schema_hash_ok E (w_obj w')"
  using schema_hash_set ready_step(1) [OF settle_requests(1) w] ready_step(1) [OF settle_requests(2) w]
  by (fastforce simp: applySchema_def createNewSchema_def success get_obj_def)+

lemma setID_set:
  assumes "ready E x h w" and "setConnectorID E i w = (Ok u, w')"
  shows "st_ConnectorID (fc_Status (w_obj w')) = i"
  using assms setConnectorID_run [of E x h w i] by (fastforce simp: ready_def started_def)

lemma or_handle_clean:
  assumes run: "or_handle E ct r a k w = (Ok (res, None), w')" and w': "ready E x h w'" "\<not> hasFailedConditions (w_obj w')"
  obtains y w1 where "a w = (Ok y, w1)" and "k y w1 = (Ok (res, None), w')"
proof -
  have "\<not> reports_failure ct r w'"
  proof
    assume "reports_failure ct r w'"
    then obtain obj c where o1: "last (w_trace w') = KubeStatusUpdate obj" "condition_of ct (conditions obj) = Some c" "cond_Status c = ConditionFalse"
      by (auto simp: reports_failure_def)
    obtain es where es: "w_trace w' = h @ es" "w_obj w' = stored x es" "es \<noteq> []"
      using w'(1) by (auto simp: ready_def started_def in_sync_def)
    then obtain fs where "es = fs @ [KubeStatusUpdate obj]" using o1(1) by (metis append_butlast_last_id last_appendR)
    then have "conditions (w_obj w') = conditions obj" using es(2) by (simp add: store_step_def conditions_def)
    then have "hasFailedConditions (w_obj w')" using o1(2,3)
      by (auto simp: conditions_def hasFailedConditions_def condition_of_def find_Some_iff list_ex_iff split: option.split_asm)
    with w'(2) show False by simp
  qed
  then have "handleError E ct r e w1 \<noteq> (Ok (res, None), w')" for e w1
    using handleError_outcome [of E ct r e w1] by auto
  then show ?thesis using run that
    by (auto simp: or_handle_def attempt_def split: prod.split_asm res.split_asm)
qed

definition named :: "world \<Rightarrow> bool" where
  "named w \<longleftrightarrow> st_ConnectorID (fc_Status (w_obj w)) \<noteq> []"

lemma named_step: "settle.keeps E x h a \<Longrightarrow> ready E x h w \<Longrightarrow> a w = (r, w') \<Longrightarrow> named w \<Longrightarrow> named w'"
  using ready_step(2) [of E x h a w r w'] by (simp add: later_def named_def)

lemma adopt_names:
  assumes w: "ready E x h w" and i: "i \<noteq> []" and run: "adopt E i w = (Ok u, w')"
  shows "named w'"
proof -
  from run obtain c ex err w1 w2 where g: "GetConnection E i w = (Ok (ex, err), w1)"
    and v: "validateExisting E c ex w1 = (Ok (), w2)" and s: "setConnectorID E i w2 = (Ok (), w')"
    by (fastforce simp: adopt_def handleConnectorFromAnnotation_def attempt_def success get_obj_def raise_def ret_def
        split: prod.split_asm res.split_asm)
  have "ready E x h w1" using ready_step(1) [OF settle_connection w] g by (simp add: GetConnection_def)
  then have "ready E x h w2" using ready_step(1) [OF settle_validateExisting _ v] by simp
  from setID_set [OF this s] show ?thesis using i by (simp add: named_def)
qed

lemma identity_names:
  assumes w: "ready E x h w" and run: "connector_identity E rc ra w = (Ok i, w')"
  shows "named w'"
proof -
  let ?a = "GetAnnotation (fc_Meta (w_obj w)) annotationConnectorID"
  consider (known) "named w" | (adopt) "\<not> named w" "?a \<noteq> []" | (create) "\<not> named w" "?a = []" by blast
  then show ?thesis
  proof cases
    case known
    then show ?thesis by (rule named_step [OF settle_identity w run])
  next
    case adopt
    then obtain u v w1 where "adopt E ?a w = (Ok u, w1)" "updateConnector E ?a rc ra w1 = (Ok v, w')"
      using run by (auto simp: connector_identity_def success get_obj_def named_def ret_def Let_def)
    then show ?thesis using adopt_names [OF w adopt(2)] ready_step(1) [OF settle_adopt [OF adopt(2)] w]
        named_step [OF settle_updateConnector] by blast
  next
    case create
    then obtain w1 where c: "createConnector E rc ra w = (Ok i, w1)" and s: "setConnectorID E i w1 = (Ok (), w')"
      using run by (auto simp: connector_identity_def success get_obj_def named_def ret_def Let_def)
    have "ready E x h w1" by (rule ready_step(1) [OF settle_create w c])
    from setID_set [OF this s] show ?thesis using createConnector_id [OF _ c] w by (simp add: named_def ready_def)
  qed
qed

lemma reconcileConnector_sets:
  assumes w: "ready E x h w" and run: "reconcileConnector E rc ra w = (Ok i, w')"
  shows "named w' \<and> hash_ok E (w_obj w')"
proof -
  from run obtain w1 w2 where r: "connector_identity E rc ra w = (Ok i, w1)" "updateConnectorHash E w1 = (Ok (), w2)"
    "setCondition E conditionTypeConnectorReady ConditionTrue ConnectorReasonSuccess msgConnectorReady w2 = (Ok (), w')"
    by (auto simp: reconcileConnector_def success ret_def)
  have w1: "ready E x h w1" by (rule ready_step(1) [OF settle_identity w r(1)])
  have w2: "ready E x h w2" by (rule ready_step(1) [OF settle_hash(1) w1 r(2)])
  have "named w2" using named_step [OF settle_hash(1) w1 r(2)] identity_names [OF w r(1)] by simp
  then show ?thesis using ready_step(2) [OF settle.setCondition_keeps w2 r(3)] hash_set [OF w1 r(2)] by (simp add: later_def named_def)
qed

lemma apply_and_verify_sets:
  assumes w: "ready E x h w" and run: "apply_and_verify E i l d w = (Ok u, w')"
  shows "schema_hash_ok E (w_obj w')"
proof -
  let ?rest = "\<lambda>b. bind (if b then second_pass E i else ret ()) (\<lambda>_.
     bind (if l \<noteq> validationLevelNone then verifySchema E i else ret ()) (\<lambda>_. schema_ready E))"
  from run obtain st w1 w2 where f: "first_columns E i d w = (Ok st, w1)" and a: "applySchema E i (fst st) w1 = (Ok (), w2)"
    and r: "?rest (snd st) w2 = (Ok u, w')"
    by (auto simp: apply_and_verify_def bind_Ok [of "first_columns E i d"] bind_Ok [of "wrap_err p q" for p q] wrap_err_Ok)
  have w1: "ready E x h w1" by (rule ready_step(1) [OF settle.first_columns_keeps w f])
  have w2: "ready E x h w2" by (rule ready_step(1) [OF settle.apply_keeps w1 a]) simp
  have "settle.keeps E x h (?rest b)" for b
    unfolding verifySchema_def schema_ready_def GetSchemaDetails_def
    by (intro settle.keeps_rules settle.second_pass_keeps settle.setCondition_keeps settle_schema_call)
  from ready_step(2) [OF this w2 r] written_set(1) [OF w1 a] show ?thesis by (simp add: later_def)
qed

lemma reconcileSchema_sets:
  assumes w: "ready E x h w" and run: "reconcileSchema E i w = (Ok u, w')"
  shows "schema_hash_ok E (w_obj w')"
proof -
  let ?s = "isConnectorSyncing E i"
  from run obtain d err w1 w2 where s: "?s w = (Ok False, w1)" and g: "GetSchemaDetails E i w1 = (Ok (d, err), w2)"
    and r: "reconcile_details E i (w_obj w) d err w2 = (Ok u, w')"
    by (auto simp: reconcileSchema_def success get_obj_def raise_def split: if_split_asm)
  have "settle.keeps E x h ?s" unfolding isConnectorSyncing_def GetConnection_def by (intro settle.keeps_rules settle_connection)
  from ready_step(1) [OF this w s] have w1: "ready E x h w1" .
  have w2: "ready E x h w2" using ready_step(1) [OF settle_schema_call w1] g by (simp add: GetSchemaDetails_def)
  let ?l = "getValidationLevel (w_obj w)"
  consider (reload) d' w3 where "reload_details E i w2 = (Ok d', w3)" "apply_and_verify E i ?l d' w3 = (Ok u, w')"
    | (direct) "apply_and_verify E i ?l d w2 = (Ok u, w')"
    | (create) w3 where "createNewSchema E i w2 = (Ok (), w3)" "schema_ready E w3 = (Ok u, w')"
    using r by (auto simp: reconcile_details_def Let_def success raise_def split: option.split_asm if_split_asm)
  then show ?thesis
  proof cases
    case reload
    from apply_and_verify_sets [OF ready_step(1) [OF settle.reload_details_keeps w2 reload(1)] reload(2)] show ?thesis .
  next
    case direct
    from apply_and_verify_sets [OF w2 direct] show ?thesis .
  next
    case create
    have w3: "ready E x h w3" by (rule ready_step(1) [OF settle.create_keeps w2 create(1)])
    have "settle.keeps E x h (schema_ready E)" unfolding schema_ready_def by (rule settle.setCondition_keeps)
    from ready_step(2) [OF this w3 create(2)] written_set(2) [OF w2 create(1)] show ?thesis by (simp add: later_def)
  qed
qed

subsection \<open>Convergence\<close>

text \<open>The parts of a settled resource that a run has to establish, given that it found no failure.\<close>

definition connector_done :: "env \<Rightarrow> world \<Rightarrow> bool" where
  "connector_done E w \<longleftrightarrow> named w \<and> hash_ok E (w_obj w)"

definition schema_done :: "env \<Rightarrow> world \<Rightarrow> bool" where
  "schema_done E w \<longleftrightarrow> (hasSchemaConfig (w_obj w) \<longrightarrow> schema_hash_ok E (w_obj w))"

lemma done_step:
  assumes "settle.keeps E x h a" "ready E x h w" "a w = (r, w')"
  shows "connector_done E w \<Longrightarrow> connector_done E w'" and "schema_done E w \<Longrightarrow> schema_done E w'"
  using ready_step(2) [OF assms] by (auto simp: connector_done_def schema_done_def named_def later_def hasSchemaConfig_def)

lemma schema_phase_done:
  assumes w: "ready E x h w" and run: "schema_phase E dc ds i rc ra w = (Ok (res, None), w')" and clean: "\<not> hasFailedConditions (w_obj w')"
    and todo: "ds \<or> schema_done E w"
  shows "schema_done E w'"
proof (cases "schema_done E w")
  case True
  then show ?thesis by (rule done_step(2) [OF settle.schema_phase_keeps w run])
next
  case False
  then have "or_handle E conditionTypeSchemaReady SchemaReasonReconciliationFailed (reconcileSchema E i) (\<lambda>_. finish E dc i rc ra) w = (Ok (res, None), w')"
    using run todo by (auto simp: schema_phase_def schema_done_def bind_def get_obj_def)
  from or_handle_clean [OF this ready_step(1) [OF settle.schema_phase_keeps w run] clean]
  obtain u w1 where s: "reconcileSchema E i w = (Ok u, w1)" and f: "finish E dc i rc ra w1 = (Ok (res, None), w')" by blast
  have "schema_done E w1" using reconcileSchema_sets [OF w s] by (simp add: schema_done_def)
  then show ?thesis by (rule done_step(2) [OF settle.finish_keeps ready_step(1) [OF settle.reconcileSchema_keeps w s] f])
qed

lemma connector_phase_done:
  assumes w: "ready E x h w" and run: "connector_phase E dc ds rc ra w = (Ok (res, None), w')" and clean: "\<not> hasFailedConditions (w_obj w')"
    and todo: "dc \<or> connector_done E w" "ds \<or> schema_done E w"
  shows "connector_done E w' \<and> schema_done E w'"
proof (cases dc)
  case True
  note w' = ready_step(1) [OF settle.connector_phase_keeps w run]
  have "or_handle E conditionTypeConnectorReady ConnectorReasonReconciliationFailed (reconcileConnector E rc ra) (\<lambda>i.
      or_handle E conditionTypeSetupTestReady SetupTestsReasonReconciliationFailed (reconcileSetupTests E i) (\<lambda>_.
      schema_phase E dc ds i rc ra)) w = (Ok (res, None), w')"
    using run True by (simp add: connector_phase_def bind_def get_obj_def)
  from or_handle_clean [OF this w' clean] obtain i w1 where c: "reconcileConnector E rc ra w = (Ok i, w1)"
    and r1: "or_handle E conditionTypeSetupTestReady SetupTestsReasonReconciliationFailed (reconcileSetupTests E i) (\<lambda>_.
      schema_phase E dc ds i rc ra) w1 = (Ok (res, None), w')" by blast
  from or_handle_clean [OF r1 w' clean] obtain u w2 where t: "reconcileSetupTests E i w1 = (Ok u, w2)"
    and r2: "schema_phase E dc ds i rc ra w2 = (Ok (res, None), w')" by blast
  have w1: "ready E x h w1" by (rule ready_step(1) [OF settle.reconcileConnector_keeps w c])
  have w2: "ready E x h w2" by (rule ready_step(1) [OF settle.reconcileSetupTests_keeps w1 t])
  have "connector_done E w1" using reconcileConnector_sets [OF w c] by (simp add: connector_done_def)
  then have "connector_done E w2" by (rule done_step(1) [OF settle.reconcileSetupTests_keeps w1 t])
  then have "connector_done E w'" by (rule done_step(1) [OF settle.schema_phase_keeps w2 r2])
  moreover have "ds \<or> schema_done E w2"
    using todo(2) done_step(2) [OF settle.reconcileConnector_keeps w c] done_step(2) [OF settle.reconcileSetupTests_keeps w1 t] by blast
  ultimately show ?thesis using schema_phase_done [OF w2 r2 clean] by simp
next
  case False
  then have r: "schema_phase E dc ds (st_ConnectorID (fc_Status (w_obj w))) rc ra w = (Ok (res, None), w')"
    using run by (simp add: connector_phase_def bind_def get_obj_def)
  show ?thesis using schema_phase_done [OF w r clean todo(2)] done_step(1) [OF settle.schema_phase_keeps w r] False todo(1) by simp
qed

lemma needs_todo:
  assumes "determineReconciliationNeeds E (w_obj w) force = Inr (dc, ds)" and "force \<or> \<not> hasFailedConditions (w_obj w)"
  shows "(dc \<or> connector_done E w) \<and> (ds \<or> schema_done E w)"
  using assms
  by (auto simp: determineReconciliationNeeds_def connector_done_def schema_done_def named_def hash_ok_def schema_hash_ok_def
      hasConnectorHashChanged_def hasSchemaHashChanged_def split: if_split_asm sum.split_asm)

lemma finalizer_set:
  assumes "ready E x h w" and "ensureFinalizer E w = (Ok u, w')"
  shows "ContainsFinalizer (fc_Meta (w_obj w')) fivetranFinalizer \<and> fc_Status (w_obj w') = fc_Status (w_obj w)
    \<and> om_Labels (fc_Meta (w_obj w')) = om_Labels (fc_Meta (w_obj w))"
  using assms send_meta_run [of E x h w, OF _ _ meta_onlyI, of "\<lambda>m. AddFinalizer m fivetranFinalizer"]
  by (auto simp: ensureFinalizer_def bind_def [of get_obj] get_obj_def ret_def send_meta_def ready_def started_def AddFinalizer_def
      ContainsFinalizer_def split: if_split_asm)

lemma force_label_taken:
  assumes "ready E x h w" and "take_force_label E (HasLabel (fc_Meta (w_obj w)) annotationForceReconcile) w = (Ok u, w')"
  shows "\<not> HasLabel (fc_Meta (w_obj w')) annotationForceReconcile \<and> fc_Status (w_obj w') = fc_Status (w_obj w)"
  using assms send_meta_run [of E x h w, OF _ _ meta_onlyI, of "\<lambda>m. RemoveLabel m annotationForceReconcile"]
  by (auto simp: take_force_label_def ret_def send_meta_def ready_def started_def label.has_remove split: if_split_asm)

lemma reconcile_needs_done:
  assumes w: "ready E x h w" and run: "reconcile_needs E force w = (Ok (res, None), w')" and clean: "\<not> hasFailedConditions (w_obj w')"
    and seen: "force \<or> \<not> hasFailedConditions (w_obj w)"
  shows "connector_done E w' \<and> schema_done E w'"
proof (cases "determineReconciliationNeeds E (w_obj w) force")
  case (Inl e)
  then have "or_handle E conditionTypeConnectorReady ConnectorReasonReconciliationFailed (raise e) ret w = (Ok (res, None), w')"
    using run by (simp add: reconcile_needs_def bind_def get_obj_def or_handle_def attempt_def raise_def)
  then show ?thesis using or_handle_clean [OF _ ready_step(1) [OF settle.reconcile_needs_keeps w run] clean] by (metis raise_def prod.inject res.distinct(1))
next
  case (Inr needs)
  obtain dc ds where d: "needs = (dc, ds)" by fastforce
  have todo: "dc \<or> connector_done E w" "ds \<or> schema_done E w" using needs_todo [OF _ seen] Inr d by auto
  show ?thesis
  proof (cases "dc \<or> ds")
    case False
    then show ?thesis using run Inr d todo by (auto simp: reconcile_needs_def bind_def get_obj_def ret_def)
  next
    case True
    then have "or_handle E conditionTypeConnectorReady ConnectorReasonVaultSecretsResolutionFailed (resolveSecrets E)
        (\<lambda>(rc, ra). connector_phase E dc ds rc ra) w = (Ok (res, None), w')"
      using run Inr d by (auto simp: reconcile_needs_def bind_def get_obj_def)
    then obtain rc ra w1 where s: "resolveSecrets E w = (Ok (rc, ra), w1)" and c: "connector_phase E dc ds rc ra w1 = (Ok (res, None), w')"
      by (rule or_handle_clean [OF _ ready_step(1) [OF settle.reconcile_needs_keeps w run] clean]) auto
    have w1: "ready E x h w1" by (rule ready_step(1) [OF settle.resolveSecrets_keeps w s])
    show ?thesis using todo done_step [OF settle.resolveSecrets_keeps w s] by (intro connector_phase_done [OF w1 c clean]) auto
  qed
qed

lemma reconcile_live_done:
  assumes w: "ready E x h w" and run: "reconcile_live E w = (Ok (res, None), w')" and clean: "\<not> hasFailedConditions (w_obj w')"
    and seen: "HasLabel (fc_Meta (w_obj w)) annotationForceReconcile \<or> \<not> hasFailedConditions (w_obj w)"
    and live: "om_DeletionTimestamp (fc_Meta (w_obj w)) = None"
  shows "settled E (w_obj w')"
proof -
  let ?force = "\<lambda>w. HasLabel (fc_Meta (w_obj w)) annotationForceReconcile"
  note w' = ready_step(1) [OF settle.reconcile_live_keeps w run]
  from run obtain u w1 where f: "ensureFinalizer E w = (Ok u, w1)"
    and r1: "or_handle E conditionTypeConnectorReady ConnectorReasonReconciliationFailed (take_force_label E (?force w1)) (\<lambda>_. reconcile_needs E (?force w1)) w1
      = (Ok (res, None), w')"
    unfolding reconcile_live_def by (rule or_handle_clean [OF _ w' clean]) (auto simp: bind_def get_obj_def Let_def)
  from r1 obtain v w2 where t: "take_force_label E (?force w1) w1 = (Ok v, w2)" and r2: "reconcile_needs E (?force w1) w2 = (Ok (res, None), w')"
    by (rule or_handle_clean [OF _ w' clean])
  have w1: "ready E x h w1" by (rule ready_step(1) [OF settle.ensureFinalizer_keeps w f])
  have w2: "ready E x h w2" by (rule ready_step(1) [OF settle.take_force_label_keeps w1 t])
  have "?force w1 \<or> \<not> hasFailedConditions (w_obj w2)"
    using seen finalizer_set [OF w f] force_label_taken [OF w1 t] by (auto simp: HasLabel_def hasFailedConditions_def)
  from reconcile_needs_done [OF w2 r2 clean this] have "connector_done E w' \<and> schema_done E w'" .
  moreover have "untouched (w_obj w')"
    using ready_step(2) [OF settle.ensureFinalizer_keeps w f] ready_step(2) [OF settle.take_force_label_keeps w1 t]
      ready_step(2) [OF settle.reconcile_needs_keeps w2 r2] finalizer_set [OF w f] force_label_taken [OF w1 t] live
    by (simp add: untouched_def later_def)
  ultimately show ?thesis using clean
    by (simp add: settled_def connector_done_def schema_done_def named_def hash_ok_def schema_hash_ok_def)
qed

lemma settle_ensure_vault: "settle.keeps E x h (ensure_vault E ns)"
proof (rule settle_quiet)
  show "w_obj (snd (ensure_vault E ns w)) = w_obj w" for w
    using obj_kept_ensure_vault by (simp add: obj_kept.keeps_def)
  show "emit.keeps quiet (ensure_vault E ns)"
    by (rule emit_ensure_vault) (auto simp: quiet_def vault_init_event_def split: event.split_asm)
qed

lemma ready_get:
  assumes "serves E x h" and "real_ids (e_connection E)" and "w_trace w = h"
  shows "ready E x h (sent KubeGet x w) \<and> kube_get E w = (Ok (), sent KubeGet x w)"
proof
  have "in_sync x h (sent KubeGet x w)" unfolding in_sync_def by (intro exI [of _ "[KubeGet]"]) (simp add: assms(3) stored_def)
  then show "ready E x h (sent KubeGet x w)" using assms by (simp add: ready_def started_def)
  have "e_get E h = Inr x" using assms(1) unfolding serves_def by (metis append_Nil2 stored_Nil)
  then show "kube_get E w = (Ok (), sent KubeGet x w)" using assms(3) by (simp add: kube_get_def log_event_def sent_def)
qed

lemma clean_run_settles:
  assumes E: "serves E x h" "real_ids (e_connection E)" and w: "w_trace w = h"
    and live: "om_DeletionTimestamp (fc_Meta x) = None"
    and seen: "HasLabel (fc_Meta x) annotationForceReconcile \<or> \<not> hasFailedConditions x"
    and run: "Reconcile E cl ns w = (Ok (res, None), w')" and clean: "\<not> hasFailedConditions (w_obj w')"
  shows "settled E (w_obj w') \<and> ready E x h w' \<and> fc_Spec (w_obj w') = fc_Spec x"
proof -
  let ?w = "sent KubeGet x w"
  have g: "ready E x h ?w" "kube_get E w = (Ok (), ?w)" using ready_get [OF E w] by auto
  let ?h = "handleError E conditionTypeConnectorReady ConnectorReasonFivetranClientNotInitialized (Sentinel ErrFivetranClientNotInitialized)"
  have cl: "cl"
  proof (rule ccontr)
    assume "\<not> cl"
    then have h: "?h ?w = (Ok (res, None), w')" using run by (simp add: Reconcile_def attempt_def g(2))
    then have "or_handle E conditionTypeConnectorReady ConnectorReasonFivetranClientNotInitialized (raise (Sentinel ErrFivetranClientNotInitialized)) ret ?w
        = (Ok (res, None), w')" by (simp add: or_handle_def attempt_def raise_def)
    then show False using or_handle_clean [OF _ ready_step(1) [OF settle.handleError_keeps g(1) h] clean]
      by (metis raise_def prod.inject res.distinct(1))
  qed
  obtain w1 where v: "ensure_vault E ns ?w = (Ok (), w1)" and r: "(if om_DeletionTimestamp (fc_Meta (w_obj w1)) \<noteq> None
      then or_handle E conditionTypeConnectorReady ConnectorReasonDeletionFailed (handleDeletion E) (\<lambda>_. ret (result 0, None))
      else reconcile_live E) w1 = (Ok (res, None), w')"
    using run cl by (auto simp: Reconcile_def attempt_def g(2) bind_def get_obj_def ret_def split: prod.split_asm res.split_asm)
  have w1: "ready E x h w1" by (rule ready_step(1) [OF settle_ensure_vault g(1) v])
  have o1: "w_obj w1 = x" using obj_kept.keepsD [OF obj_kept_ensure_vault v] by simp
  have r1: "reconcile_live E w1 = (Ok (res, None), w')" using r o1 live by simp
  show ?thesis using reconcile_live_done [OF w1 r1 clean] o1 seen live ready_step [OF settle.reconcile_live_keeps w1 r1]
    by (simp add: later_def)
qed

text \<open>C3: Reconciliation converges. Suppose the server stores what it is sent and Fivetran gives every
  connection it creates an identifier. If a run for a live resource, which reports no failure or
  carries the force label, returns without an error and leaves no condition false, then the
  resource is settled: finalizer set, label gone, connection known, both hashes those of the
  unchanged spec. A next run, given a valid Vault token, reads the resource and the token and does nothing
  else.\<close>

theorem Reconcile_converges:
  assumes E: "serves E x h" "real_ids (e_connection E)" and w: "w_trace w = h"
    and live: "om_DeletionTimestamp (fc_Meta x) = None"
    and seen: "HasLabel (fc_Meta x) annotationForceReconcile \<or> \<not> hasFailedConditions x"
    and run: "Reconcile E cl ns w = (Ok (res, None), w')" and clean: "\<not> hasFailedConditions (w_obj w')"
  shows "settled E (w_obj w') \<and> fc_Spec (w_obj w') = fc_Spec x
    \<and> (\<forall>w1. token_valid E (after_get w' (w_obj w')) = (Ok True, w1) \<longrightarrow>
         Reconcile E True ns w' = (Ok (result 0, None), w1) \<and> w_obj w1 = w_obj w'
         \<and> w_trace w1 = w_trace w' @ [KubeGet, VaultLookupSelf])"
proof -
  from clean_run_settles [OF assms] have s: "settled E (w_obj w')" "fc_Spec (w_obj w') = fc_Spec x" and r: "ready E x h w'" by auto
  have g: "e_get E (w_trace w') = Inr (w_obj w')" using r serves_answers(1) by (auto simp: ready_def started_def)
  have "Reconcile E True ns w' = (Ok (result 0, None), w1) \<and> w_obj w1 = w_obj w' \<and> w_trace w1 = w_trace w' @ [KubeGet, VaultLookupSelf]"
    if "token_valid E (after_get w' (w_obj w')) = (Ok True, w1)" for w1
    using settled_run [OF g s(1) that, of ns] by simp
  then show ?thesis using s by blast
qed

text \<open>The demo resource, from its creation to a settled state in one run.\<close>

abbreviation demo_good :: env where
  "demo_good \<equiv> served demo_env demo_new []"

lemma demo_converges:
  "\<exists>w'. Reconcile demo_good True ''ns'' demo_ready = (Ok (result 0, None), w') \<and> \<not> hasFailedConditions (w_obj w')"
proof -
  have p: "ParseInt64 ''3600'' = Some 3600" by (simp add: ParseInt64_def digits_value_def isDigit_def)
  show ?thesis
    by (simp add: run_defs demo_world_defs p served_def stored_def store_step_def updateConnectorHash_def calculateConnectorHash_def
        reconcileSetupTests_def updateSetupTestsCondition_def RunSetupTests_def schema_phase_def finish_def updateConnector_def
        UpdateConnection_def cleanupAnnotationsAndLabels_def test_errors_def test_warnings_def SetAnnotation_def ConditionTrue_def ConditionFalse_def)
qed

theorem Reconcile_converges_witness:
  "\<exists>w'. Reconcile demo_good True ''ns'' demo_ready = (Ok (result 0, None), w') \<and> settled demo_good (w_obj w')"
proof -
  obtain w' where r: "Reconcile demo_good True ''ns'' demo_ready = (Ok (result 0, None), w')" and c: "\<not> hasFailedConditions (w_obj w')"
    using demo_converges by blast
  have "real_ids (e_connection demo_good)" "w_trace demo_ready = []" "om_DeletionTimestamp (fc_Meta demo_new) = None"
    "HasLabel (fc_Meta demo_new) annotationForceReconcile \<or> \<not> hasFailedConditions demo_new"
    by (simp_all add: real_ids_def served_def demo_world_defs hasFailedConditions_def)
  from Reconcile_converges [OF serves_served this r c] r show ?thesis by blast
qed

end
