(* ===== verification/Startup.thy ===== *)
theory Startup
  imports Vault_Client
begin

text \<open>
  The start of the process: cmd/main.go and pkg/fivetran/client.go. The values of the command line
  flags are an argument, with the defaults of the source in \<open>default_flags\<close>; the process
  environment, the certificate watchers and the manager of controller-runtime answer the calls of
  main. A step either goes on or ends the process with exit code 1; the calls made so far are
  recorded in order.
\<close>

subsection \<open>Flags and options\<close>

record Flags =
  metricsAddr :: string
  probeAddr :: string
  enableLeaderElection :: bool
  secureMetrics :: bool
  webhookCertPath :: string
  webhookCertName :: string
  webhookCertKey :: string
  metricsCertPath :: string
  metricsCertName :: string
  metricsCertKey :: string
  enableHTTP2 :: bool

definition default_flags :: Flags where
  "default_flags = \<lparr>metricsAddr = ''0'', probeAddr = '':8081'', enableLeaderElection = False, secureMetrics = True,
     webhookCertPath = '''', webhookCertName = ''tls.crt'', webhookCertKey = ''tls.key'',
     metricsCertPath = '''', metricsCertName = ''tls.crt'', metricsCertKey = ''tls.key'', enableHTTP2 = False\<rparr>"

text \<open>
  A certificate watcher is known by the directory and the two file names that \<open>filepath.Join\<close>
  puts together. A TLS option is a function on the TLS configuration: one restricts the protocols
  to HTTP/1.1, one takes the certificate from a watcher. Every append of the source is to a full
  slice, so that no two option lists share memory and lists are faithful to them.
\<close>

record Watcher =
  wt_Path :: string
  wt_Cert :: string
  wt_Key :: string

datatype TLSOpt = DisableHTTP2 | GetCertificate Watcher

record MetricsOptions =
  mo_BindAddress :: string
  mo_SecureServing :: bool
  mo_TLSOpts :: "TLSOpt list"
  mo_FilterProvider :: bool

record ManagerOptions =
  go_Metrics :: MetricsOptions
  go_WebhookTLSOpts :: "TLSOpt list"
  go_HealthProbeBindAddress :: string
  go_LeaderElection :: bool
  go_LeaderElectionID :: string
  go_LeaseDuration :: nat
  go_RenewDeadline :: nat
  go_RetryPeriod :: nat
  go_DefaultNamespaces :: "string list"

datatype boot_event =
    NewCertWatcher Watcher
  | NewManager ManagerOptions
  | SetupWithManager int
  | AddWatcher Watcher
  | AddHealthzCheck
  | AddReadyzCheck
  | StartManager

text \<open>Whether each call succeeds; \<open>be_kubeconfig\<close> is whether \<open>GetConfigOrDie\<close> finds a configuration.\<close>

record boot_env =
  be_getenv :: "string \<Rightarrow> string"
  be_kubeconfig :: bool
  be_ok :: "boot_event list \<Rightarrow> boot_event \<Rightarrow> bool"

type_synonym 'a boot = "boot_event list \<Rightarrow> 'a option \<times> boot_event list"

definition go_on :: "'a \<Rightarrow> 'a boot" where
  "go_on x h = (Some x, h)"

definition os_Exit :: "'a boot" where
  "os_Exit h = (None, h)"

definition and_then :: "'a boot \<Rightarrow> ('a \<Rightarrow> 'b boot) \<Rightarrow> 'b boot" where
  "and_then a f h = (case a h of (Some x, h') \<Rightarrow> f x h' | (None, h') \<Rightarrow> (None, h'))"

definition must :: "boot_env \<Rightarrow> boot_event \<Rightarrow> unit boot" where
  "must B e h = (if be_ok B h e then Some () else None, h @ [e])"

subsection \<open>The steps of main\<close>

definition base_tlsOpts :: "Flags \<Rightarrow> TLSOpt list" where
  "base_tlsOpts f = (if \<not> enableHTTP2 f then [DisableHTTP2] else [])"

definition certWatcher :: "boot_env \<Rightarrow> string \<Rightarrow> string \<Rightarrow> string \<Rightarrow> Watcher option boot" where
  "certWatcher B path cert key =
     (if length path > 0
      then (let wt = \<lparr>wt_Path = path, wt_Cert = cert, wt_Key = key\<rparr>
            in and_then (must B (NewCertWatcher wt)) (\<lambda>_. go_on (Some wt)))
      else go_on None)"

definition with_watcher :: "TLSOpt list \<Rightarrow> Watcher option \<Rightarrow> TLSOpt list" where
  "with_watcher opts wt = (case wt of Some x \<Rightarrow> opts @ [GetCertificate x] | None \<Rightarrow> opts)"

definition metricsServerOptions :: "Flags \<Rightarrow> Watcher option \<Rightarrow> MetricsOptions" where
  "metricsServerOptions f wt =
     \<lparr>mo_BindAddress = metricsAddr f, mo_SecureServing = secureMetrics f,
      mo_TLSOpts = with_watcher (base_tlsOpts f) wt, mo_FilterProvider = secureMetrics f\<rparr>"

definition defaultMaxConcurrentReconciles :: int where
  "defaultMaxConcurrentReconciles = 5"

text \<open>\<open>strconv.Atoi\<close> accepts exactly what \<open>ParseInt\<close> in base 10 with 64 bits accepts.\<close>

definition maxConcurrentReconciles :: "boot_env \<Rightarrow> int" where
  "maxConcurrentReconciles B =
     (let s = be_getenv B ''MAX_CONCURRENT_RECONCILES''
      in if s \<noteq> ''''
         then (case ParseInt64 s of
                 None \<Rightarrow> defaultMaxConcurrentReconciles
               | Some parsed \<Rightarrow> if parsed > 0 then parsed else defaultMaxConcurrentReconciles)
         else defaultMaxConcurrentReconciles)"

definition managerOptions :: "Flags \<Rightarrow> Watcher option \<Rightarrow> Watcher option \<Rightarrow> string \<Rightarrow> ManagerOptions" where
  "managerOptions f metricsWatcher webhookWatcher watchNamespace =
     \<lparr>go_Metrics = metricsServerOptions f metricsWatcher,
      go_WebhookTLSOpts = with_watcher (base_tlsOpts f) webhookWatcher,
      go_HealthProbeBindAddress = probeAddr f, go_LeaderElection = enableLeaderElection f,
      go_LeaderElectionID = ''2173ea51.dataverse.redhat.com'',
      go_LeaseDuration = 60, go_RenewDeadline = 40, go_RetryPeriod = 5,
      go_DefaultNamespaces = [watchNamespace]\<rparr>"

text \<open>\<open>fivetran.NewClient\<close>: the error, or the pair of credentials its SDK client is made of.\<close>

definition fivetran_NewClient :: "string \<Rightarrow> string \<Rightarrow> goerr + (string \<times> string)" where
  "fivetran_NewClient apiKey apiSecret =
     (if apiKey = '''' \<or> apiSecret = ''''
      then Inl (Text ''FIVETRAN_API_KEY and FIVETRAN_API_SECRET are required'')
      else Inr (apiKey, apiSecret))"

definition add_watcher :: "boot_env \<Rightarrow> Watcher option \<Rightarrow> unit boot" where
  "add_watcher B wt = (case wt of Some x \<Rightarrow> must B (AddWatcher x) | None \<Rightarrow> go_on ())"

text \<open>The part of main after the manager options: the manager, the client, the controller, the start.\<close>

definition run_manager :: "boot_env \<Rightarrow> ManagerOptions \<Rightarrow> int \<Rightarrow> Watcher option \<Rightarrow> Watcher option \<Rightarrow> unit boot" where
  "run_manager B options maxReconciles metricsWatcher webhookWatcher =
     (if \<not> be_kubeconfig B then os_Exit
      else and_then (must B (NewManager options)) (\<lambda>_.
        case fivetran_NewClient (be_getenv B ''FIVETRAN_API_KEY'') (be_getenv B ''FIVETRAN_API_SECRET'') of
          Inl _ \<Rightarrow> os_Exit
        | Inr _ \<Rightarrow>
          and_then (must B (SetupWithManager maxReconciles)) (\<lambda>_.
          and_then (add_watcher B metricsWatcher) (\<lambda>_.
          and_then (add_watcher B webhookWatcher) (\<lambda>_.
          and_then (must B AddHealthzCheck) (\<lambda>_.
          and_then (must B AddReadyzCheck) (\<lambda>_.
          must B StartManager)))))))"

definition main :: "boot_env \<Rightarrow> Flags \<Rightarrow> unit boot" where
  "main B f =
     and_then (certWatcher B (webhookCertPath f) (webhookCertName f) (webhookCertKey f)) (\<lambda>webhookWatcher.
     and_then (certWatcher B (metricsCertPath f) (metricsCertName f) (metricsCertKey f)) (\<lambda>metricsWatcher.
       let watchNamespace = be_getenv B ''WATCH_NAMESPACE''
       in if watchNamespace = '''' then os_Exit
          else run_manager B (managerOptions f metricsWatcher webhookWatcher watchNamespace) (maxConcurrentReconciles B)
                 metricsWatcher webhookWatcher))"

subsection \<open>Bounds\<close>

lemma ParseInt64_range: "ParseInt64 s = Some i \<Longrightarrow> - (2 ^ 63) \<le> i \<and> i < 2 ^ 63"
  by (auto simp: ParseInt64_def Let_def split: if_split_asm)

lemma ParseInt64_Itoa: "0 < n \<Longrightarrow> n < 2 ^ 63 \<Longrightarrow> ParseInt64 (Itoa n) = Some n"
  using ParseInt64_digits [of "nat n"] by (simp add: Itoa_def nat_less_iff)

text \<open>C40: The number of parallel reconciliations is always positive and fits a 64-bit integer, whatever
  the environment variable holds: it is five, or the number in the variable. Every positive
  64-bit number in decimal is accepted.\<close>

theorem maxConcurrentReconciles_bounds:
  "0 < maxConcurrentReconciles B \<and> maxConcurrentReconciles B < 2 ^ 63
   \<and> (maxConcurrentReconciles B = 5
      \<or> ParseInt64 (be_getenv B ''MAX_CONCURRENT_RECONCILES'') = Some (maxConcurrentReconciles B))
   \<and> (0 < n \<and> n < 2 ^ 63 \<and> be_getenv B ''MAX_CONCURRENT_RECONCILES'' = Itoa n \<longrightarrow> maxConcurrentReconciles B = n)"
proof -
  let ?s = "be_getenv B ''MAX_CONCURRENT_RECONCILES''"
  have "maxConcurrentReconciles B = n" if n: "0 < n" "n < 2 ^ 63" and s: "?s = Itoa n"
    using n ParseInt64_Itoa [OF n] by (simp add: maxConcurrentReconciles_def s Let_def Itoa_def)
  then show ?thesis using ParseInt64_range [of ?s]
    by (auto simp: maxConcurrentReconciles_def defaultMaxConcurrentReconciles_def Let_def split: option.split)
qed

definition demo_boot :: boot_env where
  "demo_boot = \<lparr>be_getenv = \<lambda>v. if v = ''MAX_CONCURRENT_RECONCILES'' then ''12'' else ''x'', be_kubeconfig = True, be_ok = \<lambda>_ _. True\<rparr>"

theorem maxConcurrentReconciles_bounds_witness: "maxConcurrentReconciles demo_boot = 12"
proof -
  have "be_getenv demo_boot ''MAX_CONCURRENT_RECONCILES'' = Itoa 12"
    by (simp add: demo_boot_def Itoa_def digits.simps) code_simp
  then show ?thesis using maxConcurrentReconciles_bounds [of demo_boot 12] by simp
qed

subsection \<open>The start\<close>

text \<open>The configuration without which the process does not start.\<close>

definition configured :: "boot_env \<Rightarrow> bool" where
  "configured B \<longleftrightarrow> be_getenv B ''WATCH_NAMESPACE'' \<noteq> [] \<and> be_getenv B ''FIVETRAN_API_KEY'' \<noteq> []
     \<and> be_getenv B ''FIVETRAN_API_SECRET'' \<noteq> []"

definition single_namespace :: "boot_env \<Rightarrow> Flags \<Rightarrow> ManagerOptions \<Rightarrow> bool" where
  "single_namespace B f opts \<longleftrightarrow>
     go_DefaultNamespaces opts = [be_getenv B ''WATCH_NAMESPACE''] \<and> be_getenv B ''WATCH_NAMESPACE'' \<noteq> []
   \<and> (\<not> enableHTTP2 f \<longrightarrow> DisableHTTP2 \<in> set (mo_TLSOpts (go_Metrics opts)) \<and> DisableHTTP2 \<in> set (go_WebhookTLSOpts opts))
   \<and> (secureMetrics f \<longrightarrow> mo_FilterProvider (go_Metrics opts))"

lemma managerOptions_single:
  "be_getenv B ''WATCH_NAMESPACE'' \<noteq> [] \<Longrightarrow> single_namespace B f (managerOptions f mw ww (be_getenv B ''WATCH_NAMESPACE''))"
  by (auto simp: single_namespace_def managerOptions_def metricsServerOptions_def with_watcher_def base_tlsOpts_def split: option.split)

text \<open>
  The plan of a start: the calls in their order, and whether the process runs on after the last of
  them. It is a function of the flags and of the process environment alone; the calls are made one
  after the other until one fails.
\<close>

definition flag_watcher :: "string \<Rightarrow> string \<Rightarrow> string \<Rightarrow> Watcher option" where
  "flag_watcher path cert key = (if path = [] then None else Some \<lparr>wt_Path = path, wt_Cert = cert, wt_Key = key\<rparr>)"

definition calls_of :: "(Watcher \<Rightarrow> boot_event) \<Rightarrow> Watcher option \<Rightarrow> boot_event list" where
  "calls_of c wt = (case wt of None \<Rightarrow> [] | Some x \<Rightarrow> [c x])"

definition plan :: "boot_env \<Rightarrow> Flags \<Rightarrow> boot_event list \<times> bool" where
  "plan B f =
     (let ww = flag_watcher (webhookCertPath f) (webhookCertName f) (webhookCertKey f);
          mw = flag_watcher (metricsCertPath f) (metricsCertName f) (metricsCertKey f);
          certs = calls_of NewCertWatcher ww @ calls_of NewCertWatcher mw;
          ns = be_getenv B ''WATCH_NAMESPACE''
      in if ns = [] \<or> \<not> be_kubeconfig B then (certs, False)
         else if \<not> configured B then (certs @ [NewManager (managerOptions f mw ww ns)], False)
         else (certs @ [NewManager (managerOptions f mw ww ns), SetupWithManager (maxConcurrentReconciles B)]
                 @ calls_of AddWatcher mw @ calls_of AddWatcher ww @ [AddHealthzCheck, AddReadyzCheck, StartManager], True))"

fun execute :: "boot_env \<Rightarrow> boot_event list \<Rightarrow> bool \<Rightarrow> unit boot" where
  "execute B [] runs h = (if runs then Some () else None, h)"
| "execute B (e # es) runs h = (if be_ok B h e then execute B es runs (h @ [e]) else (None, h @ [e]))"

lemma execute_prefix: "\<exists>k. snd (execute B es runs h) = h @ take k es"
proof (induction B es runs h rule: execute.induct)
  case (2 B e es runs h)
  show ?case
  proof (cases "be_ok B h e")
    case True
    with 2 obtain k where "snd (execute B (e # es) runs h) = h @ take (Suc k) (e # es)" by auto
    then show ?thesis by blast
  next
    case False
    then have "snd (execute B (e # es) runs h) = h @ take 1 (e # es)" by simp
    then show ?thesis by blast
  qed
qed simp

text \<open>The steps of main as executions of their calls.\<close>

lemma execute_append: "and_then (execute B es True) (\<lambda>_. execute B es' runs) = execute B (es @ es') runs"
proof
  show "and_then (execute B es True) (\<lambda>_. execute B es' runs) h = execute B (es @ es') runs h" for h
    by (induction es arbitrary: h) (simp_all add: and_then_def)
qed

lemma and_then_go_on: "and_then (go_on x) f = f x" "and_then a (\<lambda>_. go_on ()) = a"
  by (auto simp: and_then_def go_on_def split: prod.split option.split)

lemma and_then_assoc: "and_then (and_then a f) g = and_then a (\<lambda>x. and_then (f x) g)"
  by (auto simp: and_then_def split: prod.split option.split)

lemma execute_steps:
  "must B e = execute B [e] True" "os_Exit = execute B [] False"
  "add_watcher B wt = execute B (calls_of AddWatcher wt) True"
  "certWatcher B p c k =
     and_then (execute B (calls_of NewCertWatcher (flag_watcher p c k)) True) (\<lambda>_. go_on (flag_watcher p c k))"
  by (auto simp: must_def os_Exit_def add_watcher_def certWatcher_def and_then_def go_on_def calls_of_def flag_watcher_def Let_def
      fun_eq_iff split: option.split)

lemma main_execute: "main B f h = execute B (fst (plan B f)) (snd (plan B f)) h"
  by (simp add: main_def run_manager_def plan_def fivetran_NewClient_def configured_def Let_def
      execute_steps execute_steps(2) [of B] and_then_assoc and_then_go_on execute_append del: execute.simps)

text \<open>C22: The process starts as planned. main makes exactly the calls of the plan, in its order, up to
  the first that fails, and then ends the process with exit code 1; if none fails it runs the
  manager, or exits because the namespace to watch, the cluster configuration or the Fivetran
  credentials are missing, before any call that depends on them.\<close>

theorem main_follows_plan: "main B f h = execute B (fst (plan B f)) (snd (plan B f)) h"
  by (rule main_execute)

lemma take_to_last: "x \<in> set (take k (ys @ [x])) \<Longrightarrow> x \<notin> set ys \<Longrightarrow> take k (ys @ [x]) = ys @ [x]"
  by (cases "k \<le> length ys") (auto dest: in_set_takeD)

lemma plan_start:
  assumes "StartManager \<in> set (fst (plan B f))"
  shows "configured B \<and> (\<exists>ys. fst (plan B f) = ys @ [StartManager] \<and> StartManager \<notin> set ys
    \<and> SetupWithManager (maxConcurrentReconciles B) \<in> set ys)"
proof -
  have "StartManager \<notin> set (calls_of NewCertWatcher wt)" "StartManager \<notin> set (calls_of AddWatcher wt)" for wt
    by (simp_all add: calls_of_def split: option.split)
  then show ?thesis using assms by (auto simp: plan_def Let_def split: if_split_asm)
qed

lemma plan_managers: "NewManager opts \<in> set (fst (plan B f)) \<Longrightarrow> single_namespace B f opts"
  using managerOptions_single [of B f]
  by (auto simp: plan_def Let_def calls_of_def split: if_split_asm option.split_asm)

text \<open>C23: The operator never runs half configured. If main starts the manager, then a namespace to
  watch and both Fivetran credentials are set, and the controller was registered with the manager
  before; every manager it creates is restricted to that one namespace, serves without HTTP/2
  unless it was asked for and guards the metrics unless secure serving was switched off.\<close>

theorem main_starts_configured:
  assumes run: "snd (main B f []) = es"
  shows "(StartManager \<in> set es \<longrightarrow> configured B \<and> SetupWithManager (maxConcurrentReconciles B) \<in> set es \<and> last es = StartManager)
    \<and> (\<forall>opts. NewManager opts \<in> set es \<longrightarrow> single_namespace B f opts)"
proof -
  obtain k where es: "es = take k (fst (plan B f))" using run execute_prefix [of B _ _ "[]"] by (auto simp: main_execute)
  have "configured B \<and> SetupWithManager (maxConcurrentReconciles B) \<in> set es \<and> last es = StartManager"
    if "StartManager \<in> set es"
  proof -
    have "StartManager \<in> set (fst (plan B f))" using that in_set_takeD unfolding es by metis
    from plan_start [OF this] obtain ys where c: "configured B" and ys: "fst (plan B f) = ys @ [StartManager]"
      "StartManager \<notin> set ys" "SetupWithManager (maxConcurrentReconciles B) \<in> set ys" by blast
    have "es = ys @ [StartManager]" using that take_to_last ys(1,2) unfolding es by metis
    then show ?thesis using c ys(3) by simp
  qed
  moreover have "single_namespace B f opts" if "NewManager opts \<in> set es" for opts
    using that plan_managers in_set_takeD unfolding es by metis
  ultimately show ?thesis by blast
qed

theorem main_starts_configured_witness: "single_namespace demo_boot default_flags (managerOptions default_flags None None ''x'')"
proof -
  have "NewManager (managerOptions default_flags None None ''x'') \<in> set (snd (main demo_boot default_flags []))"
    by (simp add: main_execute plan_def demo_boot_def default_flags_def configured_def flag_watcher_def calls_of_def Let_def)
  then show ?thesis using main_starts_configured [OF refl] by blast
qed

end
