(* ===== verification/Go_Heap.thy ===== *)
theory Go_Heap
  imports Go_Base
begin

text \<open>
  Memory for the parts of the program where it matters which objects are shared. A heap is a list
  of cells and a location an index into it; \<open>new\<close> and \<open>make\<close> append a cell, so that a fresh location
  is one that was not there before. What a cell may hold is a parameter of this theory. A pointer
  leads to a cell of its type or is nil; an action returns no result where it would follow a
  location without such a cell, which the type system of Go excludes.

  The locale \<open>deep_copy\<close> is the contract of a deep copy: the copy denotes the same value, it owns only
  fresh locations, and the memory that was there is as before. The locales that extend it build
  the contract for pointers, maps, slices, pairs and structs from the contracts of their parts.
\<close>

subsection \<open>Actions on a heap\<close>

type_synonym loc = nat
type_synonym 'c heap = "'c list"
type_synonym ('c, 'a) hact = "'c heap \<Rightarrow> ('a \<times> 'c heap) option"

definition hret :: "'a \<Rightarrow> ('c, 'a) hact" where
  "hret x h = Some (x, h)"

definition hbind :: "('c, 'a) hact \<Rightarrow> ('a \<Rightarrow> ('c, 'b) hact) \<Rightarrow> ('c, 'b) hact" where
  "hbind a f h = (case a h of None \<Rightarrow> None | Some (x, h') \<Rightarrow> f x h')"

definition new_cell :: "'c \<Rightarrow> ('c, loc) hact" where
  "new_cell c h = Some (length h, h @ [c])"

definition deref :: "('c \<Rightarrow> 'v option) \<Rightarrow> 'c heap \<Rightarrow> loc \<Rightarrow> 'v option" where
  "deref dest h a = (if a < length h then dest (h ! a) else None)"

definition load :: "('c \<Rightarrow> 'v option) \<Rightarrow> loc \<Rightarrow> ('c, 'v) hact" where
  "load dest a h = map_option (\<lambda>v. (v, h)) (deref dest h a)"

definition store :: "loc \<Rightarrow> 'c \<Rightarrow> ('c, unit) hact" where
  "store a c h = (if a < length h then Some ((), h[a := c]) else None)"

lemma hbind_simps [simp]: "hbind (hret x) f = f x" "hbind a hret = a" "hbind (hbind a f) g = hbind a (\<lambda>x. hbind (f x) g)"
  by (auto simp: hbind_def hret_def fun_eq_iff split: option.split prod.split)

lemma hbind_eq: "a h = Some (x, h') \<Longrightarrow> hbind a f h = f x h'"
  by (simp add: hbind_def)

subsection \<open>Copies\<close>

text \<open>
  \<open>*out = new(T); (*in).DeepCopyInto(*out)\<close> for a pointer that is not nil. The new cell is made
  when its contents are known; locations are only ever compared, so the order of the allocations
  cannot be observed.
\<close>

definition copy_ptr :: "('c \<Rightarrow> 'v option) \<Rightarrow> ('v \<Rightarrow> 'c) \<Rightarrow> ('v \<Rightarrow> ('c, 'v) hact) \<Rightarrow> loc option \<Rightarrow> ('c, loc option) hact" where
  "copy_ptr dest mk into p =
     (case p of None \<Rightarrow> hret None
      | Some a \<Rightarrow> hbind (load dest a) (\<lambda>v. hbind (into v) (\<lambda>v'. hbind (new_cell (mk v')) (\<lambda>b. hret (Some b)))))"

text \<open>The loop \<open>for key, val := range *in\<close> that fills the new map, and the one over a slice.\<close>

fun copy_entries :: "('e \<Rightarrow> ('c, 'e) hact) \<Rightarrow> (string \<times> 'e) list \<Rightarrow> (string \<times> 'e) list \<Rightarrow> ('c, (string \<times> 'e) list) hact" where
  "copy_entries f [] out = hret out"
| "copy_entries f ((key, val) # es) out = hbind (f val) (\<lambda>outVal. copy_entries f es (AList.update key outVal out))"

fun copy_slice :: "('e \<Rightarrow> ('c, 'e) hact) \<Rightarrow> 'e list \<Rightarrow> ('c, 'e list) hact" where
  "copy_slice f [] = hret []"
| "copy_slice f (x # xs) = hbind (f x) (\<lambda>y. hbind (copy_slice f xs) (\<lambda>ys. hret (y # ys)))"

subsection \<open>The values of pointers, maps and slices\<close>

definition val_ptr :: "('c \<Rightarrow> 'v option) \<Rightarrow> ('c heap \<Rightarrow> 'v \<Rightarrow> 'a option) \<Rightarrow> 'c heap \<Rightarrow> loc option \<Rightarrow> 'a option option" where
  "val_ptr dest val h p =
     (case p of None \<Rightarrow> Some None | Some a \<Rightarrow> (case deref dest h a of None \<Rightarrow> None | Some v \<Rightarrow> map_option Some (val h v)))"

definition owns_ptr :: "('c \<Rightarrow> 'v option) \<Rightarrow> ('c heap \<Rightarrow> 'v \<Rightarrow> loc set) \<Rightarrow> 'c heap \<Rightarrow> loc option \<Rightarrow> loc set" where
  "owns_ptr dest owns h p =
     (case p of None \<Rightarrow> {} | Some a \<Rightarrow> insert a (case deref dest h a of None \<Rightarrow> {} | Some v \<Rightarrow> owns h v))"

definition val_slice :: "('c heap \<Rightarrow> 'e \<Rightarrow> 'a option) \<Rightarrow> 'c heap \<Rightarrow> 'e list \<Rightarrow> 'a list option" where
  "val_slice val h xs = those (map (val h) xs)"

definition owns_slice :: "('c heap \<Rightarrow> 'e \<Rightarrow> loc set) \<Rightarrow> 'c heap \<Rightarrow> 'e list \<Rightarrow> loc set" where
  "owns_slice owns h xs = (\<Union>x \<in> set xs. owns h x)"

definition val_entries :: "('c heap \<Rightarrow> 'e \<Rightarrow> 'a option) \<Rightarrow> 'c heap \<Rightarrow> (string \<times> 'e) list \<Rightarrow> (string \<times> 'a) list option" where
  "val_entries val h es =
     (if distinct (map fst es) then map_option (zip (map fst es)) (val_slice val h (map snd es)) else None)"

definition owns_entries :: "('c heap \<Rightarrow> 'e \<Rightarrow> loc set) \<Rightarrow> 'c heap \<Rightarrow> (string \<times> 'e) list \<Rightarrow> loc set" where
  "owns_entries owns h es = owns_slice owns h (map snd es)"

lemma val_slice_simps [simp]:
  "val_slice val h [] = Some []"
  "val_slice val h (x # xs) = (case val h x of None \<Rightarrow> None | Some y \<Rightarrow> map_option (Cons y) (val_slice val h xs))"
  by (simp_all add: val_slice_def split: option.split)

lemma owns_slice_simps [simp]:
  "owns_slice owns h [] = {}" "owns_slice owns h (x # xs) = owns h x \<union> owns_slice owns h xs"
  by (simp_all add: owns_slice_def)

lemma deref_snoc [simp]: "deref dest (h @ [c]) (length h) = dest c"
  by (simp add: deref_def)

text \<open>A map with distinct keys is filled in the order of the loop: it is a slice of its entries.\<close>

lemma copy_entries_slice:
  "distinct (map fst out @ map fst es) \<Longrightarrow>
     copy_entries f es out = hbind (copy_slice f (map snd es)) (\<lambda>ys. hret (out @ zip (map fst es) ys))"
proof (induction f es out rule: copy_entries.induct)
  case (2 f key val es out)
  then have "AList.update key v out = out @ [(key, v)]" for v by (simp add: update_fresh)
  then show ?case using 2 by simp
qed (simp add: hret_def fun_eq_iff)

subsection \<open>The contract\<close>

text \<open>The cells at some locations are the same in two heaps.\<close>

definition agree :: "loc set \<Rightarrow> 'c heap \<Rightarrow> 'c heap \<Rightarrow> bool" where
  "agree A h h' \<longleftrightarrow> (\<forall>a \<in> A. a < length h \<and> a < length h' \<and> h' ! a = h ! a)"

lemma agree_append [simp]: "agree A h (h @ es) \<longleftrightarrow> (\<forall>a \<in> A. a < length h)"
  by (auto simp: agree_def nth_append)

lemma agree_mono: "agree B h h' \<Longrightarrow> A \<subseteq> B \<Longrightarrow> agree A h h'"
  by (auto simp: agree_def)

lemma agree_deref: "agree A h h' \<Longrightarrow> a \<in> A \<Longrightarrow> deref dest h' a = deref dest h a"
  by (simp add: agree_def deref_def)

lemma agree_update: "a \<notin> A \<Longrightarrow> (\<forall>a \<in> A. a < length h) \<Longrightarrow> agree A h (h[a := c])"
  by (auto simp: agree_def) (metis nth_list_update_neq)

definition fresh :: "'c heap \<Rightarrow> loc set \<Rightarrow> bool" where
  "fresh h A \<longleftrightarrow> (\<forall>a \<in> A. length h \<le> a)"

lemma fresh_Un [simp]: "fresh h (A \<union> B) \<longleftrightarrow> fresh h A \<and> fresh h B"
  by (auto simp: fresh_def)

lemma fresh_simps [simp]: "fresh h {}" "fresh h (insert a A) \<longleftrightarrow> length h \<le> a \<and> fresh h A"
  by (simp_all add: fresh_def)

lemma fresh_append: "fresh (h @ es) A \<Longrightarrow> fresh h A"
  by (auto simp: fresh_def)

locale deep_copy =
  fixes copy :: "'v \<Rightarrow> ('c, 'v) hact" and val :: "'c heap \<Rightarrow> 'v \<Rightarrow> 'a option" and owns :: "'c heap \<Rightarrow> 'v \<Rightarrow> loc set"
  assumes owns_bound: "val h v = Some x \<Longrightarrow> a \<in> owns h v \<Longrightarrow> a < length h"
    and val_agree: "val h v = Some x \<Longrightarrow> agree (owns h v) h h' \<Longrightarrow> val h' v = Some x \<and> owns h' v = owns h v"
    and copies: "val h v = Some x \<Longrightarrow>
      \<exists>v' es. copy v h = Some (v', h @ es) \<and> val (h @ es) v' = Some x \<and> fresh h (owns (h @ es) v')"
begin

lemma val_append:
  assumes "val h v = Some x"
  shows "val (h @ es) v = Some x" and "owns (h @ es) v = owns h v"
  using val_agree [OF assms, of "h @ es"] owns_bound [OF assms] by auto

lemma copyE:
  assumes "val h v = Some x"
  obtains v' es where "copy v h = Some (v', h @ es)" and "val (h @ es) v' = Some x" and "fresh h (owns (h @ es) v')"
  using copies [OF assms] by blast

text \<open>
  Original and copy are separate: whatever is done later to locations that were not there before
  the copy leaves the value of the original, and whatever is done to locations that were there
  leaves the value of the copy.
\<close>

lemma original_kept:
  assumes "val h v = Some x" and "agree {a. a < length h} h h'"
  shows "val h' v = Some x"
  using val_agree [OF assms(1) agree_mono [OF assms(2)]] owns_bound [OF assms(1)] by blast

lemma copy_kept:
  assumes "val h v = Some x" and "copy v h = Some (v', h1)" and "agree {a. length h \<le> a \<and> a < length h1} h1 h'"
  shows "val h' v' = Some x"
proof -
  obtain es where e: "h1 = h @ es" "val h1 v' = Some x" "fresh h (owns h1 v')" using copyE [OF assms(1)] assms(2) by auto
  have "owns h1 v' \<subseteq> {a. length h \<le> a \<and> a < length h1}" using e owns_bound [OF e(2)] by (auto simp: fresh_def)
  then show ?thesis using val_agree [OF e(2) agree_mono [OF assms(3)]] by blast
qed

end

text \<open>Values without pointers are copied by assignment.\<close>

interpretation flat: deep_copy hret "\<lambda>h v. Some v" "\<lambda>h v. {}"
  by unfold_locales (auto simp: hret_def)

subsection \<open>Pointers\<close>

locale cell_copy = deep_copy copy val owns
  for copy :: "'v \<Rightarrow> ('c, 'v) hact" and val :: "'c heap \<Rightarrow> 'v \<Rightarrow> 'a option" and owns :: "'c heap \<Rightarrow> 'v \<Rightarrow> loc set" +
  fixes dest :: "'c \<Rightarrow> 'v option" and mk :: "'v \<Rightarrow> 'c"
  assumes dest_mk: "dest (mk v) = Some v"
begin

lemma ptr_copies:
  assumes "val_ptr dest val h p = Some x"
  shows "\<exists>p' es. copy_ptr dest mk copy p h = Some (p', h @ es) \<and> val_ptr dest val (h @ es) p' = Some x
    \<and> fresh h (owns_ptr dest owns (h @ es) p')"
proof (cases p)
  case None
  then show ?thesis using assms by (simp add: copy_ptr_def hret_def val_ptr_def owns_ptr_def)
next
  case (Some a)
  then obtain v y where v: "deref dest h a = Some v" "val h v = Some y" "x = Some y"
    using assms by (auto simp: val_ptr_def split: option.split_asm)
  from v(2) obtain v' es where c: "copy v h = Some (v', h @ es)" "val (h @ es) v' = Some y" "fresh h (owns (h @ es) v')" by (rule copyE)
  have "copy_ptr dest mk copy p h = Some (Some (length (h @ es)), h @ es @ [mk v'])"
    using Some v(1) c(1) by (simp add: copy_ptr_def hbind_def load_def new_cell_def hret_def)
  moreover have "val_ptr dest val ((h @ es) @ [mk v']) (Some (length (h @ es))) = Some x"
    using v(3) val_append(1) [OF c(2)] by (simp only: val_ptr_def deref_snoc dest_mk option.case) simp
  moreover have "owns_ptr dest owns ((h @ es) @ [mk v']) (Some (length (h @ es))) = insert (length (h @ es)) (owns (h @ es) v')"
    using val_append(2) [OF c(2)] by (simp only: owns_ptr_def deref_snoc dest_mk option.case)
  ultimately show ?thesis using c(3)
    by (intro exI [of _ "Some (length (h @ es))"] exI [of _ "es @ [mk v']"]) simp
qed

end

sublocale cell_copy \<subseteq> ptr: deep_copy "copy_ptr dest mk copy" "val_ptr dest val" "owns_ptr dest owns"
proof unfold_locales
  fix h p x
  assume p: "val_ptr dest val h p = Some x"
  show "a < length h" if "a \<in> owns_ptr dest owns h p" for a
    using p that by (auto simp: val_ptr_def owns_ptr_def deref_def split: option.split_asm if_split_asm) (metis owns_bound)
  show "val_ptr dest val h' p = Some x \<and> owns_ptr dest owns h' p = owns_ptr dest owns h p" if "agree (owns_ptr dest owns h p) h h'" for h'
  proof (cases p)
    case (Some a)
    have "deref dest h' a = deref dest h a" using that Some by (intro agree_deref [OF that]) (simp add: owns_ptr_def)
    moreover have "val h' v = Some y \<and> owns h' v = owns h v" if "deref dest h a = Some v" "val h v = Some y" for v y
      using val_agree [OF that(2)] agree_mono [OF \<open>agree (owns_ptr dest owns h p) h h'\<close>] that(1) Some by (auto simp: owns_ptr_def)
    ultimately show ?thesis using p Some by (auto simp: val_ptr_def owns_ptr_def split: option.split_asm)
  qed (use p in \<open>simp add: val_ptr_def owns_ptr_def\<close>)
  show "\<exists>p' es. copy_ptr dest mk copy p h = Some (p', h @ es) \<and> val_ptr dest val (h @ es) p' = Some x
      \<and> fresh h (owns_ptr dest owns (h @ es) p')"
    by (rule ptr_copies [OF p])
qed

subsection \<open>Slices and maps\<close>

text \<open>The elements of a slice, or the values of a map.\<close>

locale element_copy = deep_copy copy val owns
  for copy :: "'e \<Rightarrow> ('c, 'e) hact" and val :: "'c heap \<Rightarrow> 'e \<Rightarrow> 'a option" and owns :: "'c heap \<Rightarrow> 'e \<Rightarrow> loc set"
begin

lemma slice_agree:
  "val_slice val h xs = Some ys \<Longrightarrow> agree (owns_slice owns h xs) h h' \<Longrightarrow>
     val_slice val h' xs = Some ys \<and> owns_slice owns h' xs = owns_slice owns h xs"
proof (induction xs arbitrary: ys)
  case (Cons x xs)
  then obtain z zs where z: "val h x = Some z" "val_slice val h xs = Some zs" "ys = z # zs" by (auto split: option.split_asm)
  have "agree (owns h x) h h'" "agree (owns_slice owns h xs) h h'" using Cons(3) by (auto elim: agree_mono)
  then show ?case using Cons(1) [OF z(2)] val_agree [OF z(1)] z by simp
qed simp

lemma slice_bound: "val_slice val h xs = Some ys \<Longrightarrow> a \<in> owns_slice owns h xs \<Longrightarrow> a < length h"
  by (induction xs arbitrary: ys) (auto split: option.split_asm dest: owns_bound)

lemma slice_copies:
  "val_slice val h xs = Some ys \<Longrightarrow>
     \<exists>xs' es. copy_slice copy xs h = Some (xs', h @ es) \<and> val_slice val (h @ es) xs' = Some ys \<and> fresh h (owns_slice owns (h @ es) xs')"
proof (induction xs arbitrary: ys h)
  case (Cons x xs)
  then obtain z zs where z: "val h x = Some z" "val_slice val h xs = Some zs" "ys = z # zs" by (auto split: option.split_asm)
  from z(1) obtain x' es where c: "copy x h = Some (x', h @ es)" "val (h @ es) x' = Some z" "fresh h (owns (h @ es) x')" by (rule copyE)
  have "val_slice val (h @ es) xs = Some zs" using slice_agree [OF z(2), of "h @ es"] slice_bound [OF z(2)] by simp
  from Cons.IH [OF this] obtain xs' fs where r: "copy_slice copy xs (h @ es) = Some (xs', h @ es @ fs)"
    "val_slice val (h @ es @ fs) xs' = Some zs" "fresh (h @ es) (owns_slice owns (h @ es @ fs) xs')" by auto
  have "copy_slice copy (x # xs) h = Some (x' # xs', h @ es @ fs)" using c(1) r(1) by (simp add: hbind_def hret_def)
  moreover have "val (h @ es @ fs) x' = Some z" "owns (h @ es @ fs) x' = owns (h @ es) x'"
    using val_append [OF c(2), of fs] by simp_all
  ultimately show ?case using r(2) c(3) fresh_append [OF r(3)] z(3)
    by (intro exI [of _ "x' # xs'"] exI [of _ "es @ fs"]) simp
qed (simp add: hret_def)

end

sublocale element_copy \<subseteq> slice: deep_copy "copy_slice copy" "val_slice val" "owns_slice owns"
  by unfold_locales (auto dest: slice_bound slice_agree slice_copies)

lemma val_slice_length: "val_slice val h xs = Some ys \<Longrightarrow> length ys = length xs"
  by (induction xs arbitrary: ys) (auto split: option.split_asm)

lemma copy_slice_length: "copy_slice f xs h = Some (ys, h') \<Longrightarrow> length ys = length xs"
  by (induction xs arbitrary: ys h) (auto simp: hret_def hbind_def split: option.split_asm)

locale map_copy = element_copy copy val owns
  for copy :: "'e \<Rightarrow> ('c, 'e) hact" and val :: "'c heap \<Rightarrow> 'e \<Rightarrow> 'a option" and owns :: "'c heap \<Rightarrow> 'e \<Rightarrow> loc set"

sublocale map_copy \<subseteq> entries: deep_copy "\<lambda>es. copy_entries copy es []" "val_entries val" "owns_entries owns"
proof unfold_locales
  fix h :: "'c heap" and es x
  assume x: "val_entries val h es = Some x"
  then obtain ys where d: "distinct (map fst es)" and ys: "val_slice val h (map snd es) = Some ys" "x = zip (map fst es) ys"
    by (auto simp: val_entries_def split: if_split_asm)
  show "a < length h" if "a \<in> owns_entries owns h es" for a using slice_bound [OF ys(1)] that by (simp add: owns_entries_def)
  show "val_entries val h' es = Some x \<and> owns_entries owns h' es = owns_entries owns h es" if "agree (owns_entries owns h es) h h'" for h'
    using slice_agree [OF ys(1), of h'] that d ys(2) by (simp add: owns_entries_def val_entries_def)
  obtain vs fs where c: "copy_slice copy (map snd es) h = Some (vs, h @ fs)" "val_slice val (h @ fs) vs = Some ys"
    "fresh h (owns_slice owns (h @ fs) vs)" using slice_copies [OF ys(1)] by blast
  have l: "length vs = length es" using copy_slice_length [OF c(1)] by simp
  have "copy_entries copy es [] h = Some (zip (map fst es) vs, h @ fs)"
    using copy_entries_slice [of "[]" es copy] d c(1) by (simp add: hbind_def hret_def)
  then show "\<exists>v' fs. copy_entries copy es [] h = Some (v', h @ fs) \<and> val_entries val (h @ fs) v' = Some x
      \<and> fresh h (owns_entries owns (h @ fs) v')"
    using c(2,3) d l ys(2) by (auto simp: val_entries_def owns_entries_def)
qed

subsection \<open>Pairs and structs\<close>

definition copy_pair :: "('u \<Rightarrow> ('c, 'u) hact) \<Rightarrow> ('v \<Rightarrow> ('c, 'v) hact) \<Rightarrow> 'u \<times> 'v \<Rightarrow> ('c, 'u \<times> 'v) hact" where
  "copy_pair f g p = hbind (f (fst p)) (\<lambda>u. hbind (g (snd p)) (\<lambda>v. hret (u, v)))"

definition val_pair :: "('c heap \<Rightarrow> 'u \<Rightarrow> 'a option) \<Rightarrow> ('c heap \<Rightarrow> 'v \<Rightarrow> 'b option) \<Rightarrow> 'c heap \<Rightarrow> 'u \<times> 'v \<Rightarrow> ('a \<times> 'b) option" where
  "val_pair f g h p = (case f h (fst p) of None \<Rightarrow> None | Some x \<Rightarrow> map_option (Pair x) (g h (snd p)))"

definition owns_pair :: "('c heap \<Rightarrow> 'u \<Rightarrow> loc set) \<Rightarrow> ('c heap \<Rightarrow> 'v \<Rightarrow> loc set) \<Rightarrow> 'c heap \<Rightarrow> 'u \<times> 'v \<Rightarrow> loc set" where
  "owns_pair f g h p = f h (fst p) \<union> g h (snd p)"

locale pair_copy = left: deep_copy copy1 val1 owns1 + right: deep_copy copy2 val2 owns2
  for copy1 :: "'u \<Rightarrow> ('c, 'u) hact" and val1 :: "'c heap \<Rightarrow> 'u \<Rightarrow> 'a option" and owns1 :: "'c heap \<Rightarrow> 'u \<Rightarrow> loc set"
    and copy2 :: "'v \<Rightarrow> ('c, 'v) hact" and val2 :: "'c heap \<Rightarrow> 'v \<Rightarrow> 'b option" and owns2 :: "'c heap \<Rightarrow> 'v \<Rightarrow> loc set"

sublocale pair_copy \<subseteq> pair: deep_copy "copy_pair copy1 copy2" "val_pair val1 val2" "owns_pair owns1 owns2"
proof unfold_locales
  fix h p x
  assume p: "val_pair val1 val2 h p = Some x"
  then obtain y z where y: "val1 h (fst p) = Some y" and z: "val2 h (snd p) = Some z" and x: "x = (y, z)"
    by (auto simp: val_pair_def split: option.split_asm)
  show "a < length h" if "a \<in> owns_pair owns1 owns2 h p" for a
    using left.owns_bound [OF y] right.owns_bound [OF z] that by (auto simp: owns_pair_def)
  show "val_pair val1 val2 h' p = Some x \<and> owns_pair owns1 owns2 h' p = owns_pair owns1 owns2 h p" if "agree (owns_pair owns1 owns2 h p) h h'" for h'
    using left.val_agree [OF y agree_mono [OF that]] right.val_agree [OF z agree_mono [OF that]] x by (auto simp: val_pair_def owns_pair_def)
  from y obtain u es where u: "copy1 (fst p) h = Some (u, h @ es)" "val1 (h @ es) u = Some y" "fresh h (owns1 (h @ es) u)" by (rule left.copyE)
  from right.val_append(1) [OF z, of es] obtain v fs where v: "copy2 (snd p) (h @ es) = Some (v, (h @ es) @ fs)"
    "val2 ((h @ es) @ fs) v = Some z" "fresh (h @ es) (owns2 ((h @ es) @ fs) v)" by (rule right.copyE)
  have "copy_pair copy1 copy2 p h = Some ((u, v), h @ es @ fs)" using u(1) v(1) by (simp add: copy_pair_def hbind_def hret_def)
  moreover have "val_pair val1 val2 (h @ es @ fs) (u, v) = Some x"
    using left.val_append(1) [OF u(2), of fs] v(2) x by (simp add: val_pair_def)
  moreover have "fresh h (owns_pair owns1 owns2 (h @ es @ fs) (u, v))"
    using left.val_append(2) [OF u(2), of fs] u(3) fresh_append [OF v(3)] by (simp add: owns_pair_def)
  ultimately show "\<exists>v' es. copy_pair copy1 copy2 p h = Some (v', h @ es) \<and> val_pair val1 val2 (h @ es) v' = Some x
      \<and> fresh h (owns_pair owns1 owns2 (h @ es) v')" by blast
qed

text \<open>
  \<open>*out = *in\<close> followed by the copy of the members that are or hold pointers. \<open>get\<close> and \<open>put\<close> read and
  write these members, and \<open>build\<close> makes the value of the struct from theirs.
\<close>

locale struct_copy = deep_copy copy val owns
  for copy :: "'f \<Rightarrow> ('c, 'f) hact" and val :: "'c heap \<Rightarrow> 'f \<Rightarrow> 'a option" and owns :: "'c heap \<Rightarrow> 'f \<Rightarrow> loc set" +
  fixes get :: "'s \<Rightarrow> 'f" and put :: "'s \<Rightarrow> 'f \<Rightarrow> 's" and build :: "'s \<Rightarrow> 'a \<Rightarrow> 'b"
  assumes get_put: "get (put s f) = f" and build_put: "build (put s f) = build s"

sublocale struct_copy \<subseteq> struct: deep_copy "\<lambda>s. hbind (copy (get s)) (\<lambda>f. hret (put s f))"
  "\<lambda>h s. map_option (build s) (val h (get s))" "\<lambda>h s. owns h (get s)"
proof unfold_locales
  fix h s x
  assume "map_option (build s) (val h (get s)) = Some x"
  then obtain y where y: "val h (get s) = Some y" "x = build s y" by blast
  show "a < length h" if "a \<in> owns h (get s)" for a by (rule owns_bound [OF y(1) that])
  show "map_option (build s) (val h' (get s)) = Some x \<and> owns h' (get s) = owns h (get s)" if "agree (owns h (get s)) h h'" for h'
    using val_agree [OF y(1) that] y(2) by simp
  from y(1) obtain f es where "copy (get s) h = Some (f, h @ es)" "val (h @ es) f = Some y" "fresh h (owns (h @ es) f)" by (rule copyE)
  then show "\<exists>v' es. hbind (copy (get s)) (\<lambda>f. hret (put s f)) h = Some (v', h @ es)
      \<and> map_option (build v') (val (h @ es) (get v')) = Some x \<and> fresh h (owns (h @ es) (get v'))"
    by (intro exI [of _ "put s f"] exI [of _ es]) (simp add: hbind_def hret_def get_put build_put y(2))
qed

subsection \<open>Contracts by composition\<close>

text \<open>The contracts of the composed copies as rules, to derive the one of a struct from those of its members.\<close>

context cell_copy
begin

lemma ptr_contract: "deep_copy (copy_ptr dest mk copy) (val_ptr dest val) (owns_ptr dest owns)"
  by (rule ptr.deep_copy_axioms)

end

context map_copy
begin

lemma slice_contract: "deep_copy (copy_slice copy) (val_slice val) (owns_slice owns)"
  by (rule slice.deep_copy_axioms)

lemma entries_contract: "deep_copy (\<lambda>es. copy_entries copy es []) (val_entries val) (owns_entries owns)"
  by (rule entries.deep_copy_axioms)

end

context pair_copy
begin

lemma pair_contract: "deep_copy (copy_pair copy1 copy2) (val_pair val1 val2) (owns_pair owns1 owns2)"
  by (rule pair.deep_copy_axioms)

end

context struct_copy
begin

lemma struct_contract: "deep_copy (\<lambda>s. hbind (copy (get s)) (\<lambda>f. hret (put s f))) (\<lambda>h s. map_option (build s) (val h (get s))) (\<lambda>h s. owns h (get s))"
  by (rule struct.deep_copy_axioms)

end

named_theorems contracts \<open>the contracts of composed copies\<close>

lemma cell_copyI: "deep_copy copy val owns \<Longrightarrow> (\<And>v. dest (mk v) = Some v) \<Longrightarrow> cell_copy copy val owns dest mk"
  by (simp add: cell_copy_def cell_copy_axioms_def)

lemma map_copyI: "deep_copy copy val owns \<Longrightarrow> map_copy copy val owns"
  by (simp add: map_copy_def element_copy_def)

lemma pair_copyI: "deep_copy f v w \<Longrightarrow> deep_copy f' v' w' \<Longrightarrow> pair_copy f v w f' v' w'"
  by (simp add: pair_copy_def)

lemma copy_flat [contracts]: "deep_copy hret (\<lambda>h v. Some v) (\<lambda>h v. {})"
  by (rule flat.deep_copy_axioms)

lemma copy_ptr_contract [contracts]:
  "deep_copy copy val owns \<Longrightarrow> (\<And>v. dest (mk v) = Some v) \<Longrightarrow> deep_copy (copy_ptr dest mk copy) (val_ptr dest val) (owns_ptr dest owns)"
  by (rule cell_copy.ptr_contract [OF cell_copyI])

lemmas copy_slice_contract [contracts] = map_copy.slice_contract [OF map_copyI]
lemmas copy_entries_contract [contracts] = map_copy.entries_contract [OF map_copyI]
lemmas copy_pair_contract [contracts] = pair_copy.pair_contract [OF pair_copyI]

text \<open>A copy that is written as the struct rule has it.\<close>

lemma struct_contractI:
  assumes "deep_copy copy val owns" and "\<And>s f. get (put s f) = f" and "\<And>s f. build (put s f) = build s"
    and "\<And>s. into s = hbind (copy (get s)) (\<lambda>f. hret (put s f))" and "\<And>h s. sval h s = map_option (build s) (val h (get s))"
    and "\<And>h s. sowns h s = owns h (get s)"
  shows "deep_copy into sval sowns"
proof -
  have eqs: "into = (\<lambda>s. hbind (copy (get s)) (\<lambda>f. hret (put s f)))" "sval = (\<lambda>h s. map_option (build s) (val h (get s)))"
    "sowns = (\<lambda>h s. owns h (get s))" using assms(4-6) by (simp_all add: fun_eq_iff)
  have "struct_copy copy val owns get put build" using assms(1-3) by (simp add: struct_copy_def struct_copy_axioms_def)
  from struct_copy.struct_contract [OF this] show ?thesis unfolding eqs .
qed

end
