(* ===== verification/Deep_Copy.thy ===== *)
theory Deep_Copy
  imports Go_Heap Api_Types
begin

text \<open>
  The generated deep copies, api/v1alpha1/zz_generated.deepcopy.go, on a heap, with the two copies of
  apimachinery that they call. The structs here are those of Api_Types with locations in place of
  pointers, maps and slices: a map is a location of its entries, a slice one of its elements (the
  copies make slices whose length is their capacity). As in Api_Types the embedded TypeMeta and
  ListMeta, the members of ObjectMeta that the operator never uses and the member Object of
  RawExtension, nil in everything that was decoded from JSON, are left out.

  \<open>raw_val\<close>, \<open>table_val\<close> and so on read the value of a struct of Api_Types off the heap; they are
  undefined where a location does not lead to a cell of its type or a map repeats a key. Each copy is
  shown to satisfy the contract \<open>deep_copy\<close> from the contracts of the members.
\<close>

subsection \<open>Structs and cells\<close>

record pRawExtension =
  pr_Raw :: "loc option"

record pTableObject =
  pt_Enabled :: bool
  pt_Columns :: "loc option"
  pt_SyncMode :: string

record pSchemaObject =
  ps_Enabled :: bool
  ps_Tables :: "loc option"

record pConnectorSchemaConfig =
  pcs_Schemas :: "loc option"
  pcs_SchemaChangeHandling :: string
  pcs_ValidationLevel :: string

record pConnector =
  pc_GroupID :: string
  pc_Service :: string
  pc_Auth :: "loc option"
  pc_Config :: "loc option"
  pc_DailySyncTime :: string
  pc_SyncFrequency :: int
  pc_ScheduleType :: string
  pc_Paused :: "loc option"
  pc_RunSetupTests :: "loc option"
  pc_PauseAfterTrial :: "loc option"
  pc_TrustCertificates :: "loc option"
  pc_TrustFingerprints :: "loc option"
  pc_DataDelaySensitivity :: string
  pc_DataDelayThreshold :: int
  pc_NetworkingMethod :: string
  pc_ProxyAgentID :: string
  pc_PrivateLinkID :: string
  pc_HybridDeploymentAgentID :: string

record pFivetranConnectorSpec =
  psp_Connector :: pConnector
  psp_ConnectorSchemas :: "loc option"

record pFivetranConnectorStatus =
  pst_ConnectorURL :: string
  pst_ConnectorID :: string
  pst_Conditions :: "loc option"

record pObjectMeta =
  pm_Name :: string
  pm_Namespace :: string
  pm_Generation :: int
  pm_Labels :: "loc option"
  pm_Annotations :: "loc option"
  pm_Finalizers :: "loc option"
  pm_DeletionTimestamp :: "loc option"

record pFivetranConnector =
  pf_Meta :: pObjectMeta
  pf_Spec :: pFivetranConnectorSpec
  pf_Status :: pFivetranConnectorStatus

record pFivetranConnectorList =
  pl_Items :: "loc option"

datatype cell =
    BoolCell bool
  | BytesCell string
  | TimeCell nat
  | StringMapCell "(string \<times> string) list"
  | StringsCell "string list"
  | ConditionsCell "Condition list"
  | RawCell pRawExtension
  | ColumnCell ColumnObject
  | ColumnMapCell "(string \<times> loc option) list"
  | TableCell pTableObject
  | TableMapCell "(string \<times> loc option) list"
  | SchemaCell pSchemaObject
  | SchemaMapCell "(string \<times> loc option) list"
  | ConfigCell pConnectorSchemaConfig
  | ConnectorCell pConnector
  | SpecCell pFivetranConnectorSpec
  | StatusCell pFivetranConnectorStatus
  | ResourceCell pFivetranConnector
  | ItemsCell "pFivetranConnector list"
  | ResourceListCell pFivetranConnectorList

type_synonym mem = "cell heap"

text \<open>The contents of a cell of each type.\<close>

definition cell_bool :: "cell \<Rightarrow> bool option" where
  "cell_bool c = (case c of BoolCell x \<Rightarrow> Some x | _ \<Rightarrow> None)"
definition cell_bytes :: "cell \<Rightarrow> string option" where
  "cell_bytes c = (case c of BytesCell x \<Rightarrow> Some x | _ \<Rightarrow> None)"
definition cell_time :: "cell \<Rightarrow> nat option" where
  "cell_time c = (case c of TimeCell x \<Rightarrow> Some x | _ \<Rightarrow> None)"
definition cell_strmap :: "cell \<Rightarrow> ((string \<times> string) list) option" where
  "cell_strmap c = (case c of StringMapCell x \<Rightarrow> Some x | _ \<Rightarrow> None)"
definition cell_strings :: "cell \<Rightarrow> (string list) option" where
  "cell_strings c = (case c of StringsCell x \<Rightarrow> Some x | _ \<Rightarrow> None)"
definition cell_conditions :: "cell \<Rightarrow> (Condition list) option" where
  "cell_conditions c = (case c of ConditionsCell x \<Rightarrow> Some x | _ \<Rightarrow> None)"
definition cell_raw :: "cell \<Rightarrow> pRawExtension option" where
  "cell_raw c = (case c of RawCell x \<Rightarrow> Some x | _ \<Rightarrow> None)"
definition cell_column :: "cell \<Rightarrow> ColumnObject option" where
  "cell_column c = (case c of ColumnCell x \<Rightarrow> Some x | _ \<Rightarrow> None)"
definition cell_columns :: "cell \<Rightarrow> ((string \<times> loc option) list) option" where
  "cell_columns c = (case c of ColumnMapCell x \<Rightarrow> Some x | _ \<Rightarrow> None)"
definition cell_table :: "cell \<Rightarrow> pTableObject option" where
  "cell_table c = (case c of TableCell x \<Rightarrow> Some x | _ \<Rightarrow> None)"
definition cell_tables :: "cell \<Rightarrow> ((string \<times> loc option) list) option" where
  "cell_tables c = (case c of TableMapCell x \<Rightarrow> Some x | _ \<Rightarrow> None)"
definition cell_schema :: "cell \<Rightarrow> pSchemaObject option" where
  "cell_schema c = (case c of SchemaCell x \<Rightarrow> Some x | _ \<Rightarrow> None)"
definition cell_schemas :: "cell \<Rightarrow> ((string \<times> loc option) list) option" where
  "cell_schemas c = (case c of SchemaMapCell x \<Rightarrow> Some x | _ \<Rightarrow> None)"
definition cell_config :: "cell \<Rightarrow> pConnectorSchemaConfig option" where
  "cell_config c = (case c of ConfigCell x \<Rightarrow> Some x | _ \<Rightarrow> None)"
definition cell_connector :: "cell \<Rightarrow> pConnector option" where
  "cell_connector c = (case c of ConnectorCell x \<Rightarrow> Some x | _ \<Rightarrow> None)"
definition cell_spec :: "cell \<Rightarrow> pFivetranConnectorSpec option" where
  "cell_spec c = (case c of SpecCell x \<Rightarrow> Some x | _ \<Rightarrow> None)"
definition cell_status :: "cell \<Rightarrow> pFivetranConnectorStatus option" where
  "cell_status c = (case c of StatusCell x \<Rightarrow> Some x | _ \<Rightarrow> None)"
definition cell_resource :: "cell \<Rightarrow> pFivetranConnector option" where
  "cell_resource c = (case c of ResourceCell x \<Rightarrow> Some x | _ \<Rightarrow> None)"
definition cell_items :: "cell \<Rightarrow> (pFivetranConnector list) option" where
  "cell_items c = (case c of ItemsCell x \<Rightarrow> Some x | _ \<Rightarrow> None)"
definition cell_resources :: "cell \<Rightarrow> pFivetranConnectorList option" where
  "cell_resources c = (case c of ResourceListCell x \<Rightarrow> Some x | _ \<Rightarrow> None)"

lemma cell_simps [simp]:
  "cell_bool (BoolCell x1) = Some x1"
  "cell_bytes (BytesCell x2) = Some x2"
  "cell_time (TimeCell x3) = Some x3"
  "cell_strmap (StringMapCell x4) = Some x4"
  "cell_strings (StringsCell x5) = Some x5"
  "cell_conditions (ConditionsCell x6) = Some x6"
  "cell_raw (RawCell x7) = Some x7"
  "cell_column (ColumnCell x8) = Some x8"
  "cell_columns (ColumnMapCell x9) = Some x9"
  "cell_table (TableCell x10) = Some x10"
  "cell_tables (TableMapCell x11) = Some x11"
  "cell_schema (SchemaCell x12) = Some x12"
  "cell_schemas (SchemaMapCell x13) = Some x13"
  "cell_config (ConfigCell x14) = Some x14"
  "cell_connector (ConnectorCell x15) = Some x15"
  "cell_spec (SpecCell x16) = Some x16"
  "cell_status (StatusCell x17) = Some x17"
  "cell_resource (ResourceCell x18) = Some x18"
  "cell_items (ItemsCell x19) = Some x19"
  "cell_resources (ResourceListCell x20) = Some x20"
  by (simp_all add: cell_bool_def cell_bytes_def cell_time_def cell_strmap_def cell_strings_def cell_conditions_def cell_raw_def cell_column_def cell_columns_def cell_table_def cell_tables_def cell_schema_def cell_schemas_def cell_config_def cell_connector_def cell_spec_def cell_status_def cell_resource_def cell_items_def cell_resources_def)

subsection \<open>The copies\<close>

definition RawExtension_DeepCopyInto :: "pRawExtension \<Rightarrow> (cell, pRawExtension) hact" where
  "RawExtension_DeepCopyInto i =
     hbind (copy_ptr cell_bytes BytesCell hret (pr_Raw i)) (\<lambda>raw. hret (i\<lparr>pr_Raw := raw\<rparr>))"

definition RawExtension_DeepCopy :: "loc option \<Rightarrow> (cell, loc option) hact" where
  "RawExtension_DeepCopy = copy_ptr cell_raw RawCell RawExtension_DeepCopyInto"

definition ColumnObject_DeepCopyInto :: "ColumnObject \<Rightarrow> (cell, ColumnObject) hact" where
  "ColumnObject_DeepCopyInto i = hret i"

definition ColumnObject_DeepCopy :: "loc option \<Rightarrow> (cell, loc option) hact" where
  "ColumnObject_DeepCopy = copy_ptr cell_column ColumnCell ColumnObject_DeepCopyInto"

text \<open>A copy of a map of pointers: \<open>make\<close> and the loop. A nil map stays nil.\<close>

definition copy_map ::
  "(cell \<Rightarrow> (string \<times> 'e) list option) \<Rightarrow> ((string \<times> 'e) list \<Rightarrow> cell) \<Rightarrow> ('e \<Rightarrow> (cell, 'e) hact) \<Rightarrow> loc option \<Rightarrow> (cell, loc option) hact" where
  "copy_map dest mk f = copy_ptr dest mk (\<lambda>es. copy_entries f es [])"

definition TableObject_DeepCopyInto :: "pTableObject \<Rightarrow> (cell, pTableObject) hact" where
  "TableObject_DeepCopyInto i =
     hbind (copy_map cell_columns ColumnMapCell (copy_ptr cell_column ColumnCell hret) (pt_Columns i)) (\<lambda>columns.
     hret (i\<lparr>pt_Columns := columns\<rparr>))"

definition TableObject_DeepCopy :: "loc option \<Rightarrow> (cell, loc option) hact" where
  "TableObject_DeepCopy = copy_ptr cell_table TableCell TableObject_DeepCopyInto"

definition SchemaObject_DeepCopyInto :: "pSchemaObject \<Rightarrow> (cell, pSchemaObject) hact" where
  "SchemaObject_DeepCopyInto i =
     hbind (copy_map cell_tables TableMapCell (copy_ptr cell_table TableCell TableObject_DeepCopyInto) (ps_Tables i)) (\<lambda>tables.
     hret (i\<lparr>ps_Tables := tables\<rparr>))"

definition SchemaObject_DeepCopy :: "loc option \<Rightarrow> (cell, loc option) hact" where
  "SchemaObject_DeepCopy = copy_ptr cell_schema SchemaCell SchemaObject_DeepCopyInto"

definition ConnectorSchemaConfig_DeepCopyInto :: "pConnectorSchemaConfig \<Rightarrow> (cell, pConnectorSchemaConfig) hact" where
  "ConnectorSchemaConfig_DeepCopyInto i =
     hbind (copy_map cell_schemas SchemaMapCell (copy_ptr cell_schema SchemaCell SchemaObject_DeepCopyInto) (pcs_Schemas i)) (\<lambda>schemas.
     hret (i\<lparr>pcs_Schemas := schemas\<rparr>))"

definition ConnectorSchemaConfig_DeepCopy :: "loc option \<Rightarrow> (cell, loc option) hact" where
  "ConnectorSchemaConfig_DeepCopy = copy_ptr cell_config ConfigCell ConnectorSchemaConfig_DeepCopyInto"

definition Connector_DeepCopyInto :: "pConnector \<Rightarrow> (cell, pConnector) hact" where
  "Connector_DeepCopyInto i =
     hbind (copy_ptr cell_raw RawCell RawExtension_DeepCopyInto (pc_Auth i)) (\<lambda>auth.
     hbind (copy_ptr cell_raw RawCell RawExtension_DeepCopyInto (pc_Config i)) (\<lambda>config.
     hbind (copy_ptr cell_bool BoolCell hret (pc_Paused i)) (\<lambda>paused.
     hbind (copy_ptr cell_bool BoolCell hret (pc_RunSetupTests i)) (\<lambda>runSetupTests.
     hbind (copy_ptr cell_bool BoolCell hret (pc_PauseAfterTrial i)) (\<lambda>pauseAfterTrial.
     hbind (copy_ptr cell_bool BoolCell hret (pc_TrustCertificates i)) (\<lambda>trustCertificates.
     hbind (copy_ptr cell_bool BoolCell hret (pc_TrustFingerprints i)) (\<lambda>trustFingerprints.
     hret (i\<lparr>pc_Auth := auth, pc_Config := config, pc_Paused := paused, pc_RunSetupTests := runSetupTests,
       pc_PauseAfterTrial := pauseAfterTrial, pc_TrustCertificates := trustCertificates, pc_TrustFingerprints := trustFingerprints\<rparr>))))))))"

definition Connector_DeepCopy :: "loc option \<Rightarrow> (cell, loc option) hact" where
  "Connector_DeepCopy = copy_ptr cell_connector ConnectorCell Connector_DeepCopyInto"

definition FivetranConnectorSpec_DeepCopyInto :: "pFivetranConnectorSpec \<Rightarrow> (cell, pFivetranConnectorSpec) hact" where
  "FivetranConnectorSpec_DeepCopyInto i =
     hbind (Connector_DeepCopyInto (psp_Connector i)) (\<lambda>connector.
     hbind (copy_ptr cell_config ConfigCell ConnectorSchemaConfig_DeepCopyInto (psp_ConnectorSchemas i)) (\<lambda>schemas.
     hret (i\<lparr>psp_Connector := connector, psp_ConnectorSchemas := schemas\<rparr>)))"

definition FivetranConnectorSpec_DeepCopy :: "loc option \<Rightarrow> (cell, loc option) hact" where
  "FivetranConnectorSpec_DeepCopy = copy_ptr cell_spec SpecCell FivetranConnectorSpec_DeepCopyInto"

text \<open>A condition has no pointers: its copy is an assignment.\<close>

definition FivetranConnectorStatus_DeepCopyInto :: "pFivetranConnectorStatus \<Rightarrow> (cell, pFivetranConnectorStatus) hact" where
  "FivetranConnectorStatus_DeepCopyInto i =
     hbind (copy_ptr cell_conditions ConditionsCell (copy_slice hret) (pst_Conditions i)) (\<lambda>conditions.
     hret (i\<lparr>pst_Conditions := conditions\<rparr>))"

definition FivetranConnectorStatus_DeepCopy :: "loc option \<Rightarrow> (cell, loc option) hact" where
  "FivetranConnectorStatus_DeepCopy = copy_ptr cell_status StatusCell FivetranConnectorStatus_DeepCopyInto"

definition ObjectMeta_DeepCopyInto :: "pObjectMeta \<Rightarrow> (cell, pObjectMeta) hact" where
  "ObjectMeta_DeepCopyInto i =
     hbind (copy_ptr cell_time TimeCell hret (pm_DeletionTimestamp i)) (\<lambda>deletionTimestamp.
     hbind (copy_map cell_strmap StringMapCell hret (pm_Labels i)) (\<lambda>labels.
     hbind (copy_map cell_strmap StringMapCell hret (pm_Annotations i)) (\<lambda>annotations.
     hbind (copy_ptr cell_strings StringsCell hret (pm_Finalizers i)) (\<lambda>finalizers.
     hret (i\<lparr>pm_DeletionTimestamp := deletionTimestamp, pm_Labels := labels, pm_Annotations := annotations,
       pm_Finalizers := finalizers\<rparr>)))))"

definition FivetranConnector_DeepCopyInto :: "pFivetranConnector \<Rightarrow> (cell, pFivetranConnector) hact" where
  "FivetranConnector_DeepCopyInto i =
     hbind (ObjectMeta_DeepCopyInto (pf_Meta i)) (\<lambda>objectMeta.
     hbind (FivetranConnectorSpec_DeepCopyInto (pf_Spec i)) (\<lambda>spec.
     hbind (FivetranConnectorStatus_DeepCopyInto (pf_Status i)) (\<lambda>status.
     hret (i\<lparr>pf_Meta := objectMeta, pf_Spec := spec, pf_Status := status\<rparr>))))"

definition FivetranConnector_DeepCopy :: "loc option \<Rightarrow> (cell, loc option) hact" where
  "FivetranConnector_DeepCopy = copy_ptr cell_resource ResourceCell FivetranConnector_DeepCopyInto"

text \<open>The interface value of type \<open>runtime.Object\<close> is nil or holds the pointer.\<close>

definition FivetranConnector_DeepCopyObject :: "loc option \<Rightarrow> (cell, loc option) hact" where
  "FivetranConnector_DeepCopyObject i =
     hbind (FivetranConnector_DeepCopy i) (\<lambda>c. case c of Some a \<Rightarrow> hret (Some a) | None \<Rightarrow> hret None)"

definition FivetranConnectorList_DeepCopyInto :: "pFivetranConnectorList \<Rightarrow> (cell, pFivetranConnectorList) hact" where
  "FivetranConnectorList_DeepCopyInto i =
     hbind (copy_ptr cell_items ItemsCell (copy_slice FivetranConnector_DeepCopyInto) (pl_Items i)) (\<lambda>items.
     hret (i\<lparr>pl_Items := items\<rparr>))"

definition FivetranConnectorList_DeepCopy :: "loc option \<Rightarrow> (cell, loc option) hact" where
  "FivetranConnectorList_DeepCopy = copy_ptr cell_resources ResourceListCell FivetranConnectorList_DeepCopyInto"

definition FivetranConnectorList_DeepCopyObject :: "loc option \<Rightarrow> (cell, loc option) hact" where
  "FivetranConnectorList_DeepCopyObject i =
     hbind (FivetranConnectorList_DeepCopy i) (\<lambda>c. case c of Some a \<Rightarrow> hret (Some a) | None \<Rightarrow> hret None)"

subsection \<open>Values and contracts\<close>

abbreviation flat_val :: "mem \<Rightarrow> 'v \<Rightarrow> 'v option" where "flat_val h v \<equiv> Some v"
abbreviation flat_owns :: "mem \<Rightarrow> 'v \<Rightarrow> loc set" where "flat_owns h v \<equiv> {}"

interpretation bool_cell: cell_copy hret flat_val flat_owns cell_bool BoolCell by unfold_locales simp
interpretation bytes_cell: cell_copy hret flat_val flat_owns cell_bytes BytesCell by unfold_locales simp
interpretation time_cell: cell_copy hret flat_val flat_owns cell_time TimeCell by unfold_locales simp
interpretation strings_cell: cell_copy hret flat_val flat_owns cell_strings StringsCell by unfold_locales simp
interpretation column_cell: cell_copy hret flat_val flat_owns cell_column ColumnCell by unfold_locales simp

text \<open>The bytes of a configuration.\<close>

definition raw_val :: "mem \<Rightarrow> pRawExtension \<Rightarrow> RawExtension option" where
  "raw_val h i = map_option (\<lambda>x. \<lparr>Raw = x\<rparr>) (val_ptr cell_bytes flat_val h (pr_Raw i))"

definition raw_owns :: "mem \<Rightarrow> pRawExtension \<Rightarrow> loc set" where
  "raw_owns h i = owns_ptr cell_bytes flat_owns h (pr_Raw i)"

interpretation raw_struct: struct_copy "copy_ptr cell_bytes BytesCell hret" "val_ptr cell_bytes flat_val" "owns_ptr cell_bytes flat_owns"
  pr_Raw "\<lambda>i f. i\<lparr>pr_Raw := f\<rparr>" "\<lambda>i x. \<lparr>Raw = x\<rparr>"
  by unfold_locales simp_all

interpretation raw: cell_copy RawExtension_DeepCopyInto raw_val raw_owns cell_raw RawCell
  by (rule cell_copyI)
    (use raw_struct.struct.deep_copy_axioms in \<open>simp_all add: RawExtension_DeepCopyInto_def [abs_def] raw_val_def [abs_def] raw_owns_def [abs_def]\<close>)

text \<open>Maps of pointers: their values and the contract of \<open>copy_map\<close>.\<close>

definition map_val :: "(cell \<Rightarrow> (string \<times> 'e) list option) \<Rightarrow> (mem \<Rightarrow> 'e \<Rightarrow> 'a option) \<Rightarrow> mem \<Rightarrow> loc option \<Rightarrow> 'a gomap option" where
  "map_val dest val = val_ptr dest (val_entries val)"

definition map_owns :: "(cell \<Rightarrow> (string \<times> 'e) list option) \<Rightarrow> (mem \<Rightarrow> 'e \<Rightarrow> loc set) \<Rightarrow> mem \<Rightarrow> loc option \<Rightarrow> loc set" where
  "map_owns dest owns = owns_ptr dest (owns_entries owns)"

lemma copy_map_contract [contracts]:
  "deep_copy f val owns \<Longrightarrow> (\<And>es. dest (mk es) = Some es) \<Longrightarrow> deep_copy (copy_map dest mk f) (map_val dest val) (map_owns dest owns)"
  unfolding copy_map_def map_val_def map_owns_def by (intro contracts)

text \<open>The parts of a schema configuration.\<close>

definition table_val :: "mem \<Rightarrow> pTableObject \<Rightarrow> TableObject option" where
  "table_val h i = map_option (\<lambda>c. \<lparr>to_Enabled = pt_Enabled i, to_Columns = c, to_SyncMode = pt_SyncMode i\<rparr>)
     (map_val cell_columns (val_ptr cell_column flat_val) h (pt_Columns i))"

definition table_owns :: "mem \<Rightarrow> pTableObject \<Rightarrow> loc set" where
  "table_owns h i = map_owns cell_columns (owns_ptr cell_column flat_owns) h (pt_Columns i)"

interpretation columns: map_copy "copy_ptr cell_column ColumnCell hret" "val_ptr cell_column flat_val" "owns_ptr cell_column flat_owns"
  by (intro map_copyI contracts) simp

interpretation table: cell_copy TableObject_DeepCopyInto table_val table_owns cell_table TableCell
proof (rule cell_copyI)
  show "deep_copy TableObject_DeepCopyInto table_val table_owns"
    by (rule struct_contractI [where get = pt_Columns and put = "\<lambda>i c. i\<lparr>pt_Columns := c\<rparr>",
          OF copy_map_contract [OF column_cell.ptr_contract, of cell_columns ColumnMapCell]])
      (simp_all add: TableObject_DeepCopyInto_def table_val_def table_owns_def)
qed simp

definition schema_val :: "mem \<Rightarrow> pSchemaObject \<Rightarrow> SchemaObject option" where
  "schema_val h i = map_option (\<lambda>t. \<lparr>so_Enabled = ps_Enabled i, so_Tables = t\<rparr>)
     (map_val cell_tables (val_ptr cell_table table_val) h (ps_Tables i))"

definition schema_owns :: "mem \<Rightarrow> pSchemaObject \<Rightarrow> loc set" where
  "schema_owns h i = map_owns cell_tables (owns_ptr cell_table table_owns) h (ps_Tables i)"

interpretation schema: cell_copy SchemaObject_DeepCopyInto schema_val schema_owns cell_schema SchemaCell
proof (rule cell_copyI)
  show "deep_copy SchemaObject_DeepCopyInto schema_val schema_owns"
    by (rule struct_contractI [where get = ps_Tables and put = "\<lambda>i c. i\<lparr>ps_Tables := c\<rparr>",
          OF copy_map_contract [OF table.ptr_contract, of cell_tables TableMapCell]])
      (simp_all add: SchemaObject_DeepCopyInto_def schema_val_def schema_owns_def)
qed simp

definition config_val :: "mem \<Rightarrow> pConnectorSchemaConfig \<Rightarrow> ConnectorSchemaConfig option" where
  "config_val h i = map_option (\<lambda>s. \<lparr>csc_Schemas = s, csc_SchemaChangeHandling = pcs_SchemaChangeHandling i,
       csc_ValidationLevel = pcs_ValidationLevel i\<rparr>)
     (map_val cell_schemas (val_ptr cell_schema schema_val) h (pcs_Schemas i))"

definition config_owns :: "mem \<Rightarrow> pConnectorSchemaConfig \<Rightarrow> loc set" where
  "config_owns h i = map_owns cell_schemas (owns_ptr cell_schema schema_owns) h (pcs_Schemas i)"

interpretation config: cell_copy ConnectorSchemaConfig_DeepCopyInto config_val config_owns cell_config ConfigCell
proof (rule cell_copyI)
  show "deep_copy ConnectorSchemaConfig_DeepCopyInto config_val config_owns"
    by (rule struct_contractI [where get = pcs_Schemas and put = "\<lambda>i c. i\<lparr>pcs_Schemas := c\<rparr>",
          OF copy_map_contract [OF schema.ptr_contract, of cell_schemas SchemaMapCell]])
      (simp_all add: ConnectorSchemaConfig_DeepCopyInto_def config_val_def config_owns_def)
qed simp

text \<open>The connector: two configurations and five pointers to truth values, as nested pairs.\<close>

abbreviation raw_ptr_val :: "mem \<Rightarrow> loc option \<Rightarrow> RawExtension option option" where
  "raw_ptr_val \<equiv> val_ptr cell_raw raw_val"

abbreviation bool_ptr_val :: "mem \<Rightarrow> loc option \<Rightarrow> bool option option" where
  "bool_ptr_val \<equiv> val_ptr cell_bool flat_val"

definition connector_ptrs :: "pConnector \<Rightarrow> loc option \<times> loc option \<times> loc option \<times> loc option \<times> loc option \<times> loc option \<times> loc option" where
  "connector_ptrs i = (pc_Auth i, pc_Config i, pc_Paused i, pc_RunSetupTests i, pc_PauseAfterTrial i, pc_TrustCertificates i, pc_TrustFingerprints i)"

definition set_connector_ptrs ::
  "pConnector \<Rightarrow> loc option \<times> loc option \<times> loc option \<times> loc option \<times> loc option \<times> loc option \<times> loc option \<Rightarrow> pConnector" where
  "set_connector_ptrs i = (\<lambda>(a, c, p, r, t, tc, tf). i\<lparr>pc_Auth := a, pc_Config := c, pc_Paused := p, pc_RunSetupTests := r,
     pc_PauseAfterTrial := t, pc_TrustCertificates := tc, pc_TrustFingerprints := tf\<rparr>)"

definition build_connector ::
  "pConnector \<Rightarrow> RawExtension option \<times> RawExtension option \<times> bool option \<times> bool option \<times> bool option \<times> bool option \<times> bool option \<Rightarrow> Connector" where
  "build_connector i = (\<lambda>(a, c, p, r, t, tc, tf).
     \<lparr>sp_GroupID = pc_GroupID i, sp_Service = pc_Service i, sp_Auth = a, sp_Config = c, sp_DailySyncTime = pc_DailySyncTime i,
      sp_SyncFrequency = pc_SyncFrequency i, sp_ScheduleType = pc_ScheduleType i, sp_Paused = p, sp_RunSetupTests = r,
      sp_PauseAfterTrial = t, sp_TrustCertificates = tc, sp_TrustFingerprints = tf,
      sp_DataDelaySensitivity = pc_DataDelaySensitivity i, sp_DataDelayThreshold = pc_DataDelayThreshold i,
      sp_NetworkingMethod = pc_NetworkingMethod i, sp_ProxyAgentID = pc_ProxyAgentID i, sp_PrivateLinkID = pc_PrivateLinkID i,
      sp_HybridDeploymentAgentID = pc_HybridDeploymentAgentID i\<rparr>)"

definition connector_val :: "mem \<Rightarrow> pConnector \<Rightarrow> Connector option" where
  "connector_val h i = map_option (build_connector i)
     (val_pair raw_ptr_val (val_pair raw_ptr_val (val_pair bool_ptr_val (val_pair bool_ptr_val (val_pair bool_ptr_val
        (val_pair bool_ptr_val bool_ptr_val))))) h (connector_ptrs i))"

definition connector_owns :: "mem \<Rightarrow> pConnector \<Rightarrow> loc set" where
  "connector_owns h i =
     (let r = owns_ptr cell_raw raw_owns; b = owns_ptr cell_bool flat_owns
      in owns_pair r (owns_pair r (owns_pair b (owns_pair b (owns_pair b (owns_pair b b))))) h (connector_ptrs i))"

interpretation connector: cell_copy Connector_DeepCopyInto connector_val connector_owns cell_connector ConnectorCell
proof (rule cell_copyI)
  let ?r = "copy_ptr cell_raw RawCell RawExtension_DeepCopyInto" and ?b = "copy_ptr cell_bool BoolCell hret"
  note bs = bool_cell.ptr_contract
  show "deep_copy Connector_DeepCopyInto connector_val connector_owns"
    by (rule struct_contractI [where get = connector_ptrs and put = set_connector_ptrs and build = build_connector
          and copy = "copy_pair ?r (copy_pair ?r (copy_pair ?b (copy_pair ?b (copy_pair ?b (copy_pair ?b ?b)))))",
          OF copy_pair_contract [OF raw.ptr_contract copy_pair_contract [OF raw.ptr_contract copy_pair_contract [OF bs
             copy_pair_contract [OF bs copy_pair_contract [OF bs copy_pair_contract [OF bs bs]]]]]]])
      (auto simp: Connector_DeepCopyInto_def connector_val_def connector_owns_def connector_ptrs_def set_connector_ptrs_def
        build_connector_def copy_pair_def Let_def split: prod.split)
qed simp

text \<open>Spec, status, metadata and the resource.\<close>

definition spec_val :: "mem \<Rightarrow> pFivetranConnectorSpec \<Rightarrow> FivetranConnectorSpec option" where
  "spec_val h i = map_option (\<lambda>(c, s). \<lparr>spec_Connector = c, spec_ConnectorSchemas = s\<rparr>)
     (val_pair connector_val (val_ptr cell_config config_val) h (psp_Connector i, psp_ConnectorSchemas i))"

definition spec_owns :: "mem \<Rightarrow> pFivetranConnectorSpec \<Rightarrow> loc set" where
  "spec_owns h i = owns_pair connector_owns (owns_ptr cell_config config_owns) h (psp_Connector i, psp_ConnectorSchemas i)"

interpretation spec_members: pair_copy Connector_DeepCopyInto connector_val connector_owns
  "copy_ptr cell_config ConfigCell ConnectorSchemaConfig_DeepCopyInto" "val_ptr cell_config config_val" "owns_ptr cell_config config_owns"
  by (rule pair_copyI [OF connector.deep_copy_axioms config.ptr_contract])

interpretation spec: cell_copy FivetranConnectorSpec_DeepCopyInto spec_val spec_owns cell_spec SpecCell
proof (rule cell_copyI)
  show "deep_copy FivetranConnectorSpec_DeepCopyInto spec_val spec_owns"
    by (rule struct_contractI [where get = "\<lambda>i. (psp_Connector i, psp_ConnectorSchemas i)"
          and put = "\<lambda>i (c, s). i\<lparr>psp_Connector := c, psp_ConnectorSchemas := s\<rparr>", OF spec_members.pair_contract])
      (auto simp: FivetranConnectorSpec_DeepCopyInto_def spec_val_def spec_owns_def copy_pair_def split: prod.split)
qed simp

definition status_val :: "mem \<Rightarrow> pFivetranConnectorStatus \<Rightarrow> FivetranConnectorStatus option" where
  "status_val h i = map_option (\<lambda>c. \<lparr>st_ConnectorURL = pst_ConnectorURL i, st_ConnectorID = pst_ConnectorID i, st_Conditions = c\<rparr>)
     (val_ptr cell_conditions (val_slice flat_val) h (pst_Conditions i))"

definition status_owns :: "mem \<Rightarrow> pFivetranConnectorStatus \<Rightarrow> loc set" where
  "status_owns h i = owns_ptr cell_conditions (owns_slice flat_owns) h (pst_Conditions i)"

interpretation conditions_cell: cell_copy "copy_slice hret" "val_slice flat_val" "owns_slice flat_owns" cell_conditions ConditionsCell
  by (intro cell_copyI contracts) simp

interpretation status: cell_copy FivetranConnectorStatus_DeepCopyInto status_val status_owns cell_status StatusCell
proof (rule cell_copyI)
  show "deep_copy FivetranConnectorStatus_DeepCopyInto status_val status_owns"
    by (rule struct_contractI [where get = pst_Conditions and put = "\<lambda>i c. i\<lparr>pst_Conditions := c\<rparr>", OF conditions_cell.ptr_contract])
      (simp_all add: FivetranConnectorStatus_DeepCopyInto_def status_val_def status_owns_def)
qed simp

definition meta_val :: "mem \<Rightarrow> pObjectMeta \<Rightarrow> ObjectMeta option" where
  "meta_val h i = map_option (\<lambda>(d, l, a, f). \<lparr>om_Name = pm_Name i, om_Namespace = pm_Namespace i, om_Generation = pm_Generation i,
       om_Labels = l, om_Annotations = a, om_Finalizers = (case f of None \<Rightarrow> [] | Some fs \<Rightarrow> fs), om_DeletionTimestamp = d\<rparr>)
     (val_pair (val_ptr cell_time flat_val) (val_pair (map_val cell_strmap flat_val) (val_pair (map_val cell_strmap flat_val)
        (val_ptr cell_strings flat_val))) h (pm_DeletionTimestamp i, pm_Labels i, pm_Annotations i, pm_Finalizers i))"

definition meta_owns :: "mem \<Rightarrow> pObjectMeta \<Rightarrow> loc set" where
  "meta_owns h i =
     (let m = map_owns cell_strmap flat_owns
      in owns_pair (owns_ptr cell_time flat_owns) (owns_pair m (owns_pair m (owns_ptr cell_strings flat_owns))) h
           (pm_DeletionTimestamp i, pm_Labels i, pm_Annotations i, pm_Finalizers i))"

interpretation meta: deep_copy ObjectMeta_DeepCopyInto meta_val meta_owns
proof -
  have m: "deep_copy (copy_map cell_strmap StringMapCell hret) (map_val cell_strmap flat_val) (map_owns cell_strmap flat_owns)"
    by (intro contracts) simp
  show "deep_copy ObjectMeta_DeepCopyInto meta_val meta_owns"
    by (rule struct_contractI [where get = "\<lambda>i. (pm_DeletionTimestamp i, pm_Labels i, pm_Annotations i, pm_Finalizers i)"
          and put = "\<lambda>i (d, l, a, f). i\<lparr>pm_DeletionTimestamp := d, pm_Labels := l, pm_Annotations := a, pm_Finalizers := f\<rparr>",
          OF copy_pair_contract [OF time_cell.ptr_contract copy_pair_contract [OF m copy_pair_contract [OF m strings_cell.ptr_contract]]]])
      (auto simp: ObjectMeta_DeepCopyInto_def meta_val_def meta_owns_def copy_pair_def Let_def split: prod.split)
qed

definition resource_val :: "mem \<Rightarrow> pFivetranConnector \<Rightarrow> FivetranConnector option" where
  "resource_val h i = map_option (\<lambda>(m, s, t). \<lparr>fc_Meta = m, fc_Spec = s, fc_Status = t\<rparr>)
     (val_pair meta_val (val_pair spec_val status_val) h (pf_Meta i, pf_Spec i, pf_Status i))"

definition resource_owns :: "mem \<Rightarrow> pFivetranConnector \<Rightarrow> loc set" where
  "resource_owns h i = owns_pair meta_owns (owns_pair spec_owns status_owns) h (pf_Meta i, pf_Spec i, pf_Status i)"

interpretation resource: cell_copy FivetranConnector_DeepCopyInto resource_val resource_owns cell_resource ResourceCell
proof (rule cell_copyI)
  show "deep_copy FivetranConnector_DeepCopyInto resource_val resource_owns"
    by (rule struct_contractI [where get = "\<lambda>i. (pf_Meta i, pf_Spec i, pf_Status i)"
          and put = "\<lambda>i (m, s, t). i\<lparr>pf_Meta := m, pf_Spec := s, pf_Status := t\<rparr>",
          OF copy_pair_contract [OF meta.deep_copy_axioms copy_pair_contract [OF spec.deep_copy_axioms status.deep_copy_axioms]]])
      (auto simp: FivetranConnector_DeepCopyInto_def resource_val_def resource_owns_def copy_pair_def split: prod.split)
qed simp

definition resources_val :: "mem \<Rightarrow> pFivetranConnectorList \<Rightarrow> FivetranConnector list option option" where
  "resources_val h i = val_ptr cell_items (val_slice resource_val) h (pl_Items i)"

definition resources_owns :: "mem \<Rightarrow> pFivetranConnectorList \<Rightarrow> loc set" where
  "resources_owns h i = owns_ptr cell_items (owns_slice resource_owns) h (pl_Items i)"

interpretation items: map_copy FivetranConnector_DeepCopyInto resource_val resource_owns
  by (intro map_copyI resource.deep_copy_axioms)

interpretation resources: cell_copy FivetranConnectorList_DeepCopyInto resources_val resources_owns cell_resources ResourceListCell
proof (rule cell_copyI)
  have "deep_copy (copy_ptr cell_items ItemsCell (copy_slice FivetranConnector_DeepCopyInto))
      (val_ptr cell_items (val_slice resource_val)) (owns_ptr cell_items (owns_slice resource_owns))"
    by (intro copy_ptr_contract items.slice_contract) simp
  then show "deep_copy FivetranConnectorList_DeepCopyInto resources_val resources_owns"
    by (rule struct_contractI [where get = pl_Items and put = "\<lambda>i c. i\<lparr>pl_Items := c\<rparr>" and build = "\<lambda>i x. x"])
      (simp_all add: FivetranConnectorList_DeepCopyInto_def resources_val_def resources_owns_def option.map_ident)
qed simp

subsection \<open>Copies of resources and lists\<close>

abbreviation resource_at :: "mem \<Rightarrow> loc option \<Rightarrow> FivetranConnector option option" where
  "resource_at \<equiv> val_ptr cell_resource resource_val"

abbreviation resources_at :: "mem \<Rightarrow> loc option \<Rightarrow> FivetranConnector list option option option" where
  "resources_at \<equiv> val_ptr cell_resources resources_val"

lemma DeepCopyObject_eq:
  "FivetranConnector_DeepCopyObject p = copy_ptr cell_resource ResourceCell FivetranConnector_DeepCopyInto p"
  "FivetranConnectorList_DeepCopyObject p = copy_ptr cell_resources ResourceListCell FivetranConnectorList_DeepCopyInto p"
  by (auto simp: FivetranConnector_DeepCopyObject_def FivetranConnector_DeepCopy_def FivetranConnectorList_DeepCopyObject_def
      FivetranConnectorList_DeepCopy_def hbind_def hret_def fun_eq_iff split: option.split prod.split)

lemma copy_ptr_None: "copy_ptr dest mk f None h = Some (None, h)"
  by (simp add: copy_ptr_def hret_def)

text \<open>
  What a deep copy of the object at a location promises: it returns, the memory that was there is
  the same, original and copy have the same value, and neither can be changed through the other.
\<close>

definition good_copy :: "(loc option \<Rightarrow> (cell, loc option) hact) \<Rightarrow> (mem \<Rightarrow> loc option \<Rightarrow> 'a option) \<Rightarrow> loc option \<Rightarrow> mem \<Rightarrow> bool" where
  "good_copy copy at p h \<longleftrightarrow>
     (\<exists>q es. copy p h = Some (q, h @ es) \<and> at (h @ es) q = at h p
        \<and> (\<forall>h'. agree {a. a < length h} h h' \<longrightarrow> at h' p = at h p)
        \<and> (\<forall>h'. agree {a. length h \<le> a \<and> a < length (h @ es)} (h @ es) h' \<longrightarrow> at h' q = at h p))"

lemma contract_good:
  assumes "deep_copy copy at owns" and "at h p = Some x"
  shows "good_copy copy at p h"
proof -
  from deep_copy.copies [OF assms] obtain q es where c: "copy p h = Some (q, h @ es)" "at (h @ es) q = Some x" by blast
  then show ?thesis using deep_copy.original_kept [OF assms] deep_copy.copy_kept [OF assms c(1)] assms(2) unfolding good_copy_def by auto
qed

text \<open>C16: A deep copy is a copy and it is deep. On every well-typed memory DeepCopyObject of a resource,
  and of a list of resources, returns; nothing that was in memory has changed; the copy has the
  value of the original; and whatever is written later to the memory that was there before leaves
  the value of the copy, while whatever is written to the memory of the copy leaves the value of
  the original. A nil pointer is copied to nil.\<close>

theorem DeepCopyObject_separate:
  "(resource_at h p = Some obj \<longrightarrow> good_copy FivetranConnector_DeepCopyObject resource_at p h)
   \<and> (resources_at h p = Some objs \<longrightarrow> good_copy FivetranConnectorList_DeepCopyObject resources_at p h)
   \<and> FivetranConnector_DeepCopyObject None h = Some (None, h)"
  using contract_good [OF resource.ptr_contract] contract_good [OF resources.ptr_contract]
  unfolding DeepCopyObject_eq [abs_def] by (auto simp: copy_ptr_None)

text \<open>A resource with two schemas that share one table: the copy has two tables.\<close>

definition demo_connector_p :: pConnector where
  "demo_connector_p = \<lparr>pc_GroupID = ''g'', pc_Service = ''postgres'', pc_Auth = None, pc_Config = Some 1, pc_DailySyncTime = [],
     pc_SyncFrequency = 60, pc_ScheduleType = [], pc_Paused = Some 2, pc_RunSetupTests = Some 2, pc_PauseAfterTrial = None,
     pc_TrustCertificates = None, pc_TrustFingerprints = None, pc_DataDelaySensitivity = [], pc_DataDelayThreshold = 0,
     pc_NetworkingMethod = [], pc_ProxyAgentID = [], pc_PrivateLinkID = [], pc_HybridDeploymentAgentID = []\<rparr>"

definition demo_resource_p :: pFivetranConnector where
  "demo_resource_p = \<lparr>pf_Meta = \<lparr>pm_Name = ''c'', pm_Namespace = ''ns'', pm_Generation = 1, pm_Labels = None, pm_Annotations = Some 3,
       pm_Finalizers = None, pm_DeletionTimestamp = None\<rparr>,
     pf_Spec = \<lparr>psp_Connector = demo_connector_p, psp_ConnectorSchemas = Some 4\<rparr>,
     pf_Status = \<lparr>pst_ConnectorURL = [], pst_ConnectorID = [], pst_Conditions = None\<rparr>\<rparr>"

definition demo_mem :: mem where
  "demo_mem = [BytesCell ''{}'', RawCell \<lparr>pr_Raw = Some 0\<rparr>, BoolCell True, StringMapCell [(''k'', ''v'')],
     ConfigCell \<lparr>pcs_Schemas = Some 5, pcs_SchemaChangeHandling = ''BLOCK_ALL'', pcs_ValidationLevel = []\<rparr>,
     SchemaMapCell [(''s'', Some 6), (''z'', None)], SchemaCell \<lparr>ps_Enabled = True, ps_Tables = Some 7\<rparr>,
     TableMapCell [(''t'', Some 8), (''u'', Some 8)], TableCell \<lparr>pt_Enabled = True, pt_Columns = None, pt_SyncMode = []\<rparr>,
     ResourceCell demo_resource_p]"

lemma demo_resource_typed: "\<exists>obj. resource_at demo_mem (Some 9) = Some obj"
  by (simp add: demo_mem_def demo_resource_p_def demo_connector_p_def resource_val_def meta_val_def spec_val_def status_val_def connector_val_def
      connector_ptrs_def config_val_def schema_val_def table_val_def raw_val_def map_val_def val_pair_def val_ptr_def val_entries_def deref_def)

theorem DeepCopyObject_separate_witness: "good_copy FivetranConnector_DeepCopyObject resource_at (Some 9) demo_mem"
proof -
  obtain obj where "resource_at demo_mem (Some 9) = Some obj" using demo_resource_typed by blast
  then show ?thesis using DeepCopyObject_separate [of demo_mem "Some 9"] by blast
qed

end
