(* ===== verification/Secret_Copies.thy ===== *)
theory Secret_Copies
  imports Deep_Copy Controller_Utils
begin

text \<open>
  The resolution of secrets on memory. \<open>vault.ResolveSecrets\<close> writes the resolved configuration, with the
  secrets in clear, through the pointer that it is given; the resource is later sent to
  Kubernetes. The method resolveSecrets therefore works on deep copies. Here it is modelled with the
  pointers it follows and the assignment it makes, and shown to refine the definition of
  Controller_Utils, which has values in place of pointers, without a change to any memory that was
  there before.
\<close>

subsection \<open>Actions on the world and the memory\<close>

text \<open>No result: a pointer that leads to no cell of its type.\<close>

type_synonym 'a mact = "mem \<Rightarrow> world \<Rightarrow> ('a res \<times> world \<times> mem) option"

definition mret :: "'a \<Rightarrow> 'a mact" where
  "mret x h w = Some (Ok x, w, h)"

definition mraise :: "goerr \<Rightarrow> 'a mact" where
  "mraise e h w = Some (Err e, w, h)"

definition mbind :: "'a mact \<Rightarrow> ('a \<Rightarrow> 'b mact) \<Rightarrow> 'b mact" where
  "mbind a f h w =
     (case a h w of None \<Rightarrow> None
      | Some (Ok x, w', h') \<Rightarrow> f x h' w'
      | Some (Err e, w', h') \<Rightarrow> Some (Err e, w', h')
      | Some (Panic m, w', h') \<Rightarrow> Some (Panic m, w', h'))"

definition on_mem :: "(cell, 'a) hact \<Rightarrow> 'a mact" where
  "on_mem a h w = map_option (\<lambda>(x, h'). (Ok x, w, h')) (a h)"

definition on_world :: "'a act \<Rightarrow> 'a mact" where
  "on_world a h w = (case a w of (r, w') \<Rightarrow> Some (r, w', h))"

subsection \<open>The resolution\<close>

definition read_raw :: "loc option \<Rightarrow> (cell, RawExtension option) hact" where
  "read_raw p h = map_option (\<lambda>raw. (raw, h)) (raw_ptr_val h p)"

text \<open>\<open>rawConfig.Raw = updatedConfig\<close>: the bytes are a new slice, the struct is changed in place.\<close>

definition assign_raw :: "loc \<Rightarrow> string \<Rightarrow> (cell, unit) hact" where
  "assign_raw a updatedConfig =
     hbind (new_cell (BytesCell updatedConfig)) (\<lambda>b.
     hbind (load cell_raw a) (\<lambda>rawConfig. store a (RawCell (rawConfig\<lparr>pr_Raw := Some b\<rparr>))))"

text \<open>
  \<open>vault.ResolveSecrets\<close> through a pointer. A resolution without an error that leaves bytes has
  assigned them; one that leaves none had none and has returned before.
\<close>

definition heap_ResolveSecrets :: "env \<Rightarrow> loc option \<Rightarrow> goerr option mact" where
  "heap_ResolveSecrets E p =
     mbind (on_mem (read_raw p)) (\<lambda>rawConfig.
     mbind (on_world (resolve_raw E rawConfig)) (\<lambda>(err, resolved).
       case (p, err, Option.bind resolved Raw) of
         (Some a, None, Some updatedConfig) \<Rightarrow> mbind (on_mem (assign_raw a updatedConfig)) (\<lambda>_. mret None)
       | _ \<Rightarrow> mret err))"

definition heap_resolve_part :: "env \<Rightarrow> string \<Rightarrow> loc option \<Rightarrow> (loc option \<times> goerr list) mact" where
  "heap_resolve_part E what p =
     (case p of None \<Rightarrow> mret (None, [])
      | Some _ \<Rightarrow>
        mbind (on_mem (RawExtension_DeepCopy p)) (\<lambda>copy.
        mbind (heap_ResolveSecrets E copy) (\<lambda>err.
          case err of
            Some e \<Rightarrow> mret (None, [Errorf_w (''resolveSecrets: '' @ what @ '' secrets: '') e])
          | None \<Rightarrow> mret (copy, []))))"

definition heap_resolveSecrets :: "env \<Rightarrow> loc \<Rightarrow> (loc option \<times> loc option) mact" where
  "heap_resolveSecrets E connector =
     mbind (on_mem (load cell_resource connector)) (\<lambda>c.
     mbind (heap_resolve_part E ''config'' (pc_Config (psp_Connector (pf_Spec c)))) (\<lambda>(resolvedConfig, errs1).
     mbind (heap_resolve_part E ''auth'' (pc_Auth (psp_Connector (pf_Spec c)))) (\<lambda>(resolvedAuth, errs2).
       if length (errs1 @ errs2) > 0 then mraise (Joined (errs1 @ errs2)) else mret (resolvedConfig, resolvedAuth))))"

subsection \<open>Simulation\<close>

text \<open>
  An action on memory simulates an action on values: it has a result, the world is the same after
  it, no memory that was there has changed, and the results are an error or a panic alike or
  values related by \<open>R\<close>.
\<close>

abbreviation kept :: "mem \<Rightarrow> mem \<Rightarrow> bool" where
  "kept h h' \<equiv> agree {a. a < length h} h h'"

definition simulates :: "(mem \<Rightarrow> 'a \<Rightarrow> 'b \<Rightarrow> bool) \<Rightarrow> mem \<Rightarrow> world \<Rightarrow> 'a mact \<Rightarrow> 'b act \<Rightarrow> bool" where
  "simulates R h w a b \<longleftrightarrow>
     (\<exists>r h'. a h w = Some (r, snd (b w), h') \<and> kept h h' \<and> rel_res (R h') r (fst (b w)))"

lemma kept_trans: "kept h h' \<Longrightarrow> kept h' h'' \<Longrightarrow> kept h h''"
  by (auto simp: agree_def)

lemma kept_length: "kept h h' \<Longrightarrow> length h \<le> length h'"
  by (auto simp: agree_def) (meson leI less_irrefl)

lemma kept_update: "agree ({a. a < length h} - {b}) h h' \<Longrightarrow> kept h0 h \<Longrightarrow> length h0 \<le> b \<Longrightarrow> kept h0 h'"
  by (auto simp: agree_def)

lemma simulates_ret: "R h x y \<Longrightarrow> simulates R h w (mret x) (ret y)"
  by (simp add: simulates_def mret_def ret_def agree_def)

lemma simulates_raise: "simulates R h w (mraise e) (raise e)"
  by (simp add: simulates_def mraise_def raise_def agree_def)

lemma simulates_bind:
  assumes "simulates R h w a b"
    and "\<And>x y h' w'. kept h h' \<Longrightarrow> R h' x y \<Longrightarrow> simulates S h' w' (f x) (g y)"
  shows "simulates S h w (mbind a f) (bind b g)"
proof -
  from assms(1) obtain r h' where a: "a h w = Some (r, snd (b w), h')" and k: "kept h h'" and r: "rel_res (R h') r (fst (b w))"
    by (auto simp: simulates_def)
  obtain s w' where b: "b w = (s, w')" by fastforce
  show ?thesis
  proof (cases r)
    case (Ok x)
    then obtain y where s: "s = Ok y" and "R h' x y" using r b by (cases s) auto
    from assms(2) [OF k this(2), of w'] show ?thesis using a b s Ok kept_trans [OF k]
      by (auto simp: simulates_def mbind_def bind_def)
  qed (use a b k r in \<open>cases s; auto simp: simulates_def mbind_def bind_def\<close>)+
qed

subsection \<open>The resolution through a pointer\<close>

abbreviation raw_ptr_owns :: "mem \<Rightarrow> loc option \<Rightarrow> loc set" where
  "raw_ptr_owns \<equiv> owns_ptr cell_raw raw_owns"

lemma resolve_raw_result:
  assumes "resolve_raw E (Some raw) w = (Ok (None, raw'), w')"
  shows "raw' = Some raw \<and> Raw raw = None \<or> (\<exists>updated. raw' = Some \<lparr>Raw = Some updated\<rparr>)"
  using assms by (auto simp: resolve_raw_def ResolveSecrets_def Let_def split: option.split_asm sum.split_asm prod.split_asm if_split_asm)

text \<open>The assignment changes the struct and nothing else that was there.\<close>

lemma assign_raw_spec:
  assumes "raw_ptr_val h (Some b) = Some (Some raw)"
  obtains h' where "assign_raw b updated h = Some ((), h')" and "raw_ptr_val h' (Some b) = Some (Some \<lparr>Raw = Some updated\<rparr>)"
    and "agree ({a. a < length h} - {b}) h h'" and "raw_ptr_owns h' (Some b) = {b, length h}"
proof -
  from assms obtain r where r: "deref cell_raw h b = Some r" and b: "b < length h"
    by (auto simp: val_ptr_def deref_def split: option.split_asm if_split_asm)
  let ?h = "(h @ [BytesCell updated])[b := RawCell (r\<lparr>pr_Raw := Some (length h)\<rparr>)]"
  have d: "deref cell_raw (h @ [BytesCell updated]) b = Some r" using r b by (simp add: deref_def nth_append)
  show ?thesis
  proof (rule that [of ?h])
    show "assign_raw b updated h = Some ((), ?h)"
      using d b by (simp add: assign_raw_def hbind_def new_cell_def load_def store_def)
    show "raw_ptr_val ?h (Some b) = Some (Some \<lparr>Raw = Some updated\<rparr>)"
      using b by (simp add: val_ptr_def deref_def raw_val_def)
    show "agree ({a. a < length h} - {b}) h ?h"
      by (auto simp: agree_def nth_append nth_list_update)
    show "raw_ptr_owns ?h (Some b) = {b, length h}"
      using b by (auto simp: owns_ptr_def deref_def raw_owns_def)
  qed
qed

text \<open>Through a pointer to memory that was not there in \<open>h0\<close>.\<close>

definition denotes :: "mem \<Rightarrow> mem \<Rightarrow> loc option \<Rightarrow> RawExtension option \<Rightarrow> bool" where
  "denotes h0 h p raw \<longleftrightarrow> raw_ptr_val h p = Some raw \<and> fresh h0 (raw_ptr_owns h p)"

lemma denotes_kept: "denotes h0 h p raw \<Longrightarrow> kept h h' \<Longrightarrow> denotes h0 h' p raw"
  using raw.ptr.val_agree [of h p raw h', OF _ agree_mono] raw.ptr.owns_bound [of h p raw]
  by (fastforce simp: denotes_def)

lemma heap_ResolveSecrets_spec:
  assumes h: "denotes h0 h (Some b) (Some raw)" "kept h0 h"
  shows "\<exists>r h'. heap_ResolveSecrets E (Some b) h w = Some (r, snd (resolve_raw E (Some raw) w), h') \<and> kept h0 h'
    \<and> rel_res (\<lambda>err v. err = fst v \<and> (err = None \<longrightarrow> denotes h0 h' (Some b) (snd v))) r (fst (resolve_raw E (Some raw) w))"
proof -
  have v: "raw_ptr_val h (Some b) = Some (Some raw)" and b: "length h0 \<le> b" using h(1) by (auto simp: denotes_def owns_ptr_def)
  obtain s w' where s: "resolve_raw E (Some raw) w = (s, w')" by fastforce
  show ?thesis
  proof (cases "\<exists>updated. s = Ok (None, Some \<lparr>Raw = Some updated\<rparr>)")
    case True
    then obtain updated where u: "s = Ok (None, Some \<lparr>Raw = Some updated\<rparr>)" by blast
    obtain h' where a: "assign_raw b updated h = Some ((), h')" "raw_ptr_val h' (Some b) = Some (Some \<lparr>Raw = Some updated\<rparr>)"
      "agree ({a. a < length h} - {b}) h h'" "raw_ptr_owns h' (Some b) = {b, length h}"
      using assign_raw_spec [OF v] by blast
    have "heap_ResolveSecrets E (Some b) h w = Some (Ok None, w', h')"
      using u s a(1) v by (simp add: heap_ResolveSecrets_def mbind_def on_mem_def on_world_def read_raw_def mret_def)
    then show ?thesis using a s u b kept_update [OF a(3) h(2) b] kept_length [OF h(2)] by (simp add: denotes_def)
  next
    case False
    then have "heap_ResolveSecrets E (Some b) h w = Some (map_res fst s, w', h)" and "s = Ok (None, raw') \<Longrightarrow> raw' = Some raw" for raw'
      using resolve_raw_result [of E raw w] s v
      by (cases s; fastforce simp: heap_ResolveSecrets_def mbind_def on_mem_def on_world_def read_raw_def mret_def split: option.split)+
    then show ?thesis using s h by (cases s) auto
  qed
qed

subsection \<open>The resolution of a resource\<close>

definition part_denotes :: "mem \<Rightarrow> mem \<Rightarrow> loc option \<times> goerr list \<Rightarrow> RawExtension option \<times> goerr list \<Rightarrow> bool" where
  "part_denotes h0 h x y \<longleftrightarrow> denotes h0 h (fst x) (fst y) \<and> snd x = snd y"

lemma denotes_nil [simp]: "denotes h0 h None None"
  by (simp add: denotes_def val_ptr_def owns_ptr_def)

lemma heap_resolve_part_simulates:
  assumes "raw_ptr_val h p = Some raw"
  shows "simulates (part_denotes h) h w (heap_resolve_part E what p) (resolve_part E what raw)"
proof (cases p)
  case None
  then have "raw = None" using assms by (simp add: val_ptr_def)
  then show ?thesis using None by (auto simp: heap_resolve_part_def resolve_part_def part_denotes_def intro: simulates_ret)
next
  case (Some a)
  then obtain rw where rw: "raw = Some rw" using assms by (auto simp: val_ptr_def split: option.split_asm)
  obtain q es where c: "RawExtension_DeepCopy p h = Some (q, h @ es)" "raw_ptr_val (h @ es) q = Some raw" "fresh h (raw_ptr_owns (h @ es) q)"
    using raw.ptr.copyE [OF assms] unfolding RawExtension_DeepCopy_def by blast
  then obtain b where b: "q = Some b" using rw by (cases q) (auto simp: val_ptr_def)
  have "denotes h (h @ es) (Some b) (Some rw)" "kept h (h @ es)" using c b rw by (simp_all add: denotes_def)
  from heap_ResolveSecrets_spec [OF this, of E w] obtain r h' where
    t: "heap_ResolveSecrets E (Some b) (h @ es) w = Some (r, snd (resolve_raw E raw w), h')" "kept h h'"
      "rel_res (\<lambda>err v. err = fst v \<and> (err = None \<longrightarrow> denotes h h' (Some b) (snd v))) r (fst (resolve_raw E raw w))"
    using rw by blast
  obtain s w' where s: "resolve_raw E raw w = (s, w')" by fastforce
  show ?thesis using Some rw b c(1) t s
    by (cases r; cases s)
      (auto simp: simulates_def heap_resolve_part_def resolve_part_def mbind_def on_mem_def bind_def mret_def ret_def part_denotes_def
        split: option.split)
qed

lemma resource_parts:
  assumes "resource_val h i = Some obj"
  shows "raw_ptr_val h (pc_Config (psp_Connector (pf_Spec i))) = Some (sp_Config (spec_Connector (fc_Spec obj)))"
    and "raw_ptr_val h (pc_Auth (psp_Connector (pf_Spec i))) = Some (sp_Auth (spec_Connector (fc_Spec obj)))"
  using assms
  by (auto simp: resource_val_def spec_val_def connector_val_def connector_ptrs_def build_connector_def val_pair_def split: option.split_asm)

definition copies_denote :: "mem \<Rightarrow> mem \<Rightarrow> loc option \<times> loc option \<Rightarrow> RawExtension option \<times> RawExtension option \<Rightarrow> bool" where
  "copies_denote h0 h x y \<longleftrightarrow> denotes h0 h (fst x) (fst y) \<and> denotes h0 h (snd x) (snd y)"

lemma heap_resolveSecrets_simulates:
  assumes "resource_at h (Some a) = Some (Some obj)" and "w_obj w = obj"
  shows "simulates (copies_denote h) h w (heap_resolveSecrets E a) (resolveSecrets E)"
proof -
  from assms(1) obtain i where i: "deref cell_resource h a = Some i" "resource_val h i = Some obj"
    by (auto simp: val_ptr_def split: option.split_asm)
  note parts = resource_parts [OF i(2)]
  have "simulates (copies_denote h) h w
      (mbind (heap_resolve_part E ''config'' (pc_Config (psp_Connector (pf_Spec i)))) (\<lambda>(resolvedConfig, errs1).
       mbind (heap_resolve_part E ''auth'' (pc_Auth (psp_Connector (pf_Spec i)))) (\<lambda>(resolvedAuth, errs2).
         if length (errs1 @ errs2) > 0 then mraise (Joined (errs1 @ errs2)) else mret (resolvedConfig, resolvedAuth))))
      (bind (resolve_part E ''config'' (sp_Config (spec_Connector (fc_Spec obj)))) (\<lambda>(resolvedConfig, errs1).
       bind (resolve_part E ''auth'' (sp_Auth (spec_Connector (fc_Spec obj)))) (\<lambda>(resolvedAuth, errs2).
         if length (errs1 @ errs2) > 0 then raise (Joined (errs1 @ errs2)) else ret (resolvedConfig, resolvedAuth))))"
  proof (rule simulates_bind, rule heap_resolve_part_simulates [OF parts(1)], unfold split_beta,
      rule simulates_bind, rule heap_resolve_part_simulates, rule raw.ptr.original_kept [OF parts(2)], assumption)
    fix x y z u h1 h2 w2
    assume k: "kept h h1" "kept h1 h2" and 1: "part_denotes h h1 x y" and 2: "part_denotes h1 h2 z u"
    have "denotes h h2 (fst z) (fst u)" using 2 kept_length [OF k(1)] by (auto simp: part_denotes_def denotes_def fresh_def)
    moreover have "denotes h h2 (fst x) (fst y)" using denotes_kept 1 k(2) by (auto simp: part_denotes_def)
    ultimately show "simulates (copies_denote h) h2 w2
        (if 0 < length (snd x @ snd z) then mraise (Joined (snd x @ snd z)) else mret (fst x, fst z))
        (if 0 < length (snd y @ snd u) then raise (Joined (snd y @ snd u)) else ret (fst y, fst u))"
      using 1 2 by (auto simp: part_denotes_def copies_denote_def intro!: simulates_ret simulates_raise)
  qed
  then show ?thesis using i(1) assms(2)
    by (simp add: heap_resolveSecrets_def resolveSecrets_def simulates_def mbind_def bind_def on_mem_def load_def get_obj_def)
qed

text \<open>C15: Resolved secrets do not reach the resource. The method resolveSecrets, on memory in which the
  pointer connector leads to the resource, always has a result; it makes the same reads of Vault and
  ends with the same error, panic or pair of configurations as the definition on values; the
  configurations it returns lie in memory that was not there before; and, with or without an
  error, no memory that was there has changed, so that the resource, which is later sent to
  Kubernetes, still has its references in place of the secrets.\<close>

theorem resolveSecrets_on_copies:
  assumes "resource_at h (Some a) = Some (Some obj)" and "w_obj w = obj"
  shows "\<exists>r h'. heap_resolveSecrets E a h w = Some (r, snd (resolveSecrets E w), h')
    \<and> rel_res (copies_denote h h') r (fst (resolveSecrets E w))
    \<and> agree {a. a < length h} h h' \<and> resource_at h' (Some a) = Some (Some obj)"
  using heap_resolveSecrets_simulates [OF assms, of E] resource.ptr.original_kept [OF assms(1)]
  unfolding simulates_def by blast

text \<open>The resource of the memory example, with a configuration and no vault client.\<close>

theorem resolveSecrets_on_copies_witness:
  "\<exists>obj r w' h'. heap_resolveSecrets demo_env 9 demo_mem (demo_world\<lparr>w_obj := obj\<rparr>) = Some (r, w', h')
     \<and> resource_at demo_mem (Some 9) = Some (Some obj) \<and> resource_at h' (Some 9) = Some (Some obj)"
proof -
  obtain obj where "resource_at demo_mem (Some 9) = Some obj" using demo_resource_typed by blast
  then obtain c where c: "resource_at demo_mem (Some 9) = Some (Some c)" by (auto simp: val_ptr_def split: option.split_asm)
  have "w_obj (demo_world\<lparr>w_obj := c\<rparr>) = c" by simp
  from resolveSecrets_on_copies [OF c this, of demo_env] c show ?thesis by blast
qed

end
