(* ===== verification/Panics.thy ===== *)
theory Panics
  imports Schema_Writes Reconcile_Connector
begin

text \<open>
  Where a reconciliation can panic. A panic ends the process unless controller-runtime recovers it,
  so it must not depend on what a user writes. The places where the source asserts a type or
  follows a pointer are branches of the model; here they are collected over a whole run, with the
  reconciliations of other resources replacing the shared vault client at any time.
\<close>

subsection \<open>Actions that do not panic\<close>

named_theorems calm \<open>the actions that do not panic\<close>

definition panic_free :: "'a act \<Rightarrow> bool" where
  "panic_free a \<longleftrightarrow> (\<forall>w m. fst (a w) \<noteq> Panic m)"

lemma panic_freeD: "panic_free a \<Longrightarrow> a w = (Panic m, w') \<Longrightarrow> False"
  by (metis fst_conv panic_free_def)

lemma calm_basic [calm]:
  "panic_free (ret x)" "panic_free (raise e)" "panic_free get_obj" "panic_free (modify_obj f)" "panic_free (set_vault vc)"
  by (simp_all add: panic_free_def ret_def raise_def get_obj_def modify_obj_def set_vault_def)

lemma calm_bind [calm]: "panic_free a \<Longrightarrow> (\<And>x. panic_free (f x)) \<Longrightarrow> panic_free (bind a f)"
  unfolding panic_free_def bind_def by (auto split: prod.split res.split) (metis fst_conv)+

lemma calm_attempt [calm]: "panic_free a \<Longrightarrow> (\<And>r. panic_free (f r)) \<Longrightarrow> panic_free (attempt a f)"
  unfolding panic_free_def attempt_def by (auto split: prod.split res.split) (metis fst_conv)+

lemma calm_cases [calm]:
  "panic_free a \<Longrightarrow> panic_free b \<Longrightarrow> panic_free (if c then a else b)"
  "panic_free a \<Longrightarrow> (\<And>y. panic_free (f y)) \<Longrightarrow> panic_free (case u of None \<Rightarrow> a | Some y \<Rightarrow> f y)"
  "(\<And>e. panic_free (g e)) \<Longrightarrow> (\<And>y. panic_free (h y)) \<Longrightarrow> panic_free (case s of Inl e \<Rightarrow> g e | Inr y \<Rightarrow> h y)"
  "(\<And>a b. panic_free (k a b)) \<Longrightarrow> panic_free (case p of (a, b) \<Rightarrow> k a b)"
  by (simp_all split: option.split sum.split prod.split)

lemma calm_let [calm]: "panic_free (f x) \<Longrightarrow> panic_free (let y = x in f y)"
  by simp

lemma calm_wrap [calm]: "panic_free a \<Longrightarrow> panic_free (wrap_err p a)"
  unfolding wrap_err_def by (intro calm)

lemma calm_check [calm]: "panic_free a \<Longrightarrow> panic_free (check err f a)"
  unfolding check_def by (intro calm)

lemma calm_calls [calm]:
  "panic_free (kube_get E)" "panic_free (kube_update E)" "panic_free (kube_status_update E)" "panic_free (connection_call E c)"
  "panic_free (schema_call E c)" "panic_free (GetColumnConfig E i s t)" "panic_free (get_secret E ns n)" "panic_free (vault_NewClient E cfg)"
  by (simp_all add: panic_free_def kube_get_def kube_update_def kube_status_update_def connection_call_def schema_call_def
      GetColumnConfig_def get_secret_def vault_NewClient_def Let_def split: sum.split option.split prod.split)

lemma calm_for_entries [calm]: "(\<And>k v s. panic_free (f k v s)) \<Longrightarrow> panic_free (for_entries f es st)"
  by (induction f es st rule: for_entries.induct) (auto intro!: calm)

lemma calm_setCondition [calm]: "panic_free (setCondition E ct st r m)"
  using calm_calls(3) by (simp add: panic_free_def setCondition_eq)

lemma calm_status [calm]: "panic_free (updateSetupTestsCondition E ws)" "panic_free (handleError E ct r err)"
  unfolding updateSetupTestsCondition_def handleError_def with_result_def by (intro calm)+

lemma calm_or_handle [calm]: "panic_free a \<Longrightarrow> (\<And>x. panic_free (k x)) \<Longrightarrow> panic_free (or_handle E ct r a k)"
  unfolding or_handle_def by (intro calm)

lemma calm_services [calm]:
  "panic_free (CreateConnection E c)" "panic_free (GetConnection E i)" "panic_free (UpdateConnection E i c)" "panic_free (DeleteConnection E i)"
  "panic_free (RunSetupTests E i tc tf)" "panic_free (CreateSchema E i b)" "panic_free (UpdateSchema E i b)" "panic_free (GetSchemaDetails E i)"
  "panic_free (ReloadSchema E i m)"
  unfolding service_defs by (intro calm)+

lemma calm_utils [calm]:
  "panic_free (ensureFinalizer E)" "panic_free (cleanupAnnotationsAndLabels E)" "panic_free (take_force_label E b)"
  "panic_free (InitializeVaultClientFromSecret E ns n)"
  unfolding ensureFinalizer_def cleanupAnnotationsAndLabels_def take_force_label_def InitializeVaultClientFromSecret_def by (intro calm)+

lemma calm_connector [calm]:
  "panic_free (createConnector E rc ra)" "panic_free (updateConnector E i rc ra)" "panic_free (setConnectorID E i)"
  "panic_free (updateConnectorHash E)" "panic_free (reconcileSetupTests E i)"
  unfolding createConnector_def updateConnector_def setConnectorID_def updateConnectorHash_def reconcileSetupTests_def by (intro calm)+

lemma calm_schema_parts [calm]:
  "panic_free (updateSchemaHash E)" "panic_free (applySchema E i d)" "panic_free (createNewSchema E i)" "panic_free (isConnectorSyncing E i)"
  "panic_free (reload_details E i)" "panic_free (populateColumnsForCR E i cr up)"
  unfolding updateSchemaHash_def applySchema_def createNewSchema_def isConnectorSyncing_def reload_details_def reloadSchema_def
    populateColumnsForCR_def populateSchema_body_def populateTable_body_def
  by (intro calm | auto intro!: calm split: option.split)+

lemma calm_schema [calm]: "panic_free (reconcileSchema E i)"
  unfolding reconcileSchema_def reconcile_details_def apply_and_verify_def first_columns_def second_pass_def verifySchema_def schema_ready_def
  by (intro calm)

lemma calm_phases [calm]:
  "panic_free (finish E dc i rc ra)" "panic_free (schema_phase E dc ds i rc ra)" "panic_free (handleDeletion E)"
  unfolding finish_def schema_phase_def handleDeletion_def by (intro calm)+

subsection \<open>Actions that may panic\<close>

definition panics :: "(string \<Rightarrow> bool) \<Rightarrow> 'a act \<Rightarrow> world \<Rightarrow> bool" where
  "panics P a w \<longleftrightarrow> (\<forall>m. fst (a w) = Panic m \<longrightarrow> P m)"

lemma panics_calm: "panic_free a \<Longrightarrow> panics P a w"
  by (simp add: panics_def panic_free_def)

lemma panics_bind:
  assumes "panics P a w" and "\<And>x w'. a w = (Ok x, w') \<Longrightarrow> panics P (f x) w'"
  shows "panics P (bind a f) w"
  using assms by (auto simp: panics_def bind_def split: prod.split res.split)

lemma panics_attempt:
  assumes "panics P a w" and "\<And>x w'. a w = (Ok x, w') \<Longrightarrow> panics P (f (Inr x)) w'" and "\<And>e w'. a w = (Err e, w') \<Longrightarrow> panics P (f (Inl e)) w'"
  shows "panics P (attempt a f) w"
  using assms by (auto simp: panics_def attempt_def split: prod.split res.split)

lemma panics_or_handle:
  assumes "panics P a w" and "\<And>x w'. a w = (Ok x, w') \<Longrightarrow> panics P (k x) w'"
  shows "panics P (or_handle E ct r a k) w"
  unfolding or_handle_def using assms by (intro panics_attempt) (auto intro: panics_calm calm_status(2))

lemma panics_then: "panics P a w \<Longrightarrow> (\<And>x. panic_free (f x)) \<Longrightarrow> panics P (bind a f) w"
  by (rule panics_bind) (auto intro: panics_calm)

lemma panics_if: "(c \<Longrightarrow> panics P a w) \<Longrightarrow> (\<not> c \<Longrightarrow> panics P b w) \<Longrightarrow> panics P (if c then a else b) w"
  by simp

lemma panics_sum:
  "panics P (f e) w \<Longrightarrow> panics P (case Inl e of Inl e \<Rightarrow> f e | Inr x \<Rightarrow> g x) w"
  "panics P (g x) w \<Longrightarrow> panics P (case Inr x of Inl e \<Rightarrow> f e | Inr x \<Rightarrow> g x) w"
  by simp_all

lemma panics_get_obj: "panics P (f (w_obj w)) w \<Longrightarrow> panics P (bind get_obj f) w"
  by (simp add: panics_def bind_def get_obj_def)

subsection \<open>The vault client\<close>

text \<open>
  The other reconciliations put clients that are connected into the shared field and never take
  one out: they run the same code, and its only assignment to the field is \<open>set_vault\<close> with the
  result of \<open>InitializeVaultClientFromSecret\<close>.
\<close>

definition client_stays :: "env \<Rightarrow> bool" where
  "client_stays E \<longleftrightarrow> (\<forall>h v. usable_client v \<noteq> None \<longrightarrow> usable_client (e_others E h v) \<noteq> None)"

definition has_client :: "world \<Rightarrow> bool" where
  "has_client w \<longleftrightarrow> usable_client (w_vault w) \<noteq> None"

lemma Initialize_connected:
  assumes "InitializeVaultClientFromSecret E ns n w = (Ok vc, w')"
  shows "vc_Client vc"
proof -
  from assms obtain data w1 where "get_secret E ns n w = (Ok data, w1)"
    and "(case NewClientConfig (gstring data ''address'') (gstring data ''roleId'') (gstring data ''secretId'') (gstring data ''mountPath'') of
         Inl err \<Rightarrow> raise err
       | Inr vaultConfig \<Rightarrow> bind (vault_NewClient E vaultConfig) (\<lambda>_. ret \<lparr>vc_Client = True, vc_Config = vaultConfig\<rparr>)) w1 = (Ok vc, w')"
    unfolding InitializeVaultClientFromSecret_def bind_Ok by blast
  then show ?thesis by (auto simp: bind_Ok raise_def ret_def split: sum.split_asm)
qed

text \<open>The steps before the connector phase keep a client once there is one.\<close>

definition client_kept :: "env \<Rightarrow> world \<Rightarrow> world \<Rightarrow> bool" where
  "client_kept E w w' \<longleftrightarrow> (client_stays E \<longrightarrow> has_client w \<longrightarrow> has_client w')"

interpretation client: action_frame "client_kept E" for E
  by unfold_locales (auto simp: client_kept_def)

lemma client_basic: "client.keeps E (modify_obj f)" "client.keeps E (kube_update E)"
  by (auto simp: client.keeps_def client_kept_def has_client_def modify_obj_def kube_update_def log_event_def Let_def split: sum.split)

lemma client_resolve_raw: "client.keeps E (resolve_raw E raw)"
proof -
  have "w_vault (snd (resolve_raw E raw w)) = w_vault (others E w)" for w
    by (auto simp: resolve_raw_def Let_def split: option.split prod.split)
  then show ?thesis by (auto simp: client.keeps_def client_kept_def has_client_def client_stays_def)
qed

lemma client_utils: "client.keeps E (ensureFinalizer E)" "client.keeps E (take_force_label E b)"
  "client.keeps E (resolve_part E what raw)"
  unfolding ensureFinalizer_def take_force_label_def resolve_part_def
  by (intro client.keeps_rules client_basic client_resolve_raw)+

lemma ensure_vault_client:
  assumes "client_stays E" and "ensure_vault E ns w = (Ok x, w')"
  shows "has_client w'"
proof -
  from assms(2) obtain v w1 where t: "token_valid E w = (Ok v, w1)" and r: "(if v then ret () else
         (let fromEnv = e_getenv E envFivetranVaultSecretName;
              vaultSecretName = (if fromEnv = [] then defaultVaultSecretName else fromEnv)
          in attempt (InitializeVaultClientFromSecret E ns vaultSecretName) (\<lambda>r. case r of
               Inl err \<Rightarrow> raise (Wrapped (sentinel_text ErrVaultClientInitializationFailed @ '': '' @ Error err)
                            [Sentinel ErrVaultClientInitializationFailed, err])
             | Inr vaultClient \<Rightarrow> set_vault vaultClient))) w1 = (Ok x, w')"
    by (auto simp: ensure_vault_def bind_Ok)
  show ?thesis
  proof (cases v)
    case True
    then have "w' = w1" using r by (simp add: ret_def)
    then show ?thesis using t True
      by (auto simp: token_valid_def IsTokenValid_def has_client_def log_event_def Let_def usable_client_def split: option.split_asm sum.split_asm json.split_asm if_split_asm)
  next
    case False
    then show ?thesis using r Initialize_connected [of E ns]
      by (auto simp: Let_def attempt_def set_vault_def raise_def has_client_def usable_client_def split: prod.split_asm res.split_asm)
  qed
qed

text \<open>With a client the secrets are resolved without a panic, whoever replaces it in between.\<close>

lemma resolve_raw_panics:
  assumes "client_stays E" and "has_client w"
  shows "panics P (resolve_raw E raw) w"
proof -
  obtain c where "usable_client (w_vault (others E w)) = Some c" using assms by (auto simp: has_client_def client_stays_def)
  then show ?thesis by (simp add: panics_def resolve_raw_def Let_def split: prod.split)
qed

lemma resolve_part_panics:
  assumes "client_stays E" and "has_client w"
  shows "panics P (resolve_part E what raw) w"
proof (cases raw)
  case None
  then show ?thesis by (auto simp: resolve_part_def intro: panics_calm calm)
next
  case (Some r)
  have "panics P (bind (resolve_raw E raw) (\<lambda>(err, copy). case err of
      Some e \<Rightarrow> ret (None, [Errorf_w (''resolveSecrets: '' @ what @ '' secrets: '') e]) | None \<Rightarrow> ret (copy, []))) w"
    by (rule panics_bind, rule resolve_raw_panics [OF assms], rule panics_calm) (intro calm)
  then show ?thesis using Some by (simp add: resolve_part_def)
qed

lemma resolveSecrets_panics:
  assumes c: "client_stays E" and w: "has_client w"
  shows "panics P (resolveSecrets E) w"
  unfolding resolveSecrets_def
proof (rule panics_get_obj, rule panics_bind)
  let ?c = "spec_Connector (fc_Spec (w_obj w))"
  show "panics P (resolve_part E ''config'' (sp_Config ?c)) w" by (rule resolve_part_panics [OF c w])
  fix x w1 assume s: "resolve_part E ''config'' (sp_Config ?c) w = (Ok x, w1)"
  have w1: "has_client w1" using client.keepsD [OF client_utils(3) s] c w by (simp add: client_kept_def)
  show "panics P (case x of (resolvedConfig, errs1) \<Rightarrow> bind (resolve_part E ''auth'' (sp_Auth ?c)) (\<lambda>(resolvedAuth, errs2).
      if length (errs1 @ errs2) > 0 then raise (Joined (errs1 @ errs2)) else ret (resolvedConfig, resolvedAuth))) w1"
    unfolding split_beta
    by (rule panics_bind, rule resolve_part_panics [OF c w1], rule panics_calm) (intro calm)
qed

subsection \<open>The adoption\<close>

definition adoption_panics :: "env \<Rightarrow> FivetranConnector \<Rightarrow> bool" where
  "adoption_panics E obj \<longleftrightarrow> st_ConnectorID (fc_Status obj) = [] \<and> GetAnnotation (fc_Meta obj) annotationConnectorID \<noteq> []
     \<and> schema_panics E obj"

lemma adopt_panics:
  assumes "st_ConnectorID (fc_Status (w_obj w)) = []" and "GetAnnotation (fc_Meta (w_obj w)) annotationConnectorID \<noteq> []"
  shows "panics (\<lambda>_. adoption_panics E (w_obj w)) (adopt E i) w"
proof -
  have v: "panics (\<lambda>_. adoption_panics E (w_obj w)) (validateExisting E (w_obj w) existing) w'" for existing w'
    using assms validateSchema_panics [of E "w_obj w" existing w']
    by (auto simp: panics_def validateExisting_def raise_def adoption_panics_def)
  show ?thesis
    unfolding adopt_def handleConnectorFromAnnotation_def check_def
  proof (intro panics_attempt panics_get_obj panics_bind [OF panics_calm [OF calm_services(2)]])
    show "panics (\<lambda>_. adoption_panics E (w_obj w)) (case x of (existing, err) \<Rightarrow> case err of
        Some e \<Rightarrow> raise (g e) | None \<Rightarrow> bind (validateExisting E (w_obj w) existing) (\<lambda>_. setConnectorID E i)) w'" for x w' g
      by (cases x; cases "snd x") (simp_all add: panics_calm calm_basic panics_then [OF v calm_connector(3)])
  qed (auto intro!: panics_calm calm)
qed

lemma connector_identity_panics: "panics (\<lambda>_. adoption_panics E (w_obj w)) (connector_identity E rc ra) w"
  unfolding connector_identity_def Let_def
  by (rule panics_get_obj, intro panics_if)
    (auto intro!: panics_then [OF adopt_panics] intro: panics_calm calm)

lemma connector_phase_panics: "panics (\<lambda>_. adoption_panics E (w_obj w)) (connector_phase E dc ds rc ra) w"
proof -
  have "panics (\<lambda>_. adoption_panics E (w_obj w)) (reconcileConnector E rc ra) w"
    unfolding reconcileConnector_def
    by (rule panics_bind, rule connector_identity_panics, rule panics_calm) (intro calm)
  moreover have "panic_free (or_handle E ct r (reconcileSetupTests E i) (\<lambda>_. schema_phase E dc ds i rc ra))" for ct r i
    by (intro calm)
  ultimately show ?thesis
    unfolding connector_phase_def
    by (intro panics_get_obj panics_if panics_or_handle [where a = "reconcileConnector E rc ra"] panics_calm [OF calm_phases(2)])
      (simp_all add: panics_calm)
qed

subsection \<open>A whole run\<close>

lemma adoption_panics_same:
  "identity x = identity y \<Longrightarrow> fc_Spec x = fc_Spec y \<Longrightarrow> adoption_panics E x = adoption_panics E y"
  by (simp add: adoption_panics_def schema_panics_def identity_def)

lemma reconcile_needs_panics:
  assumes E: "client_stays E" and w: "has_client w"
  shows "panics (\<lambda>_. adoption_panics E (w_obj w)) (reconcile_needs E f) w"
proof -
  let ?P = "\<lambda>_. adoption_panics E (w_obj w)"
  have *: "panics ?P (or_handle E ct r (resolveSecrets E) (\<lambda>(rc, ra). connector_phase E dc ds rc ra)) w" for ct r dc ds
  proof (rule panics_or_handle, rule resolveSecrets_panics [OF E w])
    fix x w' assume "resolveSecrets E w = (Ok x, w')"
    then have "w_obj w' = w_obj w" by (rule obj_kept.keepsD [OF obj_kept_resolveSecrets])
    then show "panics ?P (case x of (rc, ra) \<Rightarrow> connector_phase E dc ds rc ra) w'"
      using connector_phase_panics [of E w'] by (simp split: prod.split)
  qed
  show ?thesis unfolding reconcile_needs_def
    by (rule panics_get_obj) (auto intro!: * panics_calm calm split: sum.split prod.split)
qed

lemma reconcile_live_panics:
  assumes E: "client_stays E" "stores E x h" and w: "has_client w" "synced E x h w"
  shows "panics (\<lambda>_. adoption_panics E (w_obj w)) (reconcile_live E) w"
  unfolding reconcile_live_def Let_def
proof (rule panics_or_handle, rule panics_calm [OF calm_utils(1)], rule panics_get_obj, rule panics_or_handle, rule panics_calm [OF calm_utils(3)])
  fix u w1 v w2 f assume 1: "ensureFinalizer E w = (Ok u, w1)" and 2: "take_force_label E f w1 = (Ok v, w2)"
  note s1 = synced_ensureFinalizer [OF E(2) w(2) 1]
  note s2 = synced_take_force_label [OF E(2) s1(1) 2]
  have "adoption_panics E (w_obj w2) = adoption_panics E (w_obj w)"
    by (rule adoption_panics_same, rule identity_cong) (simp_all add: s1 s2)
  moreover have "has_client w2"
    using client.keepsD [OF client_utils(1) 1] client.keepsD [OF client_utils(2) 2] E(1) w(1) by (simp add: client_kept_def)
  ultimately show "panics (\<lambda>_. adoption_panics E (w_obj w)) (reconcile_needs E f) w2"
    using reconcile_needs_panics [OF E(1), of w2 f] by simp
qed

lemma ensure_vault_panics: "panics (\<lambda>_. e_lookup_self E (w_trace w) = Inr None) (ensure_vault E ns) w"
proof -
  have "panics (\<lambda>_. e_lookup_self E (w_trace w) = Inr None) (token_valid E) w"
    by (auto simp: panics_def token_valid_def IsTokenValid_def Let_def split: option.split sum.split json.split)
  then show ?thesis unfolding ensure_vault_def Let_def
    by (rule panics_bind) (auto intro!: panics_calm calm)
qed

text \<open>C26: A reconciliation panics in at most two ways. Let Kubernetes store the writes it accepts on
  the resource that was read, and possibly reject others, and let the reconciliations that run at
  the same time never replace a vault client that is connected by none or by one that is not. Then
  a run that panics has either asked Vault for its token and got
  an answer without data, or it adopts a connection for a resource that is not being deleted, has no
  connector ID in its status and one in its annotation, and whose configuration has no schema_prefix,
  has a schema, and has an entry table_group_name that is not a string. In particular no step
  after the resolution of the secrets and the adoption, and no deletion, panics.\<close>

theorem Reconcile_panics:
  assumes get: "e_get E (w_trace w) = Inr obj" and "stores E obj (w_trace w)" and "client_stays E"
    and run: "Reconcile E cl ns w = (Panic m, w')"
  shows "cl \<and> (e_lookup_self E (w_trace w @ [KubeGet]) = Inr None
    \<or> om_DeletionTimestamp (fc_Meta obj) = None \<and> adoption_panics E obj)"
proof -
  let ?P = "\<lambda>_. cl \<and> (e_lookup_self E (w_trace w @ [KubeGet]) = Inr None \<or> om_DeletionTimestamp (fc_Meta obj) = None \<and> adoption_panics E obj)"
  have d: "panic_free (or_handle E ct r (handleDeletion E) (\<lambda>_. ret (result 0, None)))" for ct r by (intro calm)
  have "panics ?P (Reconcile E cl ns) w"
    unfolding Reconcile_def
  proof (intro panics_attempt panics_sum panics_if panics_get_obj panics_calm [OF calm_calls(1)] panics_calm [OF calm_basic(1)]
      panics_calm [OF calm_status(2)] panics_calm [OF d])
    fix x w1 assume g: "kube_get E w = (Ok x, w1)" and "\<not> \<not> cl"
    then have w1: "w_obj w1 = obj" "w_trace w1 = w_trace w @ [KubeGet]" and cl using get by (auto simp: kube_get_def log_event_def)
    then show "panics ?P (ensure_vault E ns) w1" using ensure_vault_panics [of E w1 ns] by (simp add: panics_def)
    fix y w2 assume v: "ensure_vault E ns w1 = (Ok y, w2)" and "\<not> om_DeletionTimestamp (fc_Meta (w_obj w2)) \<noteq> None"
    moreover have "has_client w2" by (rule ensure_vault_client [OF assms(3) v])
    moreover have "w_obj w2 = obj" using obj_kept.keepsD [OF obj_kept_ensure_vault v] w1 by simp
    moreover have "synced E obj (w_trace w) w2" by (rule synced_ensure_vault(1) [OF synced_get [OF get g] v])
    ultimately show "panics ?P (reconcile_live E) w2" using reconcile_live_panics [OF assms(3,2), of w2] \<open>cl\<close> by (simp add: panics_def)
  qed
  then show ?thesis using run by (simp add: panics_def)
qed

text \<open>An adoption whose configuration has a schema and a null table_group_name.\<close>

definition demo_null_group :: FivetranConnector where
  "demo_null_group = demo_new\<lparr>fc_Meta := (fc_Meta demo_new)\<lparr>om_Annotations := Some [(annotationConnectorID, ''conn1'')]\<rparr>,
     fc_Spec := (fc_Spec demo_new)\<lparr>spec_Connector := demo_spec\<lparr>sp_Config := Some \<lparr>Raw = Some ''c''\<rparr>\<rparr>\<rparr>\<rparr>"

definition demo_null_env :: env where
  "demo_null_env = served (demo_env\<lparr>e_codec :=
     \<lparr>Unmarshal = (\<lambda>s. Inr (JObject [(''schema'', JString ''s''), (''table_group_name'', JNull)])), Marshal = (\<lambda>j. Inr ''x'')\<rparr>\<rparr>) demo_null_group []"

lemma demo_null_run: "\<exists>m w'. Reconcile demo_null_env True ''ns'' demo_ready = (Panic m, w')"
proof -
  have p: "ParseInt64 ''3600'' = Some 3600" by (simp add: ParseInt64_def digits_value_def isDigit_def)
  show ?thesis
    by (simp add: run_defs demo_world_defs p demo_null_env_def served_def demo_null_group_def usable_client_def resolve_raw_def others_def ResolveSecrets_def
        HasPrefix_def resolveString_def gstring_def adopt_def handleConnectorFromAnnotation_def GetConnection_def validateExisting_def
        validateSchema_def UnmarshalMap_def expectedSchema_def schema_with_suffix_def text_at_def WrapFivetranError_def panic_def)
qed

theorem Reconcile_panics_witness:
  "(\<exists>m w'. Reconcile demo_null_env True ''ns'' demo_ready = (Panic m, w')) \<and> adoption_panics demo_null_env demo_null_group"
proof -
  obtain m w' where r: "Reconcile demo_null_env True ''ns'' demo_ready = (Panic m, w')" using demo_null_run by blast
  have h: "e_get demo_null_env (w_trace demo_ready) = Inr demo_null_group" "stores demo_null_env demo_null_group (w_trace demo_ready)"
    "client_stays demo_null_env"
    by (simp_all add: client_stays_def demo_null_env_def serves_stores serves_served demo_ready_def demo_world_def)
      (simp_all add: served_def demo_env_def)
  from Reconcile_panics [OF h r] r show ?thesis by (auto simp: demo_null_env_def served_def demo_env_def)
qed

end
