(* ===== verification/Call_Bounds.thy ===== *)
theory Call_Bounds
  imports Kube_Store Reconcile_Schema
begin

text \<open>
  How many calls one reconciliation makes. The Fivetran API is limited in its rate, and every write
  of the resource wakes the event filter again, so the calls of a run must not grow with what the
  servers answer. The bound of each kind of call is derived from the text of the program by rules that
  add the costs of a sequence and take the maximum over branches. Two kinds of reads grow with the
  resource: the columns of a table are read for each table that lists columns, and Vault is read for each reference.
\<close>

subsection \<open>Kinds of calls\<close>

datatype call_kind =
    Creation | ConnectionWrite | Deletion | SetupRun | ConnectionRead | SchemaWrite | SchemaReading | SchemaReloading | ColumnReading
  | ResourceRead | ResourceUpdate | StatusUpdate | SecretRead | ClientSetup | TokenLookup | Login | VaultReading

definition kind_of :: "event \<Rightarrow> call_kind" where
  "kind_of e = (case e of
      Sdk (ConnectionCreate _) \<Rightarrow> Creation | Sdk (ConnectionUpdate _ _) \<Rightarrow> ConnectionWrite
    | Sdk (ConnectionDelete _) \<Rightarrow> Deletion | Sdk (ConnectionSetupTests _ _ _) \<Rightarrow> SetupRun
    | Sdk (ConnectionDetails _) \<Rightarrow> ConnectionRead | Sdk (SchemaCreate _ _) \<Rightarrow> SchemaWrite
    | Sdk (SchemaUpdate _ _) \<Rightarrow> SchemaWrite | Sdk (SchemaDetails _) \<Rightarrow> SchemaReading
    | Sdk (SchemaReload _ _) \<Rightarrow> SchemaReloading | Sdk (ColumnConfigList _ _ _) \<Rightarrow> ColumnReading
    | KubeGet \<Rightarrow> ResourceRead | KubeUpdate _ \<Rightarrow> ResourceUpdate | KubeStatusUpdate _ \<Rightarrow> StatusUpdate
    | KubeSecretGet _ _ \<Rightarrow> SecretRead | VaultNewClient _ \<Rightarrow> ClientSetup | VaultLookupSelf \<Rightarrow> TokenLookup
    | VaultLogin _ \<Rightarrow> Login | VaultRead _ _ \<Rightarrow> VaultReading)"

definition tally :: "call_kind \<Rightarrow> event list \<Rightarrow> nat" where
  "tally k es = length (filter (\<lambda>e. kind_of e = k) es)"

definition calls :: "call_kind \<Rightarrow> world \<Rightarrow> nat" where
  "calls k w = tally k (w_trace w)"

lemma tally_simps [simp]:
  "tally k [] = 0" "tally k (e # es) = (if kind_of e = k then 1 else 0) + tally k es" "tally k (es @ fs) = tally k es + tally k fs"
  by (simp_all add: tally_def)

definition one :: "call_kind \<Rightarrow> call_kind \<Rightarrow> nat" where
  "one k k' = (if k = k' then 1 else 0)"

text \<open>The kinds whose number depends on the resource.\<close>

definition growing :: "call_kind \<Rightarrow> bool" where
  "growing k \<longleftrightarrow> k = ColumnReading \<or> k = VaultReading"

subsection \<open>The size of a resource\<close>

text \<open>The tables of enabled schemas that list columns, and the references to Vault.\<close>

definition lists_columns :: "TableObject option \<Rightarrow> nat" where
  "lists_columns t = (case t of None \<Rightarrow> 0 | Some to \<Rightarrow> if glen (to_Columns to) = 0 then 0 else 1)"

definition schema_tables :: "SchemaObject option \<Rightarrow> nat" where
  "schema_tables s = (case s of None \<Rightarrow> 0 | Some so \<Rightarrow>
     if so_Enabled so then sum_list (map (\<lambda>(_, t). lists_columns t) (gentries (so_Tables so))) else 0)"

definition column_tables :: "ConnectorSchemaConfig option \<Rightarrow> nat" where
  "column_tables cr = (case cr of None \<Rightarrow> 0 | Some c \<Rightarrow> sum_list (map (\<lambda>(_, s). schema_tables s) (gentries (csc_Schemas c))))"

fun references :: "json \<Rightarrow> nat" where
  "references (JString v) = (if HasPrefix v ''vault:'' then 1 else 0)"
| "references (JArray xs) = sum_list (map references xs)"
| "references (JObject m) = sum_list (map (\<lambda>(_, v). references v) m)"
| "references _ = 0"

definition raw_references :: "codec \<Rightarrow> RawExtension option \<Rightarrow> nat" where
  "raw_references cd raw = (case Option.bind raw Raw of None \<Rightarrow> 0 | Some bytes \<Rightarrow>
     (case Unmarshal cd bytes of Inl _ \<Rightarrow> 0 | Inr j \<Rightarrow> references j))"

definition spec_references :: "env \<Rightarrow> FivetranConnectorSpec \<Rightarrow> nat" where
  "spec_references E s = raw_references (e_codec E) (sp_Config (spec_Connector s)) + raw_references (e_codec E) (sp_Auth (spec_Connector s))"

text \<open>A resolution reads the store at most once for each reference.\<close>

lemma resolveString_reads:
  "length (vs_reads (snd (resolveString kv v kp st))) \<le> length (vs_reads st) + (if HasPrefix v ''vault:'' then 1 else 0)"
proof -
  have "length (vs_reads (snd (getPathData kv p kp vr st))) \<le> Suc (length (vs_reads st))" for p vr
    by (auto simp: getPathData_def Let_def split: option.split sum.split)
  then show ?thesis
    by (auto simp: resolveString_def split: sum.split prod.split option.split) (metis snd_conv)+
qed

lemma resolveValue_reads:
  "length (vs_reads (snd (resolveValue kv j kp st))) \<le> length (vs_reads st) + references j"
  "length (vs_reads (snd (resolveMap kv m kp rm st))) \<le> length (vs_reads st) + sum_list (map (\<lambda>(_, v). references v) m)"
  "length (vs_reads (snd (resolveSlice kv xs kp i rs st))) \<le> length (vs_reads st) + sum_list (map references xs)"
proof (induction kv j kp st and kv m kp rm st and kv xs kp i rs st
    rule: resolveValue_resolveMap_resolveSlice.induct)
  case (3 kv v kp st)
  then show ?case using resolveString_reads [of kv v kp st] by simp
next
  case (8 kv key v m kp rm st)
  let ?r = "resolveValue kv v (buildKeyPath kp key) st"
  from 8 show ?case by (cases ?r; cases "fst ?r") force+
next
  case (10 kv item xs kp i rs st)
  let ?r = "resolveValue kv item (kp @ ''['' @ Itoa (int i) @ '']'') st"
  from 10 show ?case by (cases ?r; cases "fst ?r") force+
qed (auto split: prod.split sum.split)

lemma ResolveSecrets_reads:
  "length (snd (snd (ResolveSecrets cd kv raw reads))) \<le> length reads + raw_references cd raw"
proof (cases "Option.bind raw Raw")
  case (Some bytes)
  show ?thesis
  proof (cases "Unmarshal cd bytes")
    case (Inr j)
    let ?r = "resolveValue kv j [] \<lparr>vs_cache = gmake, vs_reads = reads\<rparr>"
    have "length (vs_reads (snd ?r)) \<le> length reads + references j"
      using resolveValue_reads(1) [of kv j "[]" "\<lparr>vs_cache = gmake, vs_reads = reads\<rparr>"] by simp
    then show ?thesis using Some Inr
      by (cases ?r; cases "fst ?r") (auto simp: ResolveSecrets_def raw_references_def split: sum.split)
  qed (simp add: ResolveSecrets_def Some)
qed (simp add: ResolveSecrets_def)

subsection \<open>Costs\<close>

named_theorems costs \<open>the cost of an action, from the costs of its parts\<close>

text \<open>
  Counting one kind of call, from worlds with a property \<open>P\<close> that the writes of the operator
  keep. Where the number depends on the resource, \<open>P\<close> has to fix its spec.
\<close>

definition spec_same :: "(FivetranConnector \<Rightarrow> FivetranConnector) \<Rightarrow> bool" where
  "spec_same f \<longleftrightarrow> (\<forall>c. fc_Spec (f c) = fc_Spec c)"

lemma spec_sameI [costs]: "spec_same (\<lambda>c. c\<lparr>fc_Meta := g c\<rparr>)" "spec_same (\<lambda>c. c\<lparr>fc_Status := st c\<rparr>)"
  by (simp_all add: spec_same_def)

locale counted =
  fixes E :: env and P :: "world \<Rightarrow> bool" and S :: FivetranConnectorSpec and k :: call_kind
  assumes P_quiet: "P w \<Longrightarrow> w_obj w' = w_obj w \<Longrightarrow> w_trace w' = w_trace w @ es \<Longrightarrow> list_all quiet es \<Longrightarrow> P w'"
    and P_modify: "P w \<Longrightarrow> fc_Spec obj = fc_Spec (w_obj w) \<Longrightarrow> P (w\<lparr>w_obj := obj\<rparr>)"
    and P_update: "P w \<Longrightarrow> P (snd (kube_update E w))"
    and P_status: "P w \<Longrightarrow> P (snd (kube_status_update E w))"
    and P_spec: "growing k \<Longrightarrow> P w \<Longrightarrow> fc_Spec (w_obj w) = S"
begin

definition at_most :: "nat \<Rightarrow> 'a act \<Rightarrow> bool" where
  "at_most n a \<longleftrightarrow> (\<forall>w. P w \<longrightarrow> P (snd (a w)) \<and> calls k (snd (a w)) \<le> calls k w + n)"

lemma at_mostD: "at_most n a \<Longrightarrow> P w \<Longrightarrow> a w = (r, w') \<Longrightarrow> P w' \<and> calls k w' \<le> calls k w + n"
  by (metis at_most_def snd_conv)

lemma at_most_le: "at_most m a \<Longrightarrow> m \<le> n \<Longrightarrow> at_most n a"
  unfolding at_most_def by (meson add_left_mono le_trans)

lemma at_most_quiet:
  assumes "\<And>w. w_obj (snd (a w)) = w_obj w"
    and "\<And>w. \<exists>es. w_trace (snd (a w)) = w_trace w @ es \<and> list_all quiet es \<and> tally k es \<le> n"
  shows "at_most n a"
  unfolding at_most_def
proof (intro allI impI)
  fix w assume "P w"
  then show "P (snd (a w)) \<and> calls k (snd (a w)) \<le> calls k w + n"
    using assms(1) [of w] assms(2) [of w] P_quiet by (auto simp: calls_def)
qed

lemma costs_basic [costs]:
  "at_most 0 (ret x)" "at_most 0 (raise e)" "at_most 0 (panic m)" "at_most 0 get_obj" "at_most 0 (set_vault vc)"
  by (rule at_most_quiet; simp add: ret_def raise_def panic_def get_obj_def set_vault_def)+

lemma costs_modify [costs]: "spec_same f \<Longrightarrow> at_most 0 (modify_obj f)"
  by (auto simp: at_most_def modify_obj_def calls_def spec_same_def intro: P_modify)

lemma costs_bind [costs]:
  assumes "at_most m a" and "\<And>x. at_most n (f x)"
  shows "at_most (m + n) (bind a f)"
  unfolding at_most_def
proof (intro allI impI)
  fix w assume w: "P w"
  obtain r w' where a: "a w = (r, w')" by fastforce
  note s = at_mostD [OF assms(1) w a]
  have "P (snd (f x w')) \<and> calls k (snd (f x w')) \<le> calls k w' + n" for x using assms(2) s by (simp add: at_most_def)
  then show "P (snd (bind a f w)) \<and> calls k (snd (bind a f w)) \<le> calls k w + (m + n)"
    using s a by (cases r) (fastforce simp: bind_def intro: order_trans)+
qed

lemma costs_attempt [costs]:
  assumes "at_most m a" and "\<And>x. at_most n (f x)"
  shows "at_most (m + n) (attempt a f)"
  unfolding at_most_def
proof (intro allI impI)
  fix w assume w: "P w"
  obtain r w' where a: "a w = (r, w')" by fastforce
  note s = at_mostD [OF assms(1) w a]
  have "P (snd (f x w')) \<and> calls k (snd (f x w')) \<le> calls k w' + n" for x using assms(2) s by (simp add: at_most_def)
  then show "P (snd (attempt a f w)) \<and> calls k (snd (attempt a f w)) \<le> calls k w + (m + n)"
    using s a by (cases r) (fastforce simp: attempt_def intro: order_trans)+
qed

text \<open>Reading the object, where its spec matters.\<close>

lemma costs_get:
  assumes "\<And>c. (growing k \<Longrightarrow> fc_Spec c = S) \<Longrightarrow> at_most n (f c)"
  shows "at_most n (bind get_obj f)"
  unfolding at_most_def
proof (intro allI impI)
  fix w assume w: "P w"
  have "at_most n (f (w_obj w))" by (rule assms) (rule P_spec [OF _ w])
  then show "P (snd (bind get_obj f w)) \<and> calls k (snd (bind get_obj f w)) \<le> calls k w + n"
    using w by (simp add: at_most_def bind_def get_obj_def)
qed

lemma costs_cases [costs]:
  "at_most m a \<Longrightarrow> at_most n b \<Longrightarrow> at_most (max m n) (if c then a else b)"
  "at_most m a \<Longrightarrow> (\<And>y. at_most n (f y)) \<Longrightarrow> at_most (max m n) (case u of None \<Rightarrow> a | Some y \<Rightarrow> f y)"
  "(\<And>e. at_most m (g e)) \<Longrightarrow> (\<And>y. at_most n (h y)) \<Longrightarrow> at_most (max m n) (case s of Inl e \<Rightarrow> g e | Inr y \<Rightarrow> h y)"
  "(\<And>a b. at_most n (l a b)) \<Longrightarrow> at_most n (case p of (a, b) \<Rightarrow> l a b)"
  by (auto split: option.split sum.split prod.split intro: at_most_le [OF _ max.cobounded1] at_most_le [OF _ max.cobounded2])

lemma costs_let [costs]: "at_most n (f x) \<Longrightarrow> at_most n (let y = x in f y)"
  by simp

lemma costs_wrap [costs]: "at_most n a \<Longrightarrow> at_most n (wrap_err p a)"
  unfolding wrap_err_def
  using costs_attempt [OF _ costs_cases(3) [OF costs_basic(2) costs_basic(1)]] by fastforce

lemma costs_check [costs]: "at_most n a \<Longrightarrow> at_most n (check err f a)"
  by (auto simp: check_def split: option.split intro: at_most_le [OF costs_basic(2)])

lemma costs_for_entries:
  assumes "\<And>x v s. at_most (n v) (f x v s)"
  shows "at_most (sum_list (map (\<lambda>(_, v). n v) es)) (for_entries f es st)"
proof (induction es arbitrary: st)
  case (Cons e es)
  have "at_most (n (snd e) + sum_list (map (\<lambda>(_, v). n v) es)) (bind (f (fst e) (snd e) st) (for_entries f es))"
    by (rule costs_bind [OF assms Cons])
  then show ?case by (cases e) simp
qed (simp add: costs_basic)

subsection \<open>The calls\<close>

lemma costs_kube [costs]:
  "at_most (one k ResourceUpdate) (kube_update E)" "at_most (one k StatusUpdate) (kube_status_update E)"
  using P_update P_status
  by (auto simp: at_most_def calls_def kind_of_def one_def kube_update_def kube_status_update_def log_event_def Let_def split: sum.split)

lemma costs_secret [costs]: "at_most (one k SecretRead) (get_secret E ns n)"
  by (rule at_most_quiet) (auto simp: kind_of_def one_def get_secret_def log_event_def quiet_def Let_def split: sum.split)

lemma costs_sdk:
  "at_most (one k (kind_of (Sdk c))) (connection_call E c)" "at_most (one k (kind_of (Sdk c))) (schema_call E c)"
  by (rule at_most_quiet; auto simp: one_def connection_call_def schema_call_def log_event_def split: prod.split)+

lemma costs_services [costs]:
  "at_most (one k Creation) (CreateConnection E c)" "at_most (one k ConnectionRead) (GetConnection E i)"
  "at_most (one k ConnectionWrite) (UpdateConnection E i c)" "at_most (one k Deletion) (DeleteConnection E i)"
  "at_most (one k SetupRun) (RunSetupTests E i tc tf)" "at_most (one k SchemaReading) (GetSchemaDetails E i)"
  "at_most (one k SchemaReloading) (ReloadSchema E i m)"
  unfolding service_defs by (rule at_most_le [OF costs_sdk(1)] at_most_le [OF costs_sdk(2)], simp add: kind_of_def one_def)+

lemma costs_schema_services [costs]:
  "at_most (one k SchemaWrite) (CreateSchema E i b)" "at_most (one k SchemaWrite) (UpdateSchema E i b)"
  unfolding service_defs
  by (rule at_most_le, rule costs_cases(3) [OF costs_basic(1)], rule at_most_le [OF costs_sdk(2), where n = "one k SchemaWrite"];
      simp add: kind_of_def)+

lemma costs_columns [costs]: "at_most (one k ColumnReading) (GetColumnConfig E i s t)"
  by (rule at_most_quiet) (auto simp: kind_of_def one_def GetColumnConfig_def log_event_def Let_def split: prod.split option.split)

lemma costs_vault [costs]: "at_most (one k TokenLookup) (token_valid E)"
  by (rule at_most_quiet)
    (auto simp: kind_of_def one_def token_valid_def IsTokenValid_def log_event_def Let_def split: option.split sum.split json.split)

lemma costs_client [costs]: "at_most (one k ClientSetup + one k Login) (vault_NewClient E cfg)"
  by (rule at_most_quiet)
    (auto simp: kind_of_def one_def quiet_def vault_NewClient_def log_event_def Let_def split: option.split sum.split)

lemma tally_reads: "tally k (map (VaultRead m) ps) = (if k = VaultReading then length ps else 0)"
  by (induction ps) (auto simp: kind_of_def)

lemma costs_resolve_raw: "at_most (if k = VaultReading then raw_references (e_codec E) raw else 0) (resolve_raw E raw)"
proof (rule at_most_quiet)
  show "w_obj (snd (resolve_raw E raw w)) = w_obj w" for w
    by (auto simp: resolve_raw_def Let_def split: option.split prod.split)
  fix w
  show "\<exists>es. w_trace (snd (resolve_raw E raw w)) = w_trace w @ es \<and> list_all quiet es
      \<and> tally k es \<le> (if k = VaultReading then raw_references (e_codec E) raw else 0)"
  proof (cases "usable_client (w_vault (others E w))")
    case None
    then show ?thesis by (auto simp: resolve_raw_def Let_def intro!: exI [of _ "[]"] split: prod.split)
  next
    case (Some vc)
    let ?m = "cfg_MountPath (vc_Config vc)"
    obtain err raw' reads where r: "ResolveSecrets (e_codec E) (\<lambda>reads path. e_kv E (w_trace w @ map (VaultRead ?m) reads) ?m path) raw [] = (err, raw', reads)"
      by (metis prod_cases3)
    then have "length reads \<le> raw_references (e_codec E) raw"
      using ResolveSecrets_reads [of "e_codec E" "\<lambda>reads path. e_kv E (w_trace w @ map (VaultRead ?m) reads) ?m path" raw "[]"] by simp
    then show ?thesis using Some r
      by (auto simp: resolve_raw_def Let_def tally_reads list_all_iff intro!: exI [of _ "map (VaultRead ?m) reads"])
  qed
qed

subsection \<open>The phases\<close>

text \<open>The cost of a definition: unfold it, add up the costs of its parts, compare kind by kind.\<close>

lemma costs_setCondition [costs]: "at_most (one k StatusUpdate) (setCondition E ct st r m)"
  unfolding at_most_def
proof (intro allI impI)
  fix w assume w: "P w"
  have "P (snd (kube_status_update E (w\<lparr>w_obj := c\<rparr>))) \<and> calls k (snd (kube_status_update E (w\<lparr>w_obj := c\<rparr>))) \<le> calls k w + one k StatusUpdate"
    if "fc_Spec c = fc_Spec (w_obj w)" for c
    using costs_kube(2) P_modify [OF w that] by (auto simp: at_most_def calls_def)
  then show "P (snd (setCondition E ct st r m w)) \<and> calls k (snd (setCondition E ct st r m w)) \<le> calls k w + one k StatusUpdate"
    by (simp add: setCondition_eq with_condition_def)
qed

lemma costs_status [costs]: "at_most (one k StatusUpdate) (updateSetupTestsCondition E ws)"
  "at_most (2 * one k StatusUpdate) (handleError E ct r err)"
  unfolding updateSetupTestsCondition_def handleError_def with_result_def
  by (rule at_most_le, (rule costs)+, simp)+

lemma costs_or_handle [costs]:
  assumes "at_most m a" and "\<And>x. at_most n (c x)"
  shows "at_most (m + max (2 * one k StatusUpdate) n) (or_handle E ct r a c)"
  unfolding or_handle_def by (rule costs assms)+

lemma costs_ensure_vault [costs]:
  "at_most (one k TokenLookup + one k SecretRead + one k ClientSetup + one k Login) (ensure_vault E ns)"
  unfolding ensure_vault_def InitializeVaultClientFromSecret_def
  by (rule at_most_le, (rule costs)+, simp)

lemma costs_utils [costs]:
  "at_most (one k ResourceUpdate) (ensureFinalizer E)" "at_most (one k ResourceUpdate) (cleanupAnnotationsAndLabels E)"
  "at_most (one k ResourceUpdate) (take_force_label E b)"
  unfolding ensureFinalizer_def cleanupAnnotationsAndLabels_def take_force_label_def
  by (rule at_most_le, (rule costs)+, simp)+

definition vault_cost :: nat where
  "vault_cost = (if k = VaultReading then spec_references E S else 0)"

lemma costs_resolve_part: "at_most (if k = VaultReading then raw_references (e_codec E) raw else 0) (resolve_part E what raw)"
proof (cases raw)
  case None
  show ?thesis unfolding resolve_part_def None option.case by (rule at_most_le [OF costs_basic(1) le0])
next
  case (Some r)
  show ?thesis unfolding resolve_part_def Some option.case
    by (rule at_most_le, rule costs_bind [OF costs_resolve_raw], (rule costs)+, simp)
qed

lemma costs_resolveSecrets [costs]: "at_most vault_cost (resolveSecrets E)"
  unfolding resolveSecrets_def
proof (rule costs_get)
  fix c assume "growing k \<Longrightarrow> fc_Spec c = S"
  then have "vault_cost = (if k = VaultReading then raw_references (e_codec E) (sp_Config (spec_Connector (fc_Spec c))) else 0)
      + (if k = VaultReading then raw_references (e_codec E) (sp_Auth (spec_Connector (fc_Spec c))) else 0)"
    by (auto simp: vault_cost_def spec_references_def growing_def)
  then show "at_most vault_cost (bind (resolve_part E ''config'' (sp_Config (spec_Connector (fc_Spec c)))) (\<lambda>(resolvedConfig, errs1).
      bind (resolve_part E ''auth'' (sp_Auth (spec_Connector (fc_Spec c)))) (\<lambda>(resolvedAuth, errs2).
        if length (errs1 @ errs2) > 0 then raise (Joined (errs1 @ errs2)) else ret (resolvedConfig, resolvedAuth))))"
    by (elim ssubst, intro costs_bind [OF costs_resolve_part] costs_cases(4))
      (rule at_most_le, rule costs_bind [OF costs_resolve_part], (rule costs)+, simp)
qed

lemma costs_connector [costs]:
  "at_most (one k Creation) (createConnector E rc ra)" "at_most (one k ConnectionWrite) (updateConnector E i rc ra)"
  "at_most (one k StatusUpdate + one k ResourceUpdate) (setConnectorID E i)" "at_most (one k ResourceUpdate) (updateConnectorHash E)"
  "at_most (one k SetupRun + one k StatusUpdate) (reconcileSetupTests E i)"
  unfolding createConnector_def updateConnector_def setConnectorID_def updateConnectorHash_def reconcileSetupTests_def
  by (rule at_most_le, (rule costs)+, simp)+

lemma costs_validate [costs]: "at_most 0 (validateExisting E c existing)"
  by (rule at_most_quiet) (simp_all add: validateExisting_world)

lemma costs_adopt [costs]: "at_most (one k ConnectionRead + one k StatusUpdate + one k ResourceUpdate) (adopt E i)"
  unfolding adopt_def handleConnectorFromAnnotation_def by (rule at_most_le, (rule costs)+, simp)

lemma costs_schema_parts [costs]:
  "at_most (one k ResourceUpdate) (updateSchemaHash E)" "at_most (one k SchemaWrite + one k ResourceUpdate) (applySchema E i d)"
  "at_most (one k SchemaWrite + one k ResourceUpdate) (createNewSchema E i)" "at_most (one k ConnectionRead) (isConnectorSyncing E i)"
  "at_most (one k SchemaReloading + one k SchemaReading) (reload_details E i)"
  unfolding updateSchemaHash_def applySchema_def createNewSchema_def isConnectorSyncing_def reload_details_def reloadSchema_def
  by (rule at_most_le, (rule costs)+, simp)+

lemma costs_populate_table: "at_most (one k ColumnReading * lists_columns obj) (populateTable_body E i s t obj st)"
proof -
  have b: "at_most (one k ColumnReading) (bind (wrap_err p (GetColumnConfig E i s t)) (\<lambda>columns. ret (set_columns s t columns (fst st), True)))" for p
    by (rule at_most_le, (rule costs)+, simp)
  show ?thesis unfolding populateTable_body_def lists_columns_def
    by (auto intro: b at_most_le [OF costs_basic(1)] split: option.split)
qed

lemma costs_populate_schema: "at_most (one k ColumnReading * schema_tables obj) (populateSchema_body E i s obj st)"
proof -
  have "at_most (sum_list (map (\<lambda>(_, t). one k ColumnReading * lists_columns t) es)) (for_entries (populateTable_body E i s) es st)" for es
    by (rule costs_for_entries [OF costs_populate_table])
  moreover have "sum_list (map (\<lambda>(_, t). one k ColumnReading * lists_columns t) es) = one k ColumnReading * sum_list (map (\<lambda>(_, t). lists_columns t) es)"
    for es :: "(string \<times> TableObject option) list" by (induction es) (auto simp: algebra_simps)
  ultimately show ?thesis unfolding populateSchema_body_def schema_tables_def
    by (auto intro: at_most_le [OF costs_basic(1)] split: option.split)
qed

lemma costs_populate: "at_most (one k ColumnReading * column_tables cr) (populateColumnsForCR E i cr up)"
proof -
  have "at_most (sum_list (map (\<lambda>(_, s). one k ColumnReading * schema_tables s) es)) (for_entries (populateSchema_body E i) es st)" for es st
    by (rule costs_for_entries [OF costs_populate_schema])
  moreover have "sum_list (map (\<lambda>(_, s). one k ColumnReading * schema_tables s) es) = one k ColumnReading * sum_list (map (\<lambda>(_, s). schema_tables s) es)"
    for es :: "(string \<times> SchemaObject option) list" by (induction es) (auto simp: algebra_simps)
  ultimately show ?thesis unfolding populateColumnsForCR_def column_tables_def
    by (auto intro: at_most_le [OF costs_basic(1)] split: option.split)
qed

definition column_cost :: nat where
  "column_cost = one k ColumnReading * column_tables (spec_ConnectorSchemas S)"

text \<open>The columns that are read for the resource at hand.\<close>

lemma costs_populate_cr:
  fixes c :: FivetranConnector
  assumes "growing k \<Longrightarrow> fc_Spec c = S"
  shows "at_most column_cost (populateColumnsForCR E i (cr_schemas c) up)"
  by (rule at_most_le [OF costs_populate]) (use assms in \<open>auto simp: column_cost_def cr_schemas_def one_def growing_def\<close>)

lemma costs_first_columns [costs]: "at_most column_cost (first_columns E i d)"
  unfolding first_columns_def
  by (rule costs_get, rule at_most_le, rule costs_cases(1), rule costs_bind, rule costs_wrap, erule costs_populate_cr, (rule costs)+, simp)

lemma costs_second_pass [costs]:
  "at_most (one k SchemaReading + column_cost + one k SchemaWrite + one k ResourceUpdate) (second_pass E i)"
  unfolding second_pass_def
proof (rule at_most_le, rule costs_bind [OF costs_services(6)], rule costs_cases(4), rule costs_check, rule costs_get)
  fix c :: FivetranConnector and d assume c: "growing k \<Longrightarrow> fc_Spec c = S"
  show "at_most (column_cost + (one k SchemaWrite + one k ResourceUpdate))
      (bind (wrap_err ''reconcileSchema: second pass populate: '' (populateColumnsForCR E i (cr_schemas c) d)) (\<lambda>st.
        wrap_err ''reconcileSchema: second pass: '' (applySchema E i (fst st))))"
    by (rule costs_bind, rule costs_wrap, rule costs_populate_cr [OF c]) (simp, (rule costs)+)
qed simp

lemma costs_apply_and_verify [costs]:
  "at_most (2 * one k SchemaWrite + 2 * one k ResourceUpdate + 2 * one k SchemaReading + one k StatusUpdate + 2 * column_cost) (apply_and_verify E i l d)"
  unfolding apply_and_verify_def verifySchema_def schema_ready_def
  by (rule at_most_le, (rule costs)+, simp)

lemma costs_reconcileSchema [costs]:
  "at_most (one k ConnectionRead + 2 * one k SchemaWrite + 2 * one k ResourceUpdate + 4 * one k SchemaReading + one k SchemaReloading
     + one k StatusUpdate + 2 * column_cost) (reconcileSchema E i)"
  unfolding reconcileSchema_def reconcile_details_def schema_ready_def
  by (rule at_most_le, (rule costs)+, simp)

lemma costs_connector_identity [costs]:
  "at_most (max (one k Creation) (one k ConnectionRead + one k ConnectionWrite) + one k StatusUpdate + one k ResourceUpdate)
     (connector_identity E rc ra)"
  unfolding connector_identity_def by (rule at_most_le, (rule costs)+, simp)

text \<open>A run after the resource has been read.\<close>

lemma costs_live [costs]:
  "at_most (max (one k Creation) (one k ConnectionRead + one k ConnectionWrite) + one k ConnectionRead + one k ConnectionWrite + one k SetupRun
     + 2 * one k SchemaWrite + 4 * one k SchemaReading + one k SchemaReloading + 7 * one k ResourceUpdate
     + 6 * one k StatusUpdate + 2 * column_cost + vault_cost) (reconcile_live E)"
  unfolding reconcile_live_def reconcile_needs_def connector_phase_def reconcileConnector_def schema_phase_def finish_def
  by (rule at_most_le, (rule costs)+, simp)

lemma costs_handleDeletion [costs]: "at_most (one k Deletion + one k ResourceUpdate) (handleDeletion E)"
  unfolding handleDeletion_def by (rule at_most_le, (rule costs)+, simp)

lemma costs_with_resource:
  "at_most (one k TokenLookup + one k SecretRead + one k ClientSetup + one k Login + one k Deletion
     + max (one k Creation) (one k ConnectionRead + one k ConnectionWrite) + one k ConnectionRead + one k ConnectionWrite + one k SetupRun
     + 2 * one k SchemaWrite + 4 * one k SchemaReading + one k SchemaReloading + 7 * one k ResourceUpdate
     + 6 * one k StatusUpdate + 2 * column_cost + vault_cost)
     (if \<not> cl then handleError E ct1 r1 err1
      else attempt (ensure_vault E ns) (\<lambda>r. case r of Inl err \<Rightarrow> ret (result 0, Some err)
        | Inr _ \<Rightarrow> bind get_obj (\<lambda>connector.
            if om_DeletionTimestamp (fc_Meta connector) \<noteq> None
            then or_handle E ct2 r2 (handleDeletion E) (\<lambda>_. ret (result 0, None))
            else reconcile_live E)))"
  by (rule at_most_le, (rule costs)+, simp)

end

subsection \<open>A whole run\<close>

text \<open>
  The property of worlds: for the two kinds that grow with the resource, memory and server agree on
  its spec; for all others, nothing.
\<close>

definition counting :: "env \<Rightarrow> FivetranConnector \<Rightarrow> event list \<Rightarrow> call_kind \<Rightarrow> world \<Rightarrow> bool" where
  "counting E x h k w \<longleftrightarrow> (growing k \<longrightarrow> stores E x h \<and> spec_synced E x h w)"

interpretation run: counted E "counting E x h k" "fc_Spec x" k for E x h k
proof unfold_locales
  show "counting E x h k w'" if "counting E x h k w" "w_obj w' = w_obj w" "w_trace w' = w_trace w @ es" "list_all quiet es" for w w' es
    using that spec_synced_quiet [of E x h w w' es] by (simp add: counting_def)
  show "counting E x h k (w\<lparr>w_obj := obj\<rparr>)" if "counting E x h k w" "fc_Spec obj = fc_Spec (w_obj w)" for w obj
    using that spec_synced_quiet [of E x h w "w\<lparr>w_obj := obj\<rparr>" "[]"] by (simp add: counting_def)
  show "counting E x h k (snd (kube_update E w))" "counting E x h k (snd (kube_status_update E w))" if "counting E x h k w" for w
    using that spec_synced_update by (simp_all add: counting_def)
  show "fc_Spec (w_obj w) = fc_Spec x" if "growing k" "counting E x h k w" for w
    using that by (simp add: counting_def spec_synced_def)
qed

text \<open>The bound for every kind of call in one run, for a resource with the spec \<open>s\<close>.\<close>

fun call_bound :: "env \<Rightarrow> FivetranConnectorSpec \<Rightarrow> call_kind \<Rightarrow> nat" where
  "call_bound E s Creation = 1"
| "call_bound E s ConnectionWrite = 2"
| "call_bound E s Deletion = 1"
| "call_bound E s SetupRun = 1"
| "call_bound E s ConnectionRead = 2"
| "call_bound E s SchemaWrite = 2"
| "call_bound E s SchemaReading = 4"
| "call_bound E s SchemaReloading = 1"
| "call_bound E s ColumnReading = 2 * column_tables (spec_ConnectorSchemas s)"
| "call_bound E s ResourceRead = 1"
| "call_bound E s ResourceUpdate = 7"
| "call_bound E s StatusUpdate = 6"
| "call_bound E s SecretRead = 1"
| "call_bound E s ClientSetup = 1"
| "call_bound E s TokenLookup = 1"
| "call_bound E s Login = 1"
| "call_bound E s VaultReading = spec_references E s"

lemma Reconcile_calls:
  assumes get: "e_get E (w_trace w) = Inr x" and "growing k \<Longrightarrow> stores E x (w_trace w)"
  shows "calls k (snd (Reconcile E cl ns w)) \<le> calls k w + call_bound E (fc_Spec x) k"
proof -
  let ?w = "w\<lparr>w_obj := x, w_trace := w_trace w @ [KubeGet]\<rparr>"
  have g: "kube_get E w = (Ok (), ?w)" using get by (simp add: kube_get_def log_event_def)
  have "spec_synced E x (w_trace w) ?w"
    unfolding spec_synced_def by (intro conjI exI [of _ "[KubeGet]"]) (simp_all add: accept_def rejected_def)
  then have c: "counting E x (w_trace w) k ?w" using assms(2) by (simp add: counting_def)
  have n: "calls k ?w = calls k w + one k ResourceRead" for k by (simp add: calls_def kind_of_def one_def)
  note b = run.costs_with_resource [of E x "w_trace w" k, unfolded run.at_most_def, rule_format, OF c]
  show ?thesis
    unfolding Reconcile_def attempt_def [of "kube_get E"] g prod.case res.case sum.case
    by (rule order_trans [OF conjunct2 [OF b]], cases k)
      (simp_all add: n one_def run.column_cost_def run.vault_cost_def)
qed

lemma Reconcile_unread:
  assumes "e_get E (w_trace w) = Inl err"
  shows "calls k (snd (Reconcile E cl ns w)) \<le> calls k w + call_bound E s k"
  using assms by (cases k) (simp_all add: Reconcile_def attempt_def kube_get_def log_event_def ret_def calls_def kind_of_def)

text \<open>C21: The calls of one run are bounded. Whatever the servers answer and however the resource looks,
  it reads the resource once, creates at most one connection, updates a connection at most twice, deletes at most one, runs
  the setup tests at most once, writes the schema at most twice, reads it at most four times and
  reloads it at most once, asks for a connection at most twice, and updates the resource at most
  seven times and its status at most six times; it looks up its Vault token, reads the secret with the
  credentials, sets up a client and logs in at most once. The remaining kinds grow with the
  resource: if Kubernetes stores the writes it accepts on the resource that was read, the columns of
  tables are read at most twice for each table of an enabled schema that lists columns, and
  Vault is read at most once for each reference in the configuration and in the credentials of the resource.\<close>

theorem Reconcile_call_bound:
  "(\<not> growing k \<longrightarrow> calls k (snd (Reconcile E cl ns w)) \<le> calls k w + call_bound E s k)
   \<and> (e_get E (w_trace w) = Inr obj \<and> stores E obj (w_trace w) \<longrightarrow>
      calls k (snd (Reconcile E cl ns w)) \<le> calls k w + call_bound E (fc_Spec obj) k)"
proof -
  have "call_bound E s k = call_bound E s' k" if "\<not> growing k" for s' using that by (cases k) (simp_all add: growing_def)
  then have "\<not> growing k \<longrightarrow> calls k (snd (Reconcile E cl ns w)) \<le> calls k w + call_bound E s k"
    using Reconcile_calls [of E w] Reconcile_unread [of E w] by (cases "e_get E (w_trace w)") metis+
  then show ?thesis using Reconcile_calls by blast
qed

text \<open>The demo resource that lists a schema.\<close>

theorem Reconcile_call_bound_witness:
  "calls SchemaWrite (snd (Reconcile demo_server True ''ns'' demo_world)) \<le> 2
   \<and> calls ColumnReading (snd (Reconcile (served demo_server demo_listed []) True ''ns'' demo_world)) \<le> 2 * column_tables (Some demo_cr)"
proof -
  have g: "e_get (served demo_server demo_listed []) (w_trace demo_world) = Inr demo_listed
      \<and> stores (served demo_server demo_listed []) demo_listed (w_trace demo_world)"
    by (simp add: demo_world_def serves_stores serves_served) (simp add: served_def)
  have n: "\<not> growing SchemaWrite" "calls k demo_world = 0" "spec_ConnectorSchemas (fc_Spec demo_listed) = Some demo_cr" for k
    by (simp_all add: growing_def calls_def demo_world_def demo_listed_def)
  show ?thesis
    using Reconcile_call_bound [of SchemaWrite demo_server True "''ns''" demo_world "fc_Spec demo_listed" demo_listed]
      Reconcile_call_bound [of ColumnReading "served demo_server demo_listed []" True "''ns''" demo_world "fc_Spec demo_listed" demo_listed] g
    by (simp add: n)
qed

end
