(* ===== verification/Progress.thy ===== *)
theory Progress
  imports Panics Convergence
begin

text \<open>
  Reconciliation makes progress: in a world that cooperates, a run does succeed. Rules for total
  correctness say of an action that from every world with a property it returns a value, without an
  error and without a panic, in a world with another property. Together with Convergence this
  gives that one run settles the resource.
\<close>

subsection \<open>Total correctness\<close>

definition does :: "(world \<Rightarrow> bool) \<Rightarrow> 'a act \<Rightarrow> ('a \<Rightarrow> world \<Rightarrow> bool) \<Rightarrow> bool" where
  "does P a Q \<longleftrightarrow> (\<forall>w. P w \<longrightarrow> (\<exists>y w'. a w = (Ok y, w') \<and> Q y w'))"

lemma doesI: "(\<And>w. P w \<Longrightarrow> \<exists>y w'. a w = (Ok y, w') \<and> Q y w') \<Longrightarrow> does P a Q"
  by (simp add: does_def)

lemma doesE:
  assumes "does P a Q" and "P w"
  obtains y w' where "a w = (Ok y, w')" and "Q y w'"
  using assms by (auto simp: does_def)

lemma does_pre: "does P a Q \<Longrightarrow> (\<And>w. P' w \<Longrightarrow> P w) \<Longrightarrow> does P' a Q"
  by (auto simp: does_def)

lemma does_post: "does P a Q \<Longrightarrow> (\<And>y w. Q y w \<Longrightarrow> Q' y w) \<Longrightarrow> does P a Q'"
  unfolding does_def by blast

lemma does_case: "(\<And>w. P w \<Longrightarrow> does (\<lambda>w'. w' = w) a Q) \<Longrightarrow> does P a Q"
  by (auto simp: does_def)

lemma does_ret: "(\<And>w. P w \<Longrightarrow> Q y w) \<Longrightarrow> does P (ret y) Q"
  by (simp add: does_def ret_def)

lemma does_bind: "does P a Q \<Longrightarrow> (\<And>y. does (Q y) (f y) R) \<Longrightarrow> does P (bind a f) R"
  by (fastforce simp: does_def bind_def)

lemma does_get: "(\<And>w. P w \<Longrightarrow> does P (f (w_obj w)) Q) \<Longrightarrow> does P (bind get_obj f) Q"
  by (simp add: does_def bind_def get_obj_def)

lemma does_attempt: "does P a Q \<Longrightarrow> (\<And>y. does (Q y) (f (Inr y)) R) \<Longrightarrow> does P (attempt a f) R"
  by (fastforce simp: does_def attempt_def)

lemma does_wrap: "does P a Q \<Longrightarrow> does P (wrap_err p a) Q"
  unfolding wrap_err_def by (rule does_attempt) (auto intro: does_ret)

lemma does_or_handle: "does P a Q \<Longrightarrow> (\<And>y. does (Q y) (k y) R) \<Longrightarrow> does P (or_handle E ct r a k) R"
  unfolding or_handle_def by (rule does_attempt) auto

lemma does_if: "(c \<Longrightarrow> does P a Q) \<Longrightarrow> (\<not> c \<Longrightarrow> does P b Q) \<Longrightarrow> does P (if c then a else b) Q"
  by simp

lemma does_for_entries: "(\<And>k v s. does P (f k v s) (\<lambda>_. P)) \<Longrightarrow> does P (for_entries f es st) (\<lambda>_. P)"
proof (induction es arbitrary: st)
  case (Cons e es)
  then show ?case using does_bind [of P "f (fst e) (snd e) st" "\<lambda>_. P" "for_entries f es"] by (cases e) simp
qed (auto intro: does_ret)

subsection \<open>A run under way\<close>

text \<open>
  The resource in memory is the one that Kubernetes holds, its spec is the one that was read, there
  is a vault client, and no condition is false.
\<close>

definition working :: "env \<Rightarrow> FivetranConnector \<Rightarrow> event list \<Rightarrow> world \<Rightarrow> bool" where
  "working E x h w \<longleftrightarrow> ready E x h w \<and> fc_Spec (w_obj w) = fc_Spec x \<and> has_client w \<and> \<not> hasFailedConditions (w_obj w)"

lemma working_step:
  assumes "working E x h w" and "settle.keeps E x h a" and "a w = (r, w')" and "has_client w'" and "\<not> hasFailedConditions (w_obj w')"
  shows "working E x h w'"
  using assms ready_step [OF assms(2) _ assms(3)] by (auto simp: working_def later_def)

text \<open>A step that changes neither the resource nor the client.\<close>

lemma working_quiet:
  assumes "settle.keeps E x h a" and "working E x h w" and "a w = (r, w')" and "w_obj w' = w_obj w" and "w_vault w' = w_vault w"
  shows "working E x h w'"
  by (rule working_step [OF assms(2,1,3)]) (use assms in \<open>simp_all add: working_def has_client_def\<close>)

lemma failed_conditions: "hasFailedConditions c \<longleftrightarrow> (\<exists>cd \<in> set (conditions c). cond_Status cd = ConditionFalse)"
  by (auto simp: hasFailedConditions_def conditions_def list_ex_iff split: option.split)

lemma put_condition_set: "cd \<in> set (put_condition c cs) \<Longrightarrow> cd = c \<or> cd \<in> set cs"
  by (induction cs) (auto split: if_split_asm)

text \<open>Updates of the metadata, and conditions that report success.\<close>

lemma does_meta:
  assumes "settle.keeps E x h a"
    and "\<And>w. working E x h w \<Longrightarrow> P (w_obj w) \<Longrightarrow> \<exists>f. meta_only f \<and> a w = send_meta E f w \<and> Q (f (w_obj w))"
  shows "does (\<lambda>w. working E x h w \<and> P (w_obj w)) a (\<lambda>_ w. working E x h w \<and> Q (w_obj w))"
proof (rule doesI)
  fix w assume w: "working E x h w \<and> P (w_obj w)"
  then obtain f where f: "meta_only f" "a w = send_meta E f w" "Q (f (w_obj w))" using assms(2) by blast
  let ?w = "sent (KubeUpdate (f (w_obj w))) (f (w_obj w)) w"
  have r: "a w = (Ok (), ?w)"
    using send_meta_run [OF _ _ f(1), of E x h w] w f(2) by (simp add: working_def ready_def started_def)
  have "conditions (f (w_obj w)) = conditions (w_obj w)" using meta_onlyD [OF f(1), of "w_obj w"] by (simp add: conditions_def)
  then have "working E x h ?w"
    by (intro working_step [OF conjunct1 [OF w] assms(1) r])
      (use w in \<open>simp_all add: working_def has_client_def sent_def failed_conditions\<close>)
  with r f(3) show "\<exists>y w'. a w = (Ok y, w') \<and> working E x h w' \<and> Q (w_obj w')" by fastforce
qed

lemmas does_meta_any = does_meta [where P = "\<lambda>_. True" and Q = "\<lambda>_. True", simplified]

lemma does_send:
  assumes "settle.keeps E x h (send_meta E f)" and "meta_only f" and "\<And>c. P c \<Longrightarrow> P (f c)"
  shows "does (\<lambda>w. working E x h w \<and> P (w_obj w)) (send_meta E f) (\<lambda>_ w. working E x h w \<and> P (w_obj w))"
  by (rule does_meta [OF assms(1)]) (use assms(2,3) in blast)

lemma does_setCondition: "does (working E x h) (setCondition E ct ConditionTrue r m) (\<lambda>_. working E x h)"
proof (rule doesI)
  fix w assume w: "working E x h w"
  let ?cd = "\<lparr>cond_Type = ct, cond_Status = ConditionTrue, cond_Reason = r, cond_Message = m, cond_LastTransitionTime = e_now E (w_trace w)\<rparr>"
  let ?w = "sent (KubeStatusUpdate (with_condition ?cd (w_obj w))) (with_condition ?cd (w_obj w)) w"
  have r: "setCondition E ct ConditionTrue r m w = (Ok (), ?w)"
    using send_status_run [of E x h w "with_condition ?cd"] w
    by (auto simp: setCondition_send working_def ready_def started_def with_condition_def)
  have "\<not> hasFailedConditions (with_condition ?cd (w_obj w))"
    using w by (auto simp: working_def failed_conditions ConditionTrue_def ConditionFalse_def dest: put_condition_set)
  then have "working E x h ?w"
    by (intro working_step [OF w settle.setCondition_keeps r]) (use w in \<open>simp_all add: working_def has_client_def sent_def\<close>)
  with r show "\<exists>y w'. setCondition E ct ConditionTrue r m w = (Ok y, w') \<and> working E x h w'" by blast
qed

subsection \<open>A world that cooperates\<close>

text \<open>
  Fivetran accepts every request on connections; the connection is idle and its setup tests
  pass; and if the resource asks for the adoption of a connection, that connection matches.
\<close>

definition connections_ok :: "env \<Rightarrow> FivetranConnector \<Rightarrow> bool" where
  "connections_ok E x \<longleftrightarrow>
     (\<forall>h c. snd (e_connection E h c) = None \<and> conr_SyncState (fst (e_connection E h c)) \<noteq> ''syncing''
        \<and> test_errors (conr_SetupTests (fst (e_connection E h c))) = [])
   \<and> (\<forall>h i. fst (identity x) = [] \<and> snd (identity x) = i \<and> i \<noteq> [] \<longrightarrow> adoptable E x (fst (e_connection E h (ConnectionDetails i))))"

text \<open>The parts of the spec can be encoded, the secrets resolved, and the results decoded.\<close>

definition decodes :: "env \<Rightarrow> RawExtension option \<Rightarrow> bool" where
  "decodes E raw \<longleftrightarrow> (\<forall>what. \<exists>m. decode_raw (e_codec E) what raw = Inr m)"

definition resolvable :: "env \<Rightarrow> RawExtension option \<Rightarrow> bool" where
  "resolvable E raw \<longleftrightarrow> (\<forall>h mount. \<exists>raw' reads.
     ResolveSecrets (e_codec E) (\<lambda>reads path. e_kv E (h @ map (VaultRead mount) reads) mount path) raw [] = (None, raw', reads)
     \<and> decodes E raw')"

definition spec_ok :: "env \<Rightarrow> FivetranConnectorSpec \<Rightarrow> bool" where
  "spec_ok E s \<longleftrightarrow> (\<exists>b. e_marshal_connector E (spec_Connector s) = Inr b)
     \<and> (\<forall>c. spec_ConnectorSchemas s = Some c \<longrightarrow> (\<exists>b. e_marshal_schemas E c = Inr b))
     \<and> resolvable E (sp_Config (spec_Connector s)) \<and> resolvable E (sp_Auth (spec_Connector s))"

subsection \<open>The connector\<close>

lemma does_connection:
  assumes "connections_ok E x" and "\<And>h. does (working E x h0) (k (fst (e_connection E h c))) Q"
  shows "does (working E x h0) (bind (connection_call E c) (\<lambda>(resp, err). check err f (k resp))) Q"
proof (rule does_bind)
  show "does (working E x h0) (connection_call E c) (\<lambda>p w. working E x h0 w \<and> (\<exists>h. p = (fst (e_connection E h c), None)))"
  proof (rule doesI)
    fix w assume w: "working E x h0 w"
    obtain resp where resp: "e_connection E (w_trace w) c = (resp, None)"
      using assms(1) by (metis connections_ok_def prod.collapse)
    then have r: "connection_call E c w = (Ok (resp, None), log_event (Sdk c) w)"
      by (simp add: connection_call_def WrapFivetranError_None)
    have "working E x h0 (log_event (Sdk c) w)" by (rule working_quiet [OF settle_connection w r]) (simp_all add: log_event_def)
    then show "\<exists>y w'. connection_call E c w = (Ok y, w') \<and> working E x h0 w' \<and> (\<exists>h. y = (fst (e_connection E h c), None))"
      using r resp by (metis fst_conv)
  qed
  show "does (\<lambda>w. working E x h0 w \<and> (\<exists>h. p = (fst (e_connection E h c), None))) (case p of (resp, err) \<Rightarrow> check err f (k resp)) Q" for p
    using assms(2) by (auto simp: does_def check_def)
qed

lemma does_toFivetran:
  assumes "decodes E rc" "decodes E ra" and "\<And>fc. does P (k fc) Q"
  shows "does P (case toFivetranConnector E c rc ra of Inl err \<Rightarrow> raise err | Inr fc \<Rightarrow> k fc) Q"
proof -
  obtain m n where "decode_raw (e_codec E) ''config'' rc = Inr m" "decode_raw (e_codec E) ''auth'' ra = Inr n"
    using assms(1,2) by (meson decodes_def)
  then obtain fc where "toFivetranConnector E c rc ra = Inr fc" by (simp add: toFivetranConnector_def Let_def)
  then show ?thesis using assms(3) by simp
qed

lemma does_updateConnector:
  assumes "connections_ok E x" "decodes E rc" "decodes E ra"
  shows "does (working E x h) (updateConnector E i rc ra) (\<lambda>_. working E x h)"
  unfolding updateConnector_def UpdateConnection_def
  by (intro does_get does_toFivetran [OF assms(2,3)] does_connection [OF assms(1)]) (auto intro: does_ret)

lemma does_createConnector:
  assumes "connections_ok E x" "real_ids (e_connection E)" "decodes E rc" "decodes E ra"
  shows "does (working E x h) (createConnector E rc ra) (\<lambda>i w. working E x h w \<and> i \<noteq> [])"
proof -
  have "conr_ID (fst (e_connection E h' (ConnectionCreate q))) \<noteq> []" for h' q
    using assms(1,2) unfolding real_ids_def connections_ok_def by (metis prod.collapse)
  then show ?thesis
    unfolding createConnector_def CreateConnection_def
    by (intro does_get does_toFivetran [OF assms(3,4)] does_connection [OF assms(1)]) (auto intro: does_ret)
qed

lemma vault_kept_setID: "vault_kept.keeps (setConnectorID E i)"
  unfolding setConnectorID_def by (intro vault_kept.keeps_rules vault_kept_steps)

lemma does_setConnectorID:
  assumes "i \<noteq> []"
  shows "does (working E x h) (setConnectorID E i) (\<lambda>_. working E x h)"
proof (rule doesI)
  fix w assume w: "working E x h w"
  then obtain w' where r: "setConnectorID E i w = (Ok (), w')" and c: "conditions (w_obj w') = conditions (w_obj w)"
    using setConnectorID_run [of E x h w i] by (auto simp: working_def ready_def started_def)
  have "w_vault w' = w_vault w" by (rule vault_kept.keepsD [OF vault_kept_setID r])
  then have "working E x h w'"
    by (intro working_step [OF w settle_setConnectorID [OF assms] r]) (use w c in \<open>simp_all add: working_def has_client_def failed_conditions\<close>)
  with r show "\<exists>y w'. setConnectorID E i w = (Ok y, w') \<and> working E x h w'" by blast
qed

lemma does_validateExisting:
  assumes "adoptable E x existing"
  shows "does (working E x h) (validateExisting E c existing) (\<lambda>_. working E x h) \<or> fc_Spec c \<noteq> fc_Spec x"
proof -
  have "validateExisting E c existing w = (Ok (), w)" if "fc_Spec c = fc_Spec x" for w
    using assms that validateSchema_fits [of E c existing w] by (auto simp: validateExisting_def adoptable_def schema_fits_def split: if_split_asm)
  then show ?thesis by (auto simp: does_def)
qed

lemma does_adopt:
  assumes "connections_ok E x" and "identity x = ([], i)" and "i \<noteq> []"
  shows "does (working E x h) (adopt E i) (\<lambda>_. working E x h)"
  unfolding adopt_def
proof (rule does_attempt)
  have a: "adoptable E x (fst (e_connection E h' (ConnectionDetails i)))" for h'
    using assms by (simp add: connections_ok_def)
  show "does (working E x h) (handleConnectorFromAnnotation E i) (\<lambda>_. working E x h)"
    unfolding handleConnectorFromAnnotation_def GetConnection_def
  proof (intro does_get does_connection [OF assms(1)] does_bind [OF _ does_setConnectorID [OF assms(3)]])
    fix w h' assume "working E x h w"
    then show "does (working E x h) (validateExisting E (w_obj w) (fst (e_connection E h' (ConnectionDetails i)))) (\<lambda>_. working E x h)"
      using does_validateExisting [OF a, of h "w_obj w"] by (auto simp: working_def)
  qed
qed (auto intro: does_ret)

lemma does_connector_identity:
  assumes "connections_ok E x" "real_ids (e_connection E)" "decodes E rc" "decodes E ra"
  shows "does (\<lambda>w. working E x h w \<and> identity (w_obj w) = identity x) (connector_identity E rc ra) (\<lambda>_. working E x h)"
  unfolding connector_identity_def Let_def
proof (rule does_get, rule does_pre [where P = "working E x h"])
  fix w assume w: "working E x h w \<and> identity (w_obj w) = identity x"
  let ?s = "st_ConnectorID (fc_Status (w_obj w))" and ?a = "GetAnnotation (fc_Meta (w_obj w)) annotationConnectorID"
  have i: "identity x = (?s, ?a)" using w by (metis identity_def)
  have u: "does (working E x h) (bind (updateConnector E j rc ra) (\<lambda>_. ret j)) (\<lambda>_. working E x h)" for j
    by (rule does_bind [OF does_updateConnector]) (auto intro: assms does_ret)
  have n: "does (working E x h) (bind (createConnector E rc ra) (\<lambda>j. bind (setConnectorID E j) (\<lambda>_. ret j))) (\<lambda>_. working E x h)"
    by (rule does_bind [OF does_createConnector [OF assms]], rule does_case)
      (auto intro!: does_bind [OF does_pre [OF does_setConnectorID]] does_ret)
  show "does (working E x h) (if ?s \<noteq> [] then bind (updateConnector E ?s rc ra) (\<lambda>_. ret ?s)
      else if ?a \<noteq> [] then bind (adopt E ?a) (\<lambda>_. bind (updateConnector E ?a rc ra) (\<lambda>_. ret ?a))
      else bind (createConnector E rc ra) (\<lambda>j. bind (setConnectorID E j) (\<lambda>_. ret j))) (\<lambda>_. working E x h)"
    using i by (intro does_if u n does_bind [OF does_adopt [OF assms(1)]]) auto
qed simp

lemma does_hashes:
  assumes "spec_ok E (fc_Spec x)"
  shows "does (working E x h) (updateConnectorHash E) (\<lambda>_. working E x h)" and "does (working E x h) (updateSchemaHash E) (\<lambda>_. working E x h)"
proof -
  have "\<exists>f. meta_only f \<and> updateConnectorHash E w = send_meta E f w" if w: "working E x h w" for w
  proof -
    obtain v where "calculateConnectorHash E (w_obj w) = Inr v"
      using assms w by (auto simp: spec_ok_def calculateConnectorHash_def working_def)
    then show ?thesis using meta_onlyI [of "\<lambda>m. SetAnnotation m annotationConnectorHash v"]
      by (auto simp: updateConnectorHash_def bind_def [of get_obj] get_obj_def send_meta_def)
  qed
  then show "does (working E x h) (updateConnectorHash E) (\<lambda>_. working E x h)" by (rule does_meta_any [OF settle_hash(1)])
  have "\<exists>f. meta_only f \<and> updateSchemaHash E w = send_meta E f w" if w: "working E x h w" for w
  proof -
    obtain v where "calculateSchemaHash E (w_obj w) = Inr v"
      using assms w by (cases "spec_ConnectorSchemas (fc_Spec x)") (auto simp: spec_ok_def calculateSchemaHash_def working_def)
    then show ?thesis using meta_onlyI [of "\<lambda>m. SetAnnotation m annotationSchemaHash v"]
      by (auto simp: updateSchemaHash_def bind_def [of get_obj] get_obj_def send_meta_def)
  qed
  then show "does (working E x h) (updateSchemaHash E) (\<lambda>_. working E x h)" by (rule does_meta_any [OF settle_hash(2)])
qed

lemma does_reconcileConnector:
  assumes "connections_ok E x" "real_ids (e_connection E)" "spec_ok E (fc_Spec x)" "decodes E rc" "decodes E ra"
  shows "does (\<lambda>w. working E x h w \<and> identity (w_obj w) = identity x) (reconcileConnector E rc ra) (\<lambda>_. working E x h)"
  unfolding reconcileConnector_def
  by (rule does_bind [OF does_connector_identity [OF assms(1,2,4,5)]], rule does_bind [OF does_hashes(1) [OF assms(3)]],
      rule does_bind [OF does_setCondition]) (auto intro: does_ret)

lemma does_reconcileSetupTests:
  assumes "connections_ok E x"
  shows "does (working E x h) (reconcileSetupTests E i) (\<lambda>_. working E x h)"
proof -
  have u: "does (working E x h) (updateSetupTestsCondition E ws) (\<lambda>_. working E x h)" for ws
    unfolding updateSetupTestsCondition_def Let_def by (intro does_get does_if does_setCondition)
  have b: "does (working E x h) (bind (updateSetupTestsCondition E ws) (\<lambda>_. ret ys)) (\<lambda>_. working E x h)" for ws and ys :: "string list"
    by (rule does_bind [OF u]) (auto intro: does_ret)
  show ?thesis unfolding reconcileSetupTests_def RunSetupTests_def Let_def
    using assms by (intro does_get does_if does_connection [OF assms] b) (auto simp: connections_ok_def)
qed

subsection \<open>The secrets\<close>

lemma decodes_nil [simp]: "decodes E None"
  by (simp add: decodes_def decode_raw_def)

definition resolved :: "env \<Rightarrow> FivetranConnector \<Rightarrow> RawExtension option \<times> goerr list \<Rightarrow> world \<Rightarrow> bool" where
  "resolved E obj y w \<longleftrightarrow> (has_client w \<and> w_obj w = obj) \<and> snd y = [] \<and> decodes E (fst y)"

lemma does_resolve_part:
  assumes "client_stays E" and "resolvable E raw"
  shows "does (\<lambda>w. has_client w \<and> w_obj w = obj) (resolve_part E what raw) (resolved E obj)"
proof (cases raw)
  case None
  then show ?thesis by (auto simp: resolve_part_def resolved_def intro: does_ret)
next
  case (Some rw)
  have "does (\<lambda>w. has_client w \<and> w_obj w = obj) (resolve_raw E raw) (\<lambda>(err, raw') w. (has_client w \<and> w_obj w = obj) \<and> err = None \<and> decodes E raw')"
  proof (rule doesI)
    fix w assume w: "has_client w \<and> w_obj w = obj"
    obtain vc where vc: "usable_client (w_vault (others E w)) = Some vc"
      using w assms(1) by (auto simp: has_client_def client_stays_def)
    let ?m = "cfg_MountPath (vc_Config vc)"
    obtain raw' reads where
      "ResolveSecrets (e_codec E) (\<lambda>reads path. e_kv E (w_trace w @ map (VaultRead ?m) reads) ?m path) raw [] = (None, raw', reads)" and d: "decodes E raw'"
      using assms(2) unfolding resolvable_def by blast
    then have "resolve_raw E raw w = (Ok (None, raw'), (others E w)\<lparr>w_trace := w_trace w @ map (VaultRead ?m) reads\<rparr>)"
      using vc by (simp add: resolve_raw_def Let_def)
    then show "\<exists>y w'. resolve_raw E raw w = (Ok y, w')
        \<and> (case y of (err, raw') \<Rightarrow> \<lambda>w. (has_client w \<and> w_obj w = obj) \<and> err = None \<and> decodes E raw') w'"
      using vc d w by (simp add: has_client_def)
  qed
  then have "does (\<lambda>w. has_client w \<and> w_obj w = obj) (bind (resolve_raw E raw) (\<lambda>(err, copy). case err of
      Some e \<Rightarrow> ret (None, [Errorf_w (''resolveSecrets: '' @ what @ '' secrets: '') e]) | None \<Rightarrow> ret (copy, []))) (resolved E obj)"
    by (rule does_bind) (auto simp: does_def ret_def resolved_def)
  then show ?thesis using Some by (simp add: resolve_part_def)
qed

lemma does_resolve:
  assumes "client_stays E" and "spec_ok E (fc_Spec obj)"
  shows "does (\<lambda>w. has_client w \<and> w_obj w = obj) (resolveSecrets E)
    (\<lambda>(rc, ra) w. (has_client w \<and> w_obj w = obj) \<and> decodes E rc \<and> decodes E ra)"
  unfolding resolveSecrets_def
proof (rule does_get)
  fix w assume "has_client w \<and> w_obj w = obj"
  then have s: "w_obj w = obj" by simp
  have p: "resolvable E (sp_Config (spec_Connector (fc_Spec obj)))" "resolvable E (sp_Auth (spec_Connector (fc_Spec obj)))"
    using assms(2) by (simp_all add: spec_ok_def)
  have two: "does (resolved E obj y) (resolve_part E ''auth'' (sp_Auth (spec_Connector (fc_Spec obj))))
      (\<lambda>z w. resolved E obj y w \<and> resolved E obj z w)" for y
    using does_resolve_part [OF assms(1) p(2), of obj "''auth''"] unfolding does_def resolved_def by blast
  show "does (\<lambda>w. has_client w \<and> w_obj w = obj)
     (bind (resolve_part E ''config'' (sp_Config (spec_Connector (fc_Spec (w_obj w))))) (\<lambda>(resolvedConfig, errs1).
      bind (resolve_part E ''auth'' (sp_Auth (spec_Connector (fc_Spec (w_obj w))))) (\<lambda>(resolvedAuth, errs2).
        if length (errs1 @ errs2) > 0 then raise (Joined (errs1 @ errs2)) else ret (resolvedConfig, resolvedAuth))))
     (\<lambda>(rc, ra) w. (has_client w \<and> w_obj w = obj) \<and> decodes E rc \<and> decodes E ra)"
    unfolding s
    by (rule does_bind [OF does_resolve_part [OF assms(1) p(1)]], unfold split_beta, rule does_bind [OF two])
      (auto simp: does_def resolved_def ret_def raise_def)
qed

lemma does_resolveSecrets:
  assumes "client_stays E" and "spec_ok E (fc_Spec x)"
  shows "does (\<lambda>w. working E x h w \<and> P (w_obj w)) (resolveSecrets E)
    (\<lambda>(rc, ra) w. (working E x h w \<and> P (w_obj w)) \<and> decodes E rc \<and> decodes E ra)"
proof (rule doesI)
  fix w assume w: "working E x h w \<and> P (w_obj w)"
  then have "spec_ok E (fc_Spec (w_obj w))" and c: "has_client w" using assms(2) by (simp_all add: working_def)
  from does_resolve [OF assms(1) this(1)] c obtain rc ra w' where r: "resolveSecrets E w = (Ok (rc, ra), w')"
    and w': "has_client w'" "w_obj w' = w_obj w" "decodes E rc" "decodes E ra" by (fastforce simp: does_def)
  have "working E x h w'"
    by (rule working_step [OF conjunct1 [OF w] settle.resolveSecrets_keeps r]) (use w w' in \<open>simp_all add: working_def\<close>)
  with r w w' show "\<exists>y w'. resolveSecrets E w = (Ok y, w')
      \<and> (case y of (rc, ra) \<Rightarrow> \<lambda>w. (working E x h w \<and> P (w_obj w)) \<and> decodes E rc \<and> decodes E ra) w'" by simp
qed

subsection \<open>The schema\<close>

text \<open>
  Fivetran as a server of schemas, for a resource with the schema \<open>c\<close>. A response is well-formed,
  holds no null schema and locks no column that the resource disables, nor does a list of columns
  that is fetched for a table; before a first write or reload the schema may be unknown; every
  other request is accepted; and the details that are read after a write reflect it.
\<close>

definition full_response :: "ConnectorSchemaConfig \<Rightarrow> SchemaDetailsResponse \<Rightarrow> bool" where
  "full_response c r \<longleftrightarrow> good_response r \<and> (\<forall>s. glookup (sdr_Schemas r) s \<noteq> Some None) \<and> (\<forall>s t k. \<not> disables_locked r c s t k)"

definition columns_free :: "ConnectorSchemaConfig \<Rightarrow> string \<Rightarrow> string \<Rightarrow> ColumnResponse option gomap \<Rightarrow> bool" where
  "columns_free c s t columns \<longleftrightarrow> (\<forall>so to k co uc. glookup (csc_Schemas c) s = Some (Some so) \<and> glookup (so_Tables so) t = Some (Some to)
     \<and> glookup (to_Columns to) k = Some (Some co) \<and> \<not> co_Enabled co \<and> glookup columns k = Some (Some uc) \<longrightarrow> isColumnPatchAllowed (Some uc))"

definition schema_known :: "event list \<Rightarrow> bool" where
  "schema_known h \<longleftrightarrow> list_ex (\<lambda>e. case e of Sdk (SchemaReload _ _) \<Rightarrow> True | _ \<Rightarrow> written e \<noteq> None) h"

definition last_write :: "event list \<Rightarrow> SchemaRequest option" where
  "last_write h = foldl (\<lambda>r e. case written e of None \<Rightarrow> r | Some q \<Rightarrow> Some q) None h"

definition request_handling :: "SchemaRequest \<Rightarrow> string" where
  "request_handling r = (case srq_SchemaChangeHandling r of None \<Rightarrow> [] | Some s \<Rightarrow> s)"

definition schemas_ok :: "env \<Rightarrow> ConnectorSchemaConfig \<Rightarrow> bool" where
  "schemas_ok E c \<longleftrightarrow>
     (\<forall>h q. full_response c (fst (e_schema E h q)) \<and> gwf (fst (e_columns E h q)) \<and> gkeys_named (\<lambda>_. True) (fst (e_columns E h q))
        \<and> snd (e_columns E h q) = None)
   \<and> (\<forall>h i s t. columns_free c s t (fst (e_columns E h (ColumnConfigList i s t))))
   \<and> (\<forall>h q. snd (e_schema E h q) \<noteq> None \<longrightarrow>
        (\<exists>i. q = SchemaDetails i) \<and> cr_Code (sdr_Common (fst (e_schema E h q))) = SchemaNotFoundError \<and> \<not> schema_known h)
   \<and> (\<forall>h i r. last_write h = Some r \<and> asks_for c r \<longrightarrow>
        reflects (fst (e_schema E h (SchemaDetails i))) (request_handling r) (view_request r))"

text \<open>No schema, table or column of the resource is listed twice or has the empty name.\<close>

definition names_ok :: "ConnectorSchemaConfig \<Rightarrow> bool" where
  "names_ok c \<longleftrightarrow> config_wf c \<and> config_named c"

lemma last_write_snoc: "last_write (h @ [e]) = (case written e of None \<Rightarrow> last_write h | Some q \<Rightarrow> Some q)"
  by (simp add: last_write_def split: option.split)

lemma last_write_grows: "grows (\<lambda>e. written e = None) w w' \<Longrightarrow> last_write (w_trace w') = last_write (w_trace w)"
proof -
  have "list_all (\<lambda>e. written e = None) es \<Longrightarrow> last_write (h @ es) = last_write h" for h es
    by (induction es rule: rev_induct) (simp_all add: last_write_snoc flip: append_assoc)
  then show "grows (\<lambda>e. written e = None) w w' \<Longrightarrow> last_write (w_trace w') = last_write (w_trace w)" by (auto simp: grows_def)
qed

lemma last_write_known: "last_write h = Some r \<Longrightarrow> schema_known h"
  by (induction h arbitrary: r rule: rev_induct)
    (auto simp: last_write_snoc schema_known_def last_write_def [of "[]"] split: option.split_asm event.split sdk_call.split)

lemma unlocked_set_columns:
  assumes "\<not> disables_locked up c s' t' k" and "columns_free c s t columns"
  shows "\<not> disables_locked (set_columns s t columns up) c s' t' k"
proof
  assume "disables_locked (set_columns s t columns up) c s' t' k"
  then obtain so to co us ut uc where c: "glookup (csc_Schemas c) s' = Some (Some so)" "so_Enabled so" "glookup (so_Tables so) t' = Some (Some to)"
      "glookup (to_Columns to) k = Some (Some co)" "\<not> co_Enabled co"
    and u: "glookup (sdr_Schemas (set_columns s t columns up)) s' = Some (Some us)" "glookup (schr_Tables us) t' = Some (Some ut)"
      "glookup (tabr_Columns ut) k = Some (Some uc)" "\<not> isColumnPatchAllowed (Some uc)"
    unfolding disables_locked_def by blast
  have "(s' = s \<and> t' = t \<and> tabr_Columns ut = columns)
      \<or> (\<exists>us0 ut0. glookup (sdr_Schemas up) s' = Some (Some us0) \<and> glookup (schr_Tables us0) t' = Some (Some ut0) \<and> tabr_Columns ut0 = tabr_Columns ut)"
    using u(1,2) by (auto simp: set_columns_def gomap split: option.split_asm if_split_asm)
  then show False
  proof
    assume "s' = s \<and> t' = t \<and> tabr_Columns ut = columns"
    then show False using c u(3,4) assms(2) unfolding columns_free_def by metis
  next
    assume "\<exists>us0 ut0. glookup (sdr_Schemas up) s' = Some (Some us0) \<and> glookup (schr_Tables us0) t' = Some (Some ut0) \<and> tabr_Columns ut0 = tabr_Columns ut"
    then show False using assms(1) c u(3,4) unfolding disables_locked_def by metis
  qed
qed

lemma full_set_columns:
  assumes "full_response c up" and "gwf columns" and "gkeys_named (\<lambda>_. True) columns" and "columns_free c s t columns"
  shows "full_response c (set_columns s t columns up)"
proof -
  have "glookup (sdr_Schemas (set_columns s t columns up)) s' \<noteq> Some None" for s'
    using assms(1) by (auto simp: full_response_def set_columns_def gomap split: option.split)
  then show ?thesis using assms set_columns_good [of up columns s t] unlocked_set_columns [OF _ assms(4)]
    by (simp add: full_response_def)
qed

lemma schemas_responses: "schemas_ok E c \<Longrightarrow> responses (full_response c) E"
  using full_set_columns by (simp add: schemas_ok_def responses_def)

lemma schemas_accept: "schemas_ok E c \<Longrightarrow> schema_known h \<or> (\<forall>i. q \<noteq> SchemaDetails i) \<Longrightarrow> snd (e_schema E h q) = None"
  unfolding schemas_ok_def by blast

lemma full_locks: "full_response c u \<Longrightarrow> names_ok c \<Longrightarrow> ValidateLockedColumns u (Some c) = None"
  using violations_Nil [of c u] by (auto simp: full_response_def names_ok_def ValidateLockedColumns_eq)

text \<open>A schema call that is answered.\<close>

lemma schema_call_run:
  assumes "working E x h w" and "snd (e_schema E (w_trace w) q) = None"
  shows "schema_call E q w = (Ok (fst (e_schema E (w_trace w) q), None), log_event (Sdk q) w) \<and> working E x h (log_event (Sdk q) w)"
proof
  obtain d where "e_schema E (w_trace w) q = (d, None)" using assms(2) by (metis prod.collapse)
  then show r: "schema_call E q w = (Ok (fst (e_schema E (w_trace w) q), None), log_event (Sdk q) w)"
    by (simp add: schema_call_def WrapFivetranError_None)
  show "working E x h (log_event (Sdk q) w)"
    by (rule working_quiet [OF settle_schema_call assms(1) r]) (simp_all add: log_event_def)
qed

lemma does_frame:
  assumes "does P a Q" and "\<And>w y w'. a w = (Ok y, w') \<Longrightarrow> R w \<Longrightarrow> R w'"
  shows "does (\<lambda>w. P w \<and> R w) a (\<lambda>y w. Q y w \<and> R w)"
  using assms unfolding does_def by blast

text \<open>The last write of the schema is what the schema \<open>c\<close> of the resource asks for.\<close>

definition wrote :: "ConnectorSchemaConfig \<Rightarrow> world \<Rightarrow> bool" where
  "wrote c w \<longleftrightarrow> (\<exists>r up. last_write (w_trace w) = Some r \<and> full_response c up
     \<and> schema_request (BuildSchemaConfig (Some c) (Some up)) = Inr r)"

lemma wrote_kept: "emit.keeps (\<lambda>e. written e = None) a \<Longrightarrow> a w = (r, w') \<Longrightarrow> wrote c w \<Longrightarrow> wrote c w'"
  using last_write_grows [OF emit.keepsD] by (fastforce simp: wrote_def)

lemma does_applySchema:
  assumes E: "schemas_ok E c" "names_ok c" "spec_ok E (fc_Spec x)" and c: "spec_ConnectorSchemas (fc_Spec x) = Some c"
    and up: "full_response c up"
  shows "does (working E x h) (applySchema E i up) (\<lambda>_ w. working E x h w \<and> wrote c w)"
  unfolding applySchema_def
proof (rule does_get, rule does_bind)
  fix w assume "working E x h w"
  then have o: "cr_schemas (w_obj w) = Some c" using c by (simp add: working_def cr_schemas_def)
  obtain r where r: "schema_request (BuildSchemaConfig (Some c) (Some up)) = Inr r"
    using schema_request_specified [of c "Some up"] E(2) up by (auto simp: names_ok_def full_response_def good_response_def)
  show "does (working E x h) (UpdateSchema E i (BuildSchemaConfig (cr_schemas (w_obj w)) (Some up)))
      (\<lambda>y w. (working E x h w \<and> wrote c w) \<and> snd y = None)"
    unfolding UpdateSchema_def o r sum.case
  proof (rule doesI)
    fix w assume w: "working E x h w"
    have "snd (e_schema E (w_trace w) (SchemaUpdate i r)) = None" by (rule schemas_accept [OF E(1)]) simp
    from schema_call_run [OF w this] show "\<exists>y w'. schema_call E (SchemaUpdate i r) w = (Ok y, w') \<and> (working E x h w' \<and> wrote c w') \<and> snd y = None"
      using r up by (auto simp: wrote_def log_event_def last_write_snoc written_def)
  qed
  have "emit.keeps (\<lambda>e. written e = None) (updateSchemaHash E)" by (intro frames) (simp add: written_def)
  from does_frame [OF does_hashes(2) [OF E(3), of h] wrote_kept [OF this]]
  show "does (\<lambda>w. (working E x h w \<and> wrote c w) \<and> snd y = None)
      (case y of (u, err) \<Rightarrow> check err (Errorf_w ''applySchema: '') (updateSchemaHash E)) (\<lambda>_ w. working E x h w \<and> wrote c w)" for y
    by (auto simp: does_def check_def split: prod.split)
qed

text \<open>Columns are fetched, and no lock is in the way.\<close>

lemma does_populate:
  assumes "schemas_ok E c" and "full_response c up"
  shows "does (working E x h) (populateColumnsForCR E i cr up) (\<lambda>st w. working E x h w \<and> full_response c (fst st))"
proof -
  have g: "does (working E x h) (GetColumnConfig E i s t) (\<lambda>_. working E x h)" for s t
  proof (rule doesI)
    fix w assume w: "working E x h w"
    let ?q = "ColumnConfigList i s t"
    obtain cols where "e_columns E (w_trace w) ?q = (cols, None)" using assms(1) unfolding schemas_ok_def by (metis prod.collapse)
    then have r: "GetColumnConfig E i s t w = (Ok cols, log_event (Sdk ?q) w)" by (simp add: GetColumnConfig_def)
    have "working E x h (log_event (Sdk ?q) w)"
      by (rule working_quiet [OF settle.columns_keeps w r]) (simp_all add: log_event_def)
    with r show "\<exists>y w'. GetColumnConfig E i s t w = (Ok y, w') \<and> working E x h w'" by blast
  qed
  have t: "does (working E x h) (populateTable_body E i s t to st) (\<lambda>_. working E x h)" for s t to st
    unfolding populateTable_body_def
    by (auto intro!: does_bind [OF does_wrap [OF g]] does_ret split: option.split)
  have "does (working E x h) (populateSchema_body E i s so st) (\<lambda>_. working E x h)" for s so st
    unfolding populateSchema_body_def by (auto intro!: does_for_entries t does_ret split: option.split)
  then have "does (working E x h) (populateColumnsForCR E i cr up) (\<lambda>_. working E x h)"
    unfolding populateColumnsForCR_def by (auto intro!: does_for_entries does_ret split: option.split)
  then show ?thesis using populate_good [OF schemas_responses [OF assms(1)] assms(2)] unfolding does_def by blast
qed

lemma does_first_columns:
  assumes "schemas_ok E c" "names_ok c" "full_response c d" and c: "spec_ConnectorSchemas (fc_Spec x) = Some c"
  shows "does (working E x h) (first_columns E i d) (\<lambda>st w. working E x h w \<and> full_response c (fst st))"
  unfolding first_columns_def
proof (rule does_get, rule does_if)
  fix w assume "working E x h w"
  then have o: "cr_schemas (w_obj w) = Some c" using c by (simp add: working_def cr_schemas_def)
  show "does (working E x h) (bind (wrap_err ''reconcileSchema: '' (populateColumnsForCR E i (cr_schemas (w_obj w)) d)) (\<lambda>st.
      case ValidateLockedColumns (fst st) (cr_schemas (w_obj w)) of
        Some err \<Rightarrow> raise (Wrapped (''reconcileSchema: '' @ sentinel_text ErrLockedColumns @ '': '' @ Error err) [Sentinel ErrLockedColumns, err])
      | None \<Rightarrow> ret st)) (\<lambda>st w. working E x h w \<and> full_response c (fst st))"
    by (rule does_bind [OF does_wrap [OF does_populate [OF assms(1,3)]]], rule does_case) (auto simp: o full_locks [OF _ assms(2)] intro: does_ret)
qed (use assms(3) in \<open>auto intro: does_ret\<close>)

text \<open>Details that are read once there is a schema, and what they show after a write.\<close>

definition shown :: "env \<Rightarrow> string \<Rightarrow> SchemaDetailsResponse \<Rightarrow> world \<Rightarrow> bool" where
  "shown E i d w \<longleftrightarrow> (\<exists>h. last_write h = last_write (w_trace w) \<and> d = fst (e_schema E h (SchemaDetails i)))"

lemma does_details:
  assumes "schemas_ok E c" and "\<And>w. P w \<Longrightarrow> schema_known (w_trace w)" and "\<And>w. P w \<Longrightarrow> P (log_event (Sdk (SchemaDetails i)) w)"
    and "\<And>d. full_response c d \<Longrightarrow> does (\<lambda>w. (working E x h w \<and> P w) \<and> shown E i d w) (k d) Q"
  shows "does (\<lambda>w. working E x h w \<and> P w) (bind (GetSchemaDetails E i) (\<lambda>(details, err). check err f (k details))) Q"
  unfolding GetSchemaDetails_def
proof (rule doesI)
  fix w assume w: "working E x h w \<and> P w"
  let ?q = "SchemaDetails i" and ?w = "log_event (Sdk (SchemaDetails i)) w"
  let ?d = "fst (e_schema E (w_trace w) ?q)"
  have r: "schema_call E ?q w = (Ok (?d, None), ?w)" "working E x h ?w"
    using schema_call_run [OF conjunct1 [OF w] schemas_accept [OF assms(1)]] assms(2) w by auto
  have "full_response c ?d" using assms(1) by (simp add: schemas_ok_def)
  moreover have "last_write (w_trace w) = last_write (w_trace ?w)" by (simp add: log_event_def last_write_snoc written_def)
  then have "shown E i ?d ?w" unfolding shown_def by blast
  ultimately show "\<exists>y w'. bind (schema_call E ?q) (\<lambda>(details, err). check err f (k details)) w = (Ok y, w') \<and> Q y w'"
    using r assms(3) [of w] assms(4) [of ?d] w by (simp add: bind_def check_def does_def)
qed

lemma wrote_known: "wrote c w \<Longrightarrow> schema_known (w_trace w)"
  by (auto simp: wrote_def last_write_known)

lemma wrote_details: "wrote c w \<Longrightarrow> wrote c (log_event (Sdk (SchemaDetails i)) w)"
  by (simp add: wrote_def log_event_def last_write_snoc written_def)

lemma does_written_details:
  assumes "schemas_ok E c" and "\<And>d. full_response c d \<Longrightarrow> does (\<lambda>w. (working E x h w \<and> wrote c w) \<and> shown E i d w) (k d) Q"
  shows "does (\<lambda>w. working E x h w \<and> wrote c w) (bind (GetSchemaDetails E i) (\<lambda>(details, err). check err f (k details))) Q"
  by (rule does_details [OF assms(1) _ _ assms(2)]) (auto intro: wrote_known wrote_details)

lemma wrote_matches:
  assumes "schemas_ok E c" "names_ok c" "wrote c w" "shown E i d w"
  shows "fst (CompareSchemaWithCR d (Some c))"
proof -
  from assms(3) obtain r up where r: "last_write (w_trace w) = Some r" and up: "full_response c up"
    and b: "schema_request (BuildSchemaConfig (Some c) (Some up)) = Inr r" by (auto simp: wrote_def)
  have c: "config_wf c" "config_named c" "pred_option response_wf (Some up)" "pred_option response_named (Some up)"
    using assms(2) up by (simp_all add: names_ok_def full_response_def good_response_def)
  have v: "view_request r = payload (BuildSchemaConfig (Some c) (Some up))"
    and hd: "request_handling r = b_schemaChangeHandling (BuildSchemaConfig (Some c) (Some up))"
    using schema_request_specified [OF c] BuildSchemaConfig_correct(2,3) [of "Some c" "Some up"] c b
    by (auto simp: request_handling_def fun_eq_iff)
  have "asks_for c r" by (rule request_asks [OF c(1,2) _ b]) (use up in \<open>simp add: full_response_def\<close>)
  then have "reflects d (request_handling r) (view_request r)" using assms(1,4) r by (auto simp: schemas_ok_def shown_def)
  from applied_payload_matches [OF c _ this [unfolded v hd]] show ?thesis using up by (auto simp: full_response_def)
qed

lemma does_apply_and_verify:
  assumes E: "schemas_ok E c" "names_ok c" "spec_ok E (fc_Spec x)" and c: "spec_ConnectorSchemas (fc_Spec x) = Some c"
    and d: "full_response c d"
  shows "does (working E x h) (apply_and_verify E i l d) (\<lambda>_. working E x h)"
proof -
  note apply_ok = does_applySchema [OF E c]
  have second: "does (\<lambda>w. working E x h w \<and> wrote c w) (second_pass E i) (\<lambda>_ w. working E x h w \<and> wrote c w)"
    unfolding second_pass_def
  proof (rule does_written_details [OF E(1)], rule does_get)
    fix d w assume "full_response c d"
    from does_bind [OF does_wrap [OF does_populate [OF E(1) this]] does_case]
    show "does (\<lambda>w. (working E x h w \<and> wrote c w) \<and> shown E i d w)
        (bind (wrap_err ''reconcileSchema: second pass populate: '' (populateColumnsForCR E i (cr_schemas (w_obj w)) d)) (\<lambda>st.
          wrap_err ''reconcileSchema: second pass: '' (applySchema E i (fst st)))) (\<lambda>_ w. working E x h w \<and> wrote c w)"
      by (rule does_pre) (auto intro: does_wrap does_pre [OF apply_ok])
  qed
  have verify: "does (\<lambda>w. working E x h w \<and> wrote c w) (verifySchema E i) (\<lambda>_. working E x h)"
    unfolding verifySchema_def
  proof (rule does_written_details [OF E(1)], rule does_get)
    fix d w assume w: "(working E x h w \<and> wrote c w) \<and> shown E i d w"
    then have "cr_schemas (w_obj w) = Some c" using c by (simp add: working_def cr_schemas_def)
    then have "fst (CompareSchemaWithCR d (cr_schemas (w_obj w)))" using wrote_matches [OF E(1,2), of w i d] w by simp
    then show "does (\<lambda>w. (working E x h w \<and> wrote c w) \<and> shown E i d w)
        (let (matches, mismatchDetails) = CompareSchemaWithCR d (cr_schemas (w_obj w)) in
         if \<not> matches then raise (Wrapped (''reconcileSchema: '' @ SchemaMismatch_String mismatchDetails @ '' - '' @ sentinel_text ErrSchemaMismatch)
             [Sentinel ErrSchemaMismatch]) else ret ()) (\<lambda>_. working E x h)"
      by (auto simp: does_def ret_def split: prod.split)
  qed
  show ?thesis
    unfolding apply_and_verify_def schema_ready_def
    by (rule does_bind [OF does_first_columns [OF E(1,2) d c]], rule does_case, unfold split_beta,
        rule does_bind [where Q = "\<lambda>_ w. working E x h w \<and> wrote c w"], rule does_wrap, rule does_pre [OF apply_ok], simp, simp,
        rule does_bind [where Q = "\<lambda>_ w. working E x h w \<and> wrote c w"], rule does_if, rule second, rule does_ret, simp,
        rule does_bind [where Q = "\<lambda>_. working E x h"], rule does_if, rule verify, rule does_ret, simp, rule does_setCondition)
qed

lemma does_createNewSchema:
  assumes E: "schemas_ok E c" "names_ok c" "spec_ok E (fc_Spec x)" and c: "spec_ConnectorSchemas (fc_Spec x) = Some c"
  shows "does (working E x h) (createNewSchema E i) (\<lambda>_. working E x h)"
  unfolding createNewSchema_def
proof (rule does_get, rule does_bind)
  fix w assume "working E x h w"
  then have o: "cr_schemas (w_obj w) = Some c" using c by (simp add: working_def cr_schemas_def)
  obtain r where r: "schema_request (BuildSchemaConfig (Some c) None) = Inr r"
    using schema_request_specified [of c None] E(2) by (auto simp: names_ok_def)
  show "does (working E x h) (CreateSchema E i (BuildSchemaConfig (cr_schemas (w_obj w)) None)) (\<lambda>y w. working E x h w \<and> snd y = None)"
    unfolding CreateSchema_def o r sum.case
    using schema_call_run [OF _ schemas_accept [OF E(1)], of x h _ "SchemaCreate i r"] by (fastforce simp: does_def)
  show "does (\<lambda>w. working E x h w \<and> snd y = None) (case y of (u, err) \<Rightarrow> check err (Errorf_w ''createNewSchema: '')
      (wrap_err ''createNewSchema: failed to update schema hash: '' (updateSchemaHash E))) (\<lambda>_. working E x h)" for y
    using does_wrap [OF does_hashes(2) [OF E(3), of h]] by (auto simp: does_def check_def split: prod.split)
qed

lemma does_reload_details:
  assumes "schemas_ok E c"
  shows "does (working E x h) (reload_details E i) (\<lambda>d w. working E x h w \<and> full_response c d)"
  unfolding reload_details_def
proof (rule does_bind, rule does_wrap)
  let ?known = "\<lambda>w. schema_known (w_trace w)"
  show "does (working E x h) (reloadSchema E i) (\<lambda>_ w. working E x h w \<and> ?known w)"
    unfolding reloadSchema_def ReloadSchema_def
  proof (rule does_bind)
    show "does (working E x h) (schema_call E (SchemaReload i ''PRESERVE'')) (\<lambda>y w. (working E x h w \<and> ?known w) \<and> snd y = None)"
      using schema_call_run [OF _ schemas_accept [OF assms], of x h _ "SchemaReload i ''PRESERVE''"]
      by (fastforce simp: does_def log_event_def schema_known_def)
  qed (auto simp: does_def check_def ret_def split: prod.split)
  show "does (\<lambda>w. working E x h w \<and> ?known w) (bind (GetSchemaDetails E i) (\<lambda>(details, err). check err
      (Errorf_w ''reconcileSchema: failed to get schema details after reload: '') (ret details)))
      (\<lambda>d w. working E x h w \<and> full_response c d)"
    by (rule does_details [OF assms]) (auto simp: log_event_def schema_known_def intro: does_ret)
qed

lemma does_reconcile_details:
  assumes E: "schemas_ok E c" "names_ok c" "spec_ok E (fc_Spec x)" and c: "spec_ConnectorSchemas (fc_Spec x) = Some c"
    and d: "full_response c d" and err: "err \<noteq> None \<longrightarrow> cr_Code (sdr_Common d) = SchemaNotFoundError"
  shows "does (working E x h) (reconcile_details E i obj d err) (\<lambda>_. working E x h)"
proof -
  have apply_ok: "does (working E x h) (apply_and_verify E i l d') (\<lambda>_. working E x h)" if "full_response c d'" for l d'
    by (rule does_apply_and_verify [OF E c that])
  have reload: "does (working E x h) (bind (reload_details E i) (apply_and_verify E i l)) (\<lambda>_. working E x h)" for l
    by (rule does_bind [OF does_reload_details [OF E(1)]], rule does_case) (auto intro: does_pre [OF apply_ok])
  have new: "does (working E x h) (bind (wrap_err ''reconcileSchema: '' (createNewSchema E i)) (\<lambda>_. schema_ready E)) (\<lambda>_. working E x h)"
    unfolding schema_ready_def by (rule does_bind [OF does_wrap [OF does_createNewSchema [OF E c]] does_setCondition])
  show ?thesis unfolding reconcile_details_def Let_def
    using err d by (auto intro: reload new apply_ok split: option.split)
qed

lemma does_reconcileSchema:
  assumes E: "connections_ok E x" "schemas_ok E c" "names_ok c" "spec_ok E (fc_Spec x)" and c: "spec_ConnectorSchemas (fc_Spec x) = Some c"
  shows "does (working E x h) (reconcileSchema E i) (\<lambda>_. working E x h)"
proof -
  have sync: "does (working E x h) (isConnectorSyncing E i) (\<lambda>b w. working E x h w \<and> \<not> b)"
    unfolding isConnectorSyncing_def GetConnection_def
    by (rule does_connection [OF E(1)]) (use E(1) in \<open>auto simp: connections_ok_def intro: does_ret\<close>)
  have details: "does (working E x h) (GetSchemaDetails E i)
      (\<lambda>(d, err) w. working E x h w \<and> full_response c d \<and> (err \<noteq> None \<longrightarrow> cr_Code (sdr_Common d) = SchemaNotFoundError))"
    unfolding GetSchemaDetails_def
  proof (rule doesI)
    fix w assume w: "working E x h w"
    obtain d err where a: "e_schema E (w_trace w) (SchemaDetails i) = (d, err)" by fastforce
    let ?err = "WrapFivetranError (JsonValue (sdr_Common d)) err"
    have r: "schema_call E (SchemaDetails i) w = (Ok (d, ?err), log_event (Sdk (SchemaDetails i)) w)" by (simp add: schema_call_def a)
    have "working E x h (log_event (Sdk (SchemaDetails i)) w)"
      by (rule working_quiet [OF settle_schema_call w r]) (simp_all add: log_event_def)
    moreover have "full_response c d" "err \<noteq> None \<longrightarrow> cr_Code (sdr_Common d) = SchemaNotFoundError"
      using E(2) a unfolding schemas_ok_def by (metis fst_conv snd_conv)+
    ultimately show "\<exists>y w'. schema_call E (SchemaDetails i) w = (Ok y, w') \<and> (case y of (d, err) \<Rightarrow> \<lambda>w. working E x h w \<and> full_response c d
        \<and> (err \<noteq> None \<longrightarrow> cr_Code (sdr_Common d) = SchemaNotFoundError)) w'"
      using r by (auto simp: WrapFivetranError_None)
  qed
  have rest: "does (case y of (d, err) \<Rightarrow> \<lambda>w. working E x h w \<and> full_response c d \<and> (err \<noteq> None \<longrightarrow> cr_Code (sdr_Common d) = SchemaNotFoundError))
      (case y of (d, err) \<Rightarrow> reconcile_details E i obj d err) (\<lambda>_. working E x h)" for y obj
    using does_reconcile_details [OF E(2-4) c, of "fst y" "snd y" h i obj] by (auto simp: does_def split: prod.split)
  show ?thesis unfolding reconcileSchema_def
  proof (rule does_get, rule does_bind [OF does_wrap [OF sync]], rule does_if)
    fix w b
    show "does (\<lambda>w. working E x h w \<and> \<not> b) (bind (GetSchemaDetails E i) (\<lambda>(schemaDetails, err).
        reconcile_details E i (w_obj w) schemaDetails err)) (\<lambda>_. working E x h)"
      by (rule does_pre [OF does_bind [OF details rest]]) simp
  qed (simp add: does_def)
qed

subsection \<open>A whole run\<close>

text \<open>Vault answers, and the secret with its credentials is complete.\<close>

definition vault_ok :: "env \<Rightarrow> string \<Rightarrow> bool" where
  "vault_ok E ns \<longleftrightarrow> client_stays E \<and> (\<forall>h. e_lookup_self E h \<noteq> Inr None)
     \<and> (\<forall>h n. \<exists>data. e_secret E h ns n = Inr data \<and> (\<forall>k \<in> {''address'', ''roleId'', ''secretId'', ''mountPath''}. gstring data k \<noteq> []))
     \<and> (\<forall>h a. e_new_client E h a = None) \<and> (\<forall>r s. e_approle E r s = None) \<and> (\<forall>h c. e_login E h c = Inr True)"

lemma does_ensure_vault:
  assumes "vault_ok E ns"
  shows "does (\<lambda>_. True) (ensure_vault E ns) (\<lambda>_ _. True)"
proof -
  have t: "does (\<lambda>_. True) (token_valid E) (\<lambda>_ _. True)"
    using assms
    by (auto simp: does_def token_valid_def IsTokenValid_def vault_ok_def Let_def split: option.split sum.split json.split)
  have s: "does (\<lambda>_. True) (get_secret E ns n) (\<lambda>data _. \<forall>k \<in> {''address'', ''roleId'', ''secretId'', ''mountPath''}. gstring data k \<noteq> [])" for n
  proof (rule doesI)
    fix w :: world
    obtain data where "e_secret E (w_trace w) ns n = Inr data" "\<forall>k \<in> {''address'', ''roleId'', ''secretId'', ''mountPath''}. gstring data k \<noteq> []"
      using assms unfolding vault_ok_def by blast
    then show "\<exists>y w'. get_secret E ns n w = (Ok y, w') \<and> (\<forall>k \<in> {''address'', ''roleId'', ''secretId'', ''mountPath''}. gstring y k \<noteq> [])"
      by (simp add: get_secret_def Let_def)
  qed
  have c: "does (\<lambda>_. True) (vault_NewClient E cfg) (\<lambda>_ _. True)" for cfg
    using assms by (simp add: does_def vault_NewClient_def vault_ok_def Let_def)
  have i: "does (\<lambda>_. True) (InitializeVaultClientFromSecret E ns n) (\<lambda>_ _. True)" for n
    unfolding InitializeVaultClientFromSecret_def
    by (rule does_bind [OF s], rule does_case, rule does_pre [where P = "\<lambda>_. True"])
      (auto simp: NewClientConfig_def intro!: does_bind [OF c] does_ret)
  show ?thesis unfolding ensure_vault_def Let_def
    by (intro does_bind [OF t] does_if does_attempt [OF i]) (auto simp: does_def ret_def set_vault_def)
qed

text \<open>Everything that a run relies on.\<close>

definition cooperative :: "env \<Rightarrow> string \<Rightarrow> FivetranConnector \<Rightarrow> bool" where
  "cooperative E ns x \<longleftrightarrow> vault_ok E ns \<and> connections_ok E x \<and> real_ids (e_connection E) \<and> spec_ok E (fc_Spec x)
     \<and> (\<forall>c. spec_ConnectorSchemas (fc_Spec x) = Some c \<longrightarrow> schemas_ok E c)"

text \<open>What it asks of the resource.\<close>

definition well_named :: "FivetranConnector \<Rightarrow> bool" where
  "well_named x \<longleftrightarrow> (\<forall>c. spec_ConnectorSchemas (fc_Spec x) = Some c \<longrightarrow> names_ok c)"

abbreviation success :: "env \<Rightarrow> FivetranConnector \<Rightarrow> event list \<Rightarrow> Result \<times> goerr option \<Rightarrow> world \<Rightarrow> bool" where
  "success E x h y w \<equiv> working E x h w \<and> y = (result 0, None)"

lemma does_finish:
  assumes "cooperative E ns x" "decodes E rc" "decodes E ra"
  shows "does (working E x h) (finish E dc i rc ra) (success E x h)"
proof -
  have u: "does (working E x h) (if dc then updateConnector E i rc ra else ret ()) (\<lambda>_. working E x h)"
    using assms by (intro does_if does_updateConnector does_ret) (auto simp: cooperative_def)
  have "does (working E x h) (cleanupAnnotationsAndLabels E) (\<lambda>_. working E x h)"
    unfolding cleanupAnnotationsAndLabels_def send_meta_def [symmetric]
    by (intro does_get does_if does_send [where P = "\<lambda>_. True", simplified] settle.label_keeps meta_onlyI does_ret)
  then show ?thesis unfolding finish_def
    by (intro does_or_handle [OF u] does_or_handle [where Q = "\<lambda>_. working E x h"]) (auto intro: does_ret)
qed

lemma does_schema_phase:
  assumes "cooperative E ns x" "decodes E rc" "decodes E ra" "well_named x"
  shows "does (working E x h) (schema_phase E dc ds i rc ra) (success E x h)"
  unfolding schema_phase_def
proof (intro does_get does_if)
  note fin = does_finish [OF assms(1-3)]
  fix w assume w: "working E x h w"
  show "does (working E x h) (or_handle E conditionTypeSchemaReady SchemaReasonReconciliationFailed (reconcileSchema E i)
      (\<lambda>_. finish E dc i rc ra)) (success E x h)" if "ds \<and> hasSchemaConfig (w_obj w)"
  proof -
    obtain c where "spec_ConnectorSchemas (fc_Spec x) = Some c"
      using w \<open>ds \<and> hasSchemaConfig (w_obj w)\<close> by (auto simp: hasSchemaConfig_def working_def split: option.split_asm)
    then show ?thesis using assms(1,4) by (intro does_or_handle [OF does_reconcileSchema fin]) (auto simp: cooperative_def well_named_def)
  qed
  show "does (working E x h) (or_handle E conditionTypeSchemaReady SchemaReasonSkipped
      (setCondition E conditionTypeSchemaReady ConditionTrue SchemaReasonSkipped msgSchemaSkipped) (\<lambda>_. finish E dc i rc ra)) (success E x h)"
    by (rule does_or_handle [OF does_setCondition fin])
  show "does (working E x h) (finish E dc i rc ra) (success E x h)" by (rule fin)
qed

definition at_start :: "env \<Rightarrow> FivetranConnector \<Rightarrow> event list \<Rightarrow> world \<Rightarrow> bool" where
  "at_start E x h w \<longleftrightarrow> working E x h w \<and> identity (w_obj w) = identity x"

lemma does_connector_phase:
  assumes "cooperative E ns x" "decodes E rc" "decodes E ra" "well_named x"
  shows "does (at_start E x h) (connector_phase E dc ds rc ra) (success E x h)"
proof -
  note E = assms(1) [unfolded cooperative_def]
  have c: "does (at_start E x h) (reconcileConnector E rc ra) (\<lambda>_. working E x h)"
    using does_reconcileConnector [of E x rc ra h] E assms(2,3) by (simp add: at_start_def [abs_def])
  have t: "does (working E x h) (reconcileSetupTests E i) (\<lambda>_. working E x h)" for i
    using E by (intro does_reconcileSetupTests) simp
  show ?thesis unfolding connector_phase_def
    by (intro does_get does_if does_or_handle [OF c] does_or_handle [OF t] does_schema_phase [OF assms]
        does_pre [OF does_schema_phase [OF assms]]) (simp add: at_start_def)
qed

lemma does_reconcile_needs:
  assumes "cooperative E ns x" "well_named x"
  shows "does (at_start E x h) (reconcile_needs E force) (success E x h)"
  unfolding reconcile_needs_def
proof (rule does_get)
  note E = assms(1) [unfolded cooperative_def]
  fix w assume w: "at_start E x h w"
  have "\<exists>v. calculateConnectorHash E (w_obj w) = Inr v" "\<exists>v. calculateSchemaHash E (w_obj w) = Inr v"
    using w E by (auto simp: at_start_def working_def spec_ok_def hash_defs split: option.split)
  then have "\<exists>y. determineReconciliationNeeds E (w_obj w) force = Inr y"
    using w by (auto simp: determineReconciliationNeeds_def hasConnectorHashChanged_def hasSchemaHashChanged_def at_start_def working_def)
  then obtain dc ds where n: "determineReconciliationNeeds E (w_obj w) force = Inr (dc, ds)" by auto
  have "does (at_start E x h) (resolveSecrets E) (\<lambda>(rc, ra) w. at_start E x h w \<and> decodes E rc \<and> decodes E ra)"
    using does_resolveSecrets [of E x h "\<lambda>c. identity c = identity x"] E by (simp add: at_start_def [abs_def] vault_ok_def)
  then have "does (at_start E x h) (or_handle E conditionTypeConnectorReady ConnectorReasonVaultSecretsResolutionFailed (resolveSecrets E)
      (\<lambda>(rc, ra). connector_phase E dc ds rc ra)) (success E x h)"
    by (rule does_or_handle) (use does_connector_phase [OF assms(1) _ _ assms(2)] in \<open>auto simp: does_def\<close>)
  then show "does (at_start E x h) (case determineReconciliationNeeds E (w_obj w) force of
      Inl err \<Rightarrow> handleError E conditionTypeConnectorReady ConnectorReasonReconciliationFailed err
    | Inr (doConnector, doSchema) \<Rightarrow> (if \<not> doConnector \<and> \<not> doSchema then ret (result 0, None)
       else or_handle E conditionTypeConnectorReady ConnectorReasonVaultSecretsResolutionFailed (resolveSecrets E)
         (\<lambda>(resolvedConfig, resolvedAuth). connector_phase E doConnector doSchema resolvedConfig resolvedAuth))) (success E x h)"
    by (auto simp: n at_start_def intro: does_ret)
qed

lemma does_reconcile_live:
  assumes "cooperative E ns x" "well_named x"
  shows "does (at_start E x h) (reconcile_live E) (success E x h)"
proof -
  have same: "does (at_start E x h) (send_meta E (\<lambda>c. c\<lparr>fc_Meta := g (fc_Meta c)\<rparr>)) (\<lambda>_. at_start E x h)"
    if "settle.keeps E x h (send_meta E (\<lambda>c. c\<lparr>fc_Meta := g (fc_Meta c)\<rparr>))" and "\<And>m. GetAnnotation (g m) annotationConnectorID = GetAnnotation m annotationConnectorID" for g
    using does_send [OF that(1) meta_onlyI, of "\<lambda>c. identity c = identity x"] that(2) by (simp add: at_start_def [abs_def] identity_def)
  have f: "does (at_start E x h) (ensureFinalizer E) (\<lambda>_. at_start E x h)"
    unfolding ensureFinalizer_def send_meta_def [symmetric]
    by (intro does_get does_if does_ret same settle.finalizer_keeps) simp_all
  have l: "does (at_start E x h) (take_force_label E b) (\<lambda>_. at_start E x h)" for b
    unfolding take_force_label_def send_meta_def [symmetric]
    by (intro does_if does_ret same settle.label_keeps) simp_all
  show ?thesis unfolding reconcile_live_def Let_def
    by (intro does_or_handle [OF f] does_get does_or_handle [OF l] does_reconcile_needs [OF assms])
qed

lemma cooperative_run:
  assumes E: "serves E x h" "cooperative E ns x" "well_named x" and w: "w_trace w = h" and live: "om_DeletionTimestamp (fc_Meta x) = None"
    and clean: "\<not> hasFailedConditions x"
  shows "\<exists>w'. Reconcile E True ns w = (Ok (result 0, None), w') \<and> working E x h w'"
proof -
  let ?w = "sent KubeGet x w"
  note C = E(2) [unfolded cooperative_def]
  have g: "ready E x h ?w" "kube_get E w = (Ok (), ?w)" using ready_get [OF E(1) _ w] C by auto
  obtain u w1 where v: "ensure_vault E ns ?w = (Ok u, w1)"
    using does_ensure_vault [of E ns] C by (auto simp: does_def)
  have o: "w_obj w1 = x" using obj_kept.keepsD [OF obj_kept_ensure_vault v] by simp
  have "has_client w1" using ensure_vault_client [OF _ v] C by (simp add: vault_ok_def)
  then have "at_start E x h w1"
    using ready_step(1) [OF settle_ensure_vault g(1) v] o clean by (simp add: at_start_def working_def)
  with does_reconcile_live [OF E(2,3)] obtain w' where "reconcile_live E w1 = (Ok (result 0, None), w')" "working E x h w'"
    by (auto elim: doesE)
  then show ?thesis using g(2) v o live by (simp add: Reconcile_def attempt_def bind_def get_obj_def)
qed

text \<open>C4: Reconciliation makes progress. Let Kubernetes store what it is sent; let Vault answer with complete
  credentials and the references of the resource resolve; let Fivetran accept the requests, with an
  idle connection whose setup tests pass, one that matches if the resource asks for an adoption,
  and schema details that are well-formed, reflect the last write, though the schema may be unknown before it, and
  lock no column that the resource disables. Let the resource list no schema, table or column twice or
  with an empty name, report no failure and not be marked for deletion. Then a run for the
  resource returns, without an error and without a request for another run, and the resource is settled:
  the next run finds nothing to do.\<close>

theorem Reconcile_succeeds:
  assumes "serves E x h" and "cooperative E ns x" and "well_named x" and "w_trace w = h"
    and "om_DeletionTimestamp (fc_Meta x) = None" and "\<not> hasFailedConditions x"
  shows "\<exists>w'. Reconcile E True ns w = (Ok (result 0, None), w') \<and> settled E (w_obj w') \<and> fc_Spec (w_obj w') = fc_Spec x
    \<and> determineReconciliationNeeds E (w_obj w') False = Inr (False, False)"
proof -
  from cooperative_run [OF assms] obtain w' where r: "Reconcile E True ns w = (Ok (result 0, None), w')" and w': "working E x h w'" by blast
  have "settled E (w_obj w')"
    using clean_run_settles [OF assms(1) _ assms(4,5) _ r] assms(2,6) w' by (simp add: cooperative_def working_def)
  then show ?thesis using r w' settled_needs by (auto simp: working_def)
qed

text \<open>
  A new resource with one table, of which it disables a column, and a Fivetran that knows no schema until it is reloaded or written
  and then shows that table.
\<close>

definition demo_config :: ConnectorSchemaConfig where
  "demo_config = \<lparr>csc_Schemas = Some [(''s'', Some \<lparr>so_Enabled = True, so_Tables = Some
      [(''t'', Some \<lparr>to_Enabled = True, to_Columns = Some [(''x'', Some \<lparr>co_Enabled = False, co_Hashed = False, co_IsPrimaryKey = False\<rparr>)],
         to_SyncMode = []\<rparr>)]\<rparr>)],
     csc_SchemaChangeHandling = policyAllowAll, csc_ValidationLevel = []\<rparr>"

definition demo_wanted :: FivetranConnector where
  "demo_wanted = demo_new\<lparr>fc_Spec := (fc_Spec demo_new)\<lparr>spec_ConnectorSchemas := Some demo_config\<rparr>\<rparr>"

definition demo_shown :: SchemaDetailsResponse where
  "demo_shown = demo_up\<lparr>sdr_SchemaChangeHandling := policyAllowAll, sdr_Schemas := Some
      [(''s'', Some \<lparr>schr_NameInDestination = None, schr_Enabled = Some True, schr_Tables = Some [(''t'', Some (demo_table None None))]\<rparr>)]\<rparr>"

definition demo_unknown :: SchemaDetailsResponse where
  "demo_unknown = empty_details\<lparr>sdr_Common := \<lparr>cr_Code = SchemaNotFoundError, cr_Message = []\<rparr>\<rparr>"

definition demo_fivetran_schema :: "event list \<Rightarrow> sdk_call \<Rightarrow> SchemaDetailsResponse \<times> goerr option" where
  "demo_fivetran_schema h q = (if schema_known h then (demo_shown, None)
     else case q of SchemaDetails _ \<Rightarrow> (demo_unknown, Some (Text ''not found'')) | _ \<Rightarrow> (demo_unknown, None))"

abbreviation demo_coop :: env where
  "demo_coop \<equiv> served (demo_env\<lparr>e_schema := demo_fivetran_schema\<rparr>) demo_wanted []"

lemma demo_shown_reflects:
  assumes "asks_for demo_config r"
  shows "reflects demo_shown (request_handling r) (view_request r)"
proof -
  have "view_request r = gview cr_schema (csc_Schemas demo_config)" and "request_handling r = policyAllowAll"
    using assms
    by (auto simp: asks_for_def spec_payload_def demo_config_def request_handling_def policyAllowAll_def fun_eq_iff split: option.split_asm)
  then show ?thesis
    by (auto simp: reflects_def gview_def glookup_def demo_config_def demo_shown_def demo_defs cr_schema_def cr_table_def mk_schema_def mk_table_def
        split: if_split_asm)
qed

lemma demo_full: "full_response demo_config demo_shown" "full_response demo_config demo_unknown"
  by (auto simp: full_response_def disables_locked_def demo_config_def good_response_def demo_shown_def demo_unknown_def empty_details_def demo_defs response_wf_def schr_wf_def tabr_wf_def
      gall_def gwf_def response_named_def schr_named_def tabr_named_def gkeys_named_def glookup_def split: if_split_asm)

lemma demo_cooperative: "cooperative demo_coop ''ns'' demo_wanted"
proof -
  have "schemas_ok demo_coop demo_config"
    using demo_full demo_shown_reflects last_write_known
    by (auto simp: schemas_ok_def served_def demo_fivetran_schema_def demo_env_def gkeys_named_def glookup_def columns_free_def demo_unknown_def split: sdk_call.split_asm sdk_call.split)
  moreover have "vault_ok demo_coop ''ns''" "connections_ok demo_coop demo_wanted" "real_ids (e_connection demo_coop)" "spec_ok demo_coop (fc_Spec demo_wanted)"
    by (auto simp: vault_ok_def client_stays_def connections_ok_def real_ids_def spec_ok_def resolvable_def ResolveSecrets_def served_def demo_env_def
        demo_wanted_def demo_new_def demo_obj_def demo_spec_def demo_connection_def gstring_def glookup_def test_errors_def identity_def GetAnnotation_def)
  moreover have "spec_ConnectorSchemas (fc_Spec demo_wanted) = Some demo_config" by (simp add: demo_wanted_def)
  ultimately show ?thesis by (auto simp: cooperative_def)
qed

lemma demo_well_named: "well_named demo_wanted"
  by (simp add: well_named_def names_ok_def demo_wanted_def demo_config_def config_wf_def schema_wf_def table_wf_def gall_def gwf_def
      config_named_def gnamed_def schema_named_def table_named_def)

theorem Reconcile_succeeds_witness:
  "\<exists>w'. Reconcile demo_coop True ''ns'' demo_world = (Ok (result 0, None), w') \<and> settled demo_coop (w_obj w')"
proof -
  have "w_trace demo_world = []" "om_DeletionTimestamp (fc_Meta demo_wanted) = None" "\<not> hasFailedConditions demo_wanted"
    by (simp_all add: demo_world_def demo_wanted_def demo_new_def demo_obj_def hasFailedConditions_def)
  from Reconcile_succeeds [OF serves_served demo_cooperative demo_well_named this] show ?thesis by blast
qed

end
