(* ===== verification/Lost_Status.thy ===== *)
theory Lost_Status
  imports Progress
begin

text \<open>
  What the operator does with a Kubernetes server whose status endpoint rejects every write. The
  identifier of a connection that was created reaches the resource by a status update first, and by
  the annotation only after it; so it is lost, and every run creates another connection.
\<close>

subsection \<open>The server\<close>

text \<open>Reads and updates work, status updates do not.\<close>

definition status_down :: "env \<Rightarrow> FivetranConnector \<Rightarrow> event list \<Rightarrow> bool" where
  "status_down E x h \<longleftrightarrow> (\<forall>es y. e_get E (h @ es) = Inr (held E h x es)
     \<and> e_update E (h @ es) y = Inr (store_step (held E h x es) (KubeUpdate y)) \<and> isl (e_status E (h @ es) y))"

lemma status_downD:
  assumes "status_down E x h"
  shows "e_get E (h @ es) = Inr (held E h x es)" "e_update E (h @ es) y = Inr (store_step (held E h x es) (KubeUpdate y))"
    "isl (e_status E (h @ es) y)"
  using assms by (simp_all add: status_down_def)

lemma down_stores: "status_down E x h \<Longrightarrow> stores E x h"
  using status_downD(2,3) [of E x h] by (auto simp: stores_def) (metis isl_def sum.disc(2))+

lemma send_meta_accepted:
  assumes "status_down E x h" and "synced E x h w"
  shows "\<exists>w'. send_meta E f w = (Ok (), w')"
  using assms status_downD(2) [OF assms(1)]
  by (auto simp: synced_def send_meta_def bind_def modify_obj_def kube_update_def log_event_def)

lemma status_rejected:
  assumes "status_down E x h" and "w_trace w = h @ es"
  shows "\<exists>e. kube_status_update E w = (Err e, log_event (KubeStatusUpdate (w_obj w)) w)"
  using status_downD(3) [OF assms(1), of es "w_obj w"] assms(2) by (auto simp: kube_status_update_def isl_def)

subsection \<open>The steps of a run\<close>

text \<open>A live resource without a connection and without a failed condition.\<close>

definition unconnected :: "FivetranConnector \<Rightarrow> bool" where
  "unconnected x \<longleftrightarrow> om_DeletionTimestamp (fc_Meta x) = None \<and> identity x = ([], []) \<and> \<not> hasFailedConditions x"

lemma unconnected_cong:
  assumes "fc_Status x = fc_Status y" and "\<And>k. GetAnnotation (fc_Meta x) k = GetAnnotation (fc_Meta y) k"
    and "om_DeletionTimestamp (fc_Meta x) = om_DeletionTimestamp (fc_Meta y)"
  shows "unconnected x = unconnected y"
  using assms identity_cong [OF assms(1,2)] by (simp add: unconnected_def hasFailedConditions_def)

lemma unconnected_needs:
  assumes "unconnected x"
  shows "\<exists>ds. determineReconciliationNeeds E x force = Inr (True, ds)"
  using assms
  by (auto simp: unconnected_def identity_def determineReconciliationNeeds_def hasConnectorHashChanged_def hasSchemaHashChanged_def)

text \<open>The world before the connector: the resource is stored, unconnected and its spec is the one of \<open>x\<close>, and there is a client.\<close>

definition poised :: "env \<Rightarrow> FivetranConnector \<Rightarrow> event list \<Rightarrow> world \<Rightarrow> bool" where
  "poised E x h w \<longleftrightarrow> synced E x h w \<and> unconnected (w_obj w) \<and> fc_Spec (w_obj w) = fc_Spec x \<and> has_client w"

lemma creation_free_simps [simp]:
  "creation_free KubeGet" "creation_free VaultLookupSelf" "creation_free (KubeUpdate y)" "creation_free (KubeStatusUpdate y)" "creation_free (VaultRead m p)"
  by (simp_all add: creation_free_def)

lemma vault_init_creation_free: "vault_init_event e \<Longrightarrow> creation_free e"
  by (auto simp: creation_free_def vault_init_event_def)

lemma emit_creation_free:
  "emit.keeps creation_free (ensureFinalizer E)" "emit.keeps creation_free (take_force_label E b)"
  "emit.keeps creation_free (resolveSecrets E)" "emit.keeps creation_free (ensure_vault E ns)"
  unfolding take_force_label_def by (auto intro!: emit.keeps_rules frames intro: vault_init_creation_free)

lemma created_keeps: "emit.keeps creation_free a \<Longrightarrow> a w = (r, w') \<Longrightarrow> created F (w_trace w') = created F (w_trace w)"
  using emit.keepsD [of creation_free a w r w'] created_free by (auto simp: grows_def)

lemma poised_prelude:
  assumes E: "status_down E x h" "client_stays E" and w: "poised E x h w"
  shows "does (\<lambda>w'. w' = w) (ensureFinalizer E) (\<lambda>_ w'. poised E x h w' \<and> created F (w_trace w') = created F (w_trace w))"
    and "does (\<lambda>w'. w' = w) (take_force_label E b) (\<lambda>_ w'. poised E x h w' \<and> created F (w_trace w') = created F (w_trace w))"
proof -
  note s = down_stores [OF E(1)]
  have sync: "synced E x h w" using w by (simp add: poised_def)
  note sent = send_meta_accepted [OF E(1) sync, unfolded send_meta_def]
  have "\<exists>w1. ensureFinalizer E w = (Ok (), w1)"
    using sent by (cases "ContainsFinalizer (fc_Meta (w_obj w)) fivetranFinalizer") (simp_all add: ensureFinalizer_def bind_def [of get_obj] get_obj_def ret_def)
  then obtain w1 where f: "ensureFinalizer E w = (Ok (), w1)" by blast
  note p = synced_ensureFinalizer [OF s sync f]
  have "unconnected (w_obj w1)" using unconnected_cong [OF p(3-5)] w by (simp add: poised_def)
  moreover have "created F (w_trace w1) = created F (w_trace w)"
    by (rule created_keeps [OF emit_creation_free(1) f])
  ultimately show "does (\<lambda>w'. w' = w) (ensureFinalizer E) (\<lambda>_ w'. poised E x h w' \<and> created F (w_trace w') = created F (w_trace w))"
    using f p(1,2) w client.keepsD [OF client_utils(1) f] E(2) by (auto simp: does_def poised_def client_kept_def)
  have "\<exists>w2. take_force_label E b w = (Ok (), w2)" using sent by (cases b) (simp_all add: take_force_label_def ret_def)
  then obtain w2 where l: "take_force_label E b w = (Ok (), w2)" by blast
  note q = synced_take_force_label [OF s sync l]
  have "created F (w_trace w2) = created F (w_trace w)" by (rule created_keeps [OF emit_creation_free(2) l])
  moreover have "unconnected (w_obj w2)" using unconnected_cong [OF q(3-5)] w by (simp add: poised_def)
  ultimately show "does (\<lambda>w'. w' = w) (take_force_label E b) (\<lambda>_ w'. poised E x h w' \<and> created F (w_trace w') = created F (w_trace w))"
    using l q(1,2) w client.keepsD [OF client_utils(2) l] E(2) by (auto simp: does_def poised_def client_kept_def)
qed

text \<open>The connection is created, and the record of its identifier fails.\<close>

definition forgets :: "env \<Rightarrow> FivetranConnector \<Rightarrow> event list \<Rightarrow> nat \<Rightarrow> world \<Rightarrow> bool" where
  "forgets E x h n w \<longleftrightarrow> (\<exists>es. w_trace w = h @ es \<and> unconnected (held E h x es) \<and> fc_Spec (held E h x es) = fc_Spec x)
     \<and> created (e_connection E) (w_trace w) = n"

lemma forgets_grows:
  assumes E: "status_down E x h" and "forgets E x h n w" and "grows (\<lambda>e. no_update e \<and> creation_free e) w w'"
  shows "forgets E x h n w'"
proof -
  from assms(3) obtain fs where fs: "w_trace w' = w_trace w @ fs" "list_all no_update fs" "list_all creation_free fs"
    by (auto simp: grows_def list_all_iff)
  from assms(2) obtain es where es: "w_trace w = h @ es" "unconnected (held E h x es)" "fc_Spec (held E h x es) = fc_Spec x"
    "created (e_connection E) (w_trace w) = n" by (auto simp: forgets_def)
  have "isl (e_status E ((h @ es) @ gs) y)" for gs y using status_downD(3) [OF E, of "es @ gs"] by simp
  from held_no_update [OF this fs(2)] have "held E h x (es @ fs) = held E h x es" by (simp add: held_append)
  moreover have "created (e_connection E) (w_trace w') = n" using created_free [OF fs(3), of _ "w_trace w"] es(4) fs(1) by simp
  ultimately show ?thesis unfolding forgets_def using es(1-3) fs(1) by (auto intro!: exI [of _ "es @ fs"])
qed

lemma forgetful_connector:
  assumes E: "status_down E x h" "\<And>h q. snd (e_connection E h (ConnectionCreate q)) = None" and d: "decodes E rc" "decodes E ra"
    and w: "poised E x h w"
  shows "\<exists>e w'. reconcileConnector E rc ra w = (Err e, w') \<and> forgets E x h (Suc (created (e_connection E) (w_trace w))) w'"
proof -
  have i: "st_ConnectorID (fc_Status (w_obj w)) = []" "GetAnnotation (fc_Meta (w_obj w)) annotationConnectorID = []"
    using w by (simp_all add: poised_def unconnected_def identity_def)
  obtain fc where fc: "toFivetranConnector E (w_obj w) rc ra = Inr fc"
    using d by (auto simp: toFivetranConnector_def decodes_def Let_def) (metis sum.simps(6))
  let ?q = "CreateConnection_request (fc\<lparr>f_Paused := Some True\<rparr>)"
  let ?w = "log_event (Sdk (ConnectionCreate ?q)) w"
  obtain resp where resp: "e_connection E (w_trace w) (ConnectionCreate ?q) = (resp, None)" using E(2) by (metis prod.collapse)
  have c: "createConnector E rc ra w = (Ok (conr_ID resp), ?w)"
    by (simp add: createConnector_def bind_def get_obj_def fc CreateConnection_def connection_call_def resp check_def ret_def WrapFivetranError_None)
  from w obtain es where es: "w_trace w = h @ es" "w_obj w = held E h x es" by (auto simp: poised_def synced_def)
  let ?f = "\<lambda>c. c\<lparr>fc_Status := (fc_Status c)\<lparr>st_ConnectorID := conr_ID resp, st_ConnectorURL := fivetranConnectorURL (conr_ID resp)\<rparr>\<rparr>"
  let ?y = "?f (w_obj w)"
  have t: "w_trace (?w\<lparr>w_obj := ?y\<rparr>) = h @ (es @ [Sdk (ConnectionCreate ?q)])" by (simp add: log_event_def es)
  obtain e where u: "kube_status_update E (?w\<lparr>w_obj := ?y\<rparr>) = (Err e, log_event (KubeStatusUpdate ?y) (?w\<lparr>w_obj := ?y\<rparr>))"
    using status_rejected [OF E(1) t] by auto
  have "reconcileConnector E rc ra w = (Err e, log_event (KubeStatusUpdate ?y) (?w\<lparr>w_obj := ?y\<rparr>))"
    using u i c by (simp add: reconcileConnector_def connector_identity_def bind_def get_obj_def setConnectorID_def modify_obj_def log_event_def)
  moreover have "forgets E x h (Suc (created (e_connection E) (w_trace w))) (?w\<lparr>w_obj := ?y\<rparr>)"
  proof -
    have "held E h x (es @ [Sdk (ConnectionCreate ?q)]) = w_obj w" by (simp add: held_append es accept_def rejected_def)
    moreover have "created (e_connection E) (w_trace w @ [Sdk (ConnectionCreate ?q)]) = Suc (created (e_connection E) (w_trace w))"
      by (simp add: created_snoc creates_def resp)
    ultimately show ?thesis using w t unfolding forgets_def poised_def
      by (intro conjI exI [of _ "es @ [Sdk (ConnectionCreate ?q)]"]) (simp_all add: log_event_def)
  qed
  then have "forgets E x h (Suc (created (e_connection E) (w_trace w))) (log_event (KubeStatusUpdate ?y) (?w\<lparr>w_obj := ?y\<rparr>))"
    by (rule forgets_grows [OF E(1)]) (auto simp: grows_def log_event_def no_update_def intro!: exI [of _ "[KubeStatusUpdate ?y]"])
  ultimately show ?thesis by blast
qed

subsection \<open>Whole runs\<close>

text \<open>Everything but the status endpoint works, as far as a run gets.\<close>

definition otherwise_fine :: "env \<Rightarrow> string \<Rightarrow> FivetranConnector \<Rightarrow> bool" where
  "otherwise_fine E ns x \<longleftrightarrow> vault_ok E ns \<and> spec_ok E (fc_Spec x) \<and> (\<forall>h q. snd (e_connection E h (ConnectionCreate q)) = None)"

lemma forgetful_live:
  assumes E: "status_down E x h" "otherwise_fine E ns x" and w: "poised E x h w"
  shows "forgets E x h (Suc (created (e_connection E) (w_trace w))) (snd (reconcile_live E w))"
proof -
  let ?F = "e_connection E"
  have c: "client_stays E" using E(2) by (simp add: otherwise_fine_def vault_ok_def)
  from poised_prelude(1) [OF E(1) c w, of ?F] obtain u w1 where 1: "ensureFinalizer E w = (Ok u, w1)" "poised E x h w1"
    "created ?F (w_trace w1) = created ?F (w_trace w)" by (auto simp: does_def)
  let ?f = "HasLabel (fc_Meta (w_obj w1)) annotationForceReconcile"
  from poised_prelude(2) [OF E(1) c 1(2), of ?f ?F] obtain v w2 where 2: "take_force_label E ?f w1 = (Ok v, w2)" "poised E x h w2"
    "created ?F (w_trace w2) = created ?F (w_trace w1)" by (auto simp: does_def)
  obtain ds where n: "determineReconciliationNeeds E (w_obj w2) ?f = Inr (True, ds)"
    using unconnected_needs [of "w_obj w2" E ?f] 2(2) by (auto simp: poised_def)
  have "spec_ok E (fc_Spec (w_obj w2))" using 2(2) E(2) by (simp add: poised_def otherwise_fine_def)
  from does_resolve [OF c this] 2(2) obtain rc ra w3 where 3: "resolveSecrets E w2 = (Ok (rc, ra), w3)" "has_client w3" "decodes E rc" "decodes E ra"
    by (fastforce simp: does_def poised_def)
  have s: "synced E x h w3" "w_obj w3 = w_obj w2" using synced_resolveSecrets [OF _ 3(1)] 2(2) by (auto simp: poised_def)
  have "created ?F (w_trace w3) = created ?F (w_trace w2)" by (rule created_keeps [OF emit_creation_free(3) 3(1)])
  moreover have "poised E x h w3" using 2(2) 3(2) s by (simp add: poised_def)
  ultimately obtain e w4 where 4: "reconcileConnector E rc ra w3 = (Err e, w4)" "forgets E x h (Suc (created ?F (w_trace w))) w4"
    using forgetful_connector [OF E(1) _ 3(3,4), of w3] E(2) 1(3) 2(3) by (auto simp: otherwise_fine_def)
  have r: "reconcile_live E w = handleError E conditionTypeConnectorReady ConnectorReasonReconciliationFailed e w4"
    by (simp add: reconcile_live_def reconcile_needs_def or_handle_def attempt_def bind_def get_obj_def Let_def 1(1) 2(1) n 3(1) connector_phase_def 4(1))
  have "grows (\<lambda>e. no_update e \<and> creation_free e) w4 (snd (handleError E ct rs e w4))" for ct rs
    by (rule emit.step_keeps) (intro frames; simp add: no_update_def)
  then show ?thesis using forgets_grows [OF E(1) 4(2)] r by simp
qed

lemma forgetful_run:
  assumes E: "status_down E x h" "otherwise_fine E ns x" and w: "forgets E x h n w"
  shows "forgets E x h (Suc n) (snd (Reconcile E True ns w))"
proof -
  let ?F = "e_connection E"
  from w obtain es where es: "w_trace w = h @ es" and u: "unconnected (held E h x es)" "fc_Spec (held E h x es) = fc_Spec x"
    and n: "created ?F (w_trace w) = n" by (auto simp: forgets_def)
  let ?x = "held E h x es" and ?w = "sent KubeGet (held E h x es) w"
  have g: "kube_get E w = (Ok (), ?w)"
    using status_downD(1) [OF E(1), of es] by (simp add: kube_get_def log_event_def sent_def es)
  have "synced E x h ?w" unfolding synced_def
    by (intro exI [of _ "es @ [KubeGet]"]) (simp add: es held_append accept_def rejected_def)
  moreover obtain v w1 where v: "ensure_vault E ns ?w = (Ok v, w1)"
    using does_ensure_vault [of E ns] E(2) unfolding does_def otherwise_fine_def by blast
  ultimately have s: "synced E x h w1" "w_obj w1 = ?x" using synced_ensure_vault [OF _ v] by auto
  have "has_client w1" using ensure_vault_client [OF _ v] E(2) by (simp add: otherwise_fine_def vault_ok_def)
  then have p: "poised E x h w1" using s u by (simp add: poised_def)
  have "created ?F (w_trace ?w) = n" using created_free [of "[KubeGet]"] n by simp
  moreover have "created ?F (w_trace w1) = created ?F (w_trace ?w)"
    by (rule created_keeps [OF emit_creation_free(4) v])
  moreover have "snd (Reconcile E True ns w) = snd (reconcile_live E w1)"
    using g v s(2) u(1) by (simp add: Reconcile_def attempt_def bind_def get_obj_def unconnected_def)
  ultimately show ?thesis using forgetful_live [OF E p] by simp
qed

fun runs :: "env \<Rightarrow> string \<Rightarrow> nat \<Rightarrow> world \<Rightarrow> world" where
  "runs E ns 0 w = w"
| "runs E ns (Suc n) w = runs E ns n (snd (Reconcile E True ns w))"

lemma forgetful_runs:
  assumes "status_down E x h" "otherwise_fine E ns x"
  shows "forgets E x h k w \<Longrightarrow> forgets E x h (k + n) (runs E ns n w)"
proof (induction n arbitrary: k w)
  case (Suc n)
  then show ?case using Suc.IH [OF forgetful_run [OF assms Suc.prems]] by simp
qed simp

text \<open>C24: The operator relies on its status updates: without them every run creates another
  connection. Let Kubernetes serve reads and store updates of a live resource that has no connector
  ID and no failed condition, but reject every status update; let Vault work and let Fivetran
  accept the creations. Then n runs of Reconcile, one after the other, create n
  connections, whatever else the servers answer.\<close>

theorem lost_status_duplicates:
  assumes "status_down E x h" and "otherwise_fine E ns x" and "w_trace w = h"
    and "om_DeletionTimestamp (fc_Meta x) = None" and "identity x = ([], [])" and "\<not> hasFailedConditions x"
  shows "created (e_connection E) (w_trace (runs E ns n w)) = created (e_connection E) h + n"
proof -
  have "forgets E x h (created (e_connection E) h) w"
    unfolding forgets_def using assms(3-6) by (auto simp: unconnected_def)
  from forgetful_runs [OF assms(1,2) this, of n] show ?thesis by (simp add: forgets_def)
qed

text \<open>The demo resource on such a server.\<close>

definition keep_update :: "FivetranConnector \<Rightarrow> event \<Rightarrow> FivetranConnector" where
  "keep_update x e = (if no_update e then x else store_step x e)"

definition demo_lost :: env where
  "demo_lost = demo_env\<lparr>e_get := \<lambda>h. Inr (foldl keep_update demo_new h),
     e_update := \<lambda>h y. Inr (store_step (foldl keep_update demo_new h) (KubeUpdate y)), e_status := \<lambda>_ _. Inl (Text ''down'')\<rparr>"

lemma demo_lost_down: "status_down demo_lost demo_new []"
proof -
  have "accept demo_lost h y e = keep_update y e" for h y e
    by (auto simp: accept_def rejected_def keep_update_def no_update_def demo_lost_def split: event.split)
  then have "held demo_lost h y es = foldl keep_update y es" for h y es
    by (induction es arbitrary: h y) simp_all
  then show ?thesis by (simp add: status_down_def) (simp add: demo_lost_def)
qed

theorem lost_status_duplicates_witness:
  "created (e_connection demo_lost) (w_trace (runs demo_lost ''ns'' 2 demo_world)) = 2"
proof -
  have f: "otherwise_fine demo_lost ''ns'' demo_new"
    by (auto simp: otherwise_fine_def vault_ok_def client_stays_def spec_ok_def resolvable_def ResolveSecrets_def demo_lost_def demo_env_def
        demo_new_def demo_obj_def demo_spec_def gstring_def glookup_def)
  have "w_trace demo_world = []" "om_DeletionTimestamp (fc_Meta demo_new) = None" "identity demo_new = ([], [])" "\<not> hasFailedConditions demo_new"
    by (simp_all add: demo_world_def demo_new_def demo_obj_def identity_def GetAnnotation_def gstring_def glookup_def hasFailedConditions_def)
  from lost_status_duplicates [OF demo_lost_down f this, of 2] show ?thesis by simp
qed

end
