(* ===== verification/Spec2Isabelle.thy ===== *)
theory Spec2Isabelle
  imports Reconcile_Safety Reconcile_Schema Reconcile_Connector Reconcile_Needs Schema_Writes Cluster Convergence Startup
    Secret_Copies Panics Call_Bounds Progress Lost_Status
begin

text \<open>
  A verification of the Fivetran operator.

  \<^bold>\<open>The program.\<close> The operator is a Kubernetes controller in Go. For every custom resource
  FivetranConnector it keeps a connection in Fivetran: it creates or adopts the connection, updates
  it, runs its setup tests, and writes its schema configuration (which schemas, tables and columns
  are synchronised). Secrets in the resource are references into Vault. The process (cmd/main.go)
  builds the Fivetran client and starts a manager, which calls the method Reconcile for a resource
  whenever the event filter lets an event through. A reconciliation reads the resource, makes sure
  of a Vault token, and then deletes, or decides by conditions, labels and hashes what has to be
  done, resolves the secrets, and brings the connection, the setup tests and the schema into line;
  every error goes through one handler that sets a condition and chooses when to try again.

  \<^bold>\<open>Theories and sources\<close>, all sources under src/:

  \<^item> \<open>Go_Base\<close> is the prelude: Go maps, strings and numbers of the standard library, and the locales
    \<open>range_loop\<close> and \<open>sticky_loop\<close> for loops over maps in any order. \<open>Go_Errors\<close> has the error
    values with wrapping, joining and errors.Is/As, and the sentinels of constants.go.
  \<^item> \<open>Fivetran_Errors\<close>: pkg/fivetran/errors.go. \<open>Api_Types\<close>: api/v1alpha1/fivetranconnector_types.go.
    \<open>Metadata\<close>: internal/kubeutils and the event filter of SetupWithManager.
  \<^item> \<open>Go_Heap\<close>: memory with typed cells and the contract of a deep copy. \<open>Deep_Copy\<close>:
    api/v1alpha1/zz_generated.deepcopy.go, with the structs of \<open>Api_Types\<close> and their pointers, and the
    copies of RawExtension and ObjectMeta from apimachinery. \<open>Secret_Copies\<close>: resolveSecrets of
    utils.go and the assignment of vault.ResolveSecrets on such memory.
  \<^item> \<open>Schema_Types\<close>, \<open>Schema_Builder\<close>, \<open>Schema_Merge\<close>, \<open>Schema_Locked\<close>:
    pkg/fivetran/schema_builder.go and the SDK types it fills. Table objects are shared between two
    indexes of the builder, so they live in a store and are referred to by address.
    \<open>Schema_Compare\<close>: pkg/fivetran/schema_comparison.go.
  \<^item> \<open>Vault_Resolve\<close>: pkg/fivetran/vault/vault_ops.go. \<open>Vault_Client\<close>: pkg/vault.
  \<^item> \<open>Connector_Service\<close>: the requests of connector_service.go and schema_service.go.
    \<open>Operator_World\<close>: the world and the actions of the controller, Kubernetes and Fivetran calls.
  \<^item> \<open>Status_Mgmt\<close>, \<open>Controller_Utils\<close>, \<open>Connector_Ops\<close>, \<open>Schema_Ops\<close>, \<open>Controller\<close>: the files
    constants.go and status_mgmt.go, utils.go, connector_ops.go and setup_tests.go, schema_ops.go,
    and controller.go of internal/controller/fivetranconnector.
  \<^item> \<open>Startup\<close>: cmd/main.go and pkg/fivetran/client.go.
  \<^item> \<open>Live_Frame\<close>, \<open>Kube_Store\<close>: relations that whole reconciliations keep, and the Kubernetes
    server as a store of the resource, with and without rejected writes.
  \<^item> \<open>Reconcile_Safety\<close>, \<open>Reconcile_Schema\<close>, \<open>Reconcile_Connector\<close>, \<open>Reconcile_Needs\<close>,
    \<open>Schema_Writes\<close>, \<open>Cluster\<close>, \<open>Convergence\<close>, \<open>Panics\<close>, \<open>Call_Bounds\<close>,
    \<open>Progress\<close>, \<open>Lost_Status\<close>: properties of whole reconciliations
    and of sequences of them.

  \<^bold>\<open>State and effects.\<close> An action of the controller is a function on a record of the in-memory
  resource, the vault client and the trace of all calls made so far; it returns a value, an error
  or a panic. Every answer of Kubernetes, Fivetran and Vault is a function of the trace and the
  call, so the properties hold for servers that change between any two calls. The vault client is a
  field that reconciliations of other resources write while a run is under way: each read of it goes
  through \<open>others\<close>, an arbitrary function of the environment, so the properties of a run hold under any
  such interference. Where it matters which objects are shared, the model has pointers: the builder's
  tables and the deep copies; everywhere else values. All definitions are
  total and executable: every loop of the source ranges over a finite map or list or walks a JSON
  value, so no fuel is needed.

  \<^bold>\<open>What is shown.\<close>

  \<^item> Connections: a deletion only with the annotation, the mark and the finalizer; a creation only
    for a resource without an identity, and paused; adoption only of a matching connection; the
    exact calls of a deletion.
  \<^item> Sequences of reconciliations: \<open>Cluster\<close> composes Reconcile with a server that accepts and stores all
    writes, with edits by users and with restarts as an inductive step relation. In all reachable
    states there is at most one connection per resource and its name never changes. \<open>Lost_Status\<close>: if the status
    cannot be written, every run creates one more connection. \<open>Convergence\<close> shows that a successful run
    leaves a settled resource on which the next run does nothing, unless a failure was pending before it. \<open>Progress\<close> shows, with rules for total correctness, that in a world
    that cooperates a run does succeed. \<open>Call_Bounds\<close> bounds the number of
    calls of each kind in one run: by constants, whatever the servers answer, and by the size of the
    resource for the reads of columns and of Vault.
  \<^item> Schemas: the builder computes the specified payload in any order of the map iterations,
    enables only what is listed, and respects locks; every schema request of a whole run is such a
    payload, which enables no schema and no table that is not listed; the comparison is exact, its report included, and accepts an applied payload; success means verified.
  \<^item> Secrets: resolution with a cache equals resolution without, reads each path once, and classes
    its errors; references are parsed back; the login needs a complete configuration. On memory
    the resolution works on copies, so that no secret is written into the resource.
  \<^item> Deep copies: a copy has the value of its original and shares no memory with it.
  \<^item> Errors: HTTP statuses are recovered from error texts; every error has one disposition;
    the two ways in which a whole run can panic.
  \<^item> Start: main follows a plan that the flags and the environment determine, never runs half
    configured, and the number of workers is a positive 64-bit integer.

  \<^bold>\<open>Interfaces.\<close> \<open>string_store\<close> (annotations, labels), \<open>retry_class\<close> (API and vault errors),
  \<open>range_loop\<close> and \<open>sticky_loop\<close> (loops of builder and comparison), \<open>resolve_walk\<close> (secret
  resolution), \<open>action_frame\<close> (relations every step keeps) and \<open>live_frame\<close>, which extends it by the
  kinds of steps of a live reconciliation; \<open>counted\<close> (the number of calls of one kind); \<open>deep_copy\<close> with its extensions for pointers, slices, maps,
  pairs and structs, from which the contract of each generated copy is composed. Each is interpreted on the definitions of the model.

  \<^bold>\<open>Hypotheses on code outside the repository\<close> are named predicates on the environment:
  \<open>status_ok\<close> (status updates succeed), \<open>stores\<close> (Kubernetes may reject any write; one it accepts is
  applied to the resource as the operator has seen it last, metadata and spec by an update, the status by a
  status update, which is what resource versions and the status subresource give), \<open>serves\<close> (the same
  server, accepting all writes; \<open>serves_stores\<close> relates the two), \<open>status_down\<close> (the same, rejecting all status updates),
  \<open>client_stays\<close> (parallel runs replace a connected vault client by connected ones only, which is what the source
  of Reconcile does), \<open>answers_ok\<close> (well-formed schema responses), \<open>real_ids\<close> (a created connection has an identifier).
  \<open>cooperative\<close> collects
  what a successful run needs of Vault (\<open>vault_ok\<close>), of the encoders and references (\<open>spec_ok\<close>), and of
  Fivetran (\<open>connections_ok\<close>, \<open>schemas_ok\<close>: details reflect the last write and lock no column that the resource disables). Of the resource
  it needs \<open>well_named\<close>: no empty and no repeated names. Witnesses instantiate them with concrete servers. The JSON codec, json.Marshal on the resource and
  md5 are functions of the environment; nothing is assumed of the hashes, so a settled resource is
  one with equal hashes.

  \<^bold>\<open>Not modelled.\<close> Log lines. Parsing of command line flags (their values are an argument of main).
  groupversion_info.go, the function init and interfaces.go, which register and declare types. The work queue, the worker pool and
  the cache of controller-runtime: a run is modelled from its first read on, two runs for one
  resource do not overlap, as the queue guarantees. A torn read of the vault client, which the
  unsynchronised field allows, is not a value of the model. The HTTP transport below the SDK and the test
  helpers under test/.
\<close>

end
